(* ===== verification/Prelude.thy ===== *)
theory Prelude
  imports Main "HOL-Library.Word" "HOL-Library.Signed_Division"
begin

text \<open>
  Shared vocabulary of the QuietHop development: bytes and machine words, Rust's
  \<^verbatim>\<open>Result\<close> as a sum with its \<^verbatim>\<open>?\<close> operator, slices of byte
  buffers, UTF-8 strings, big-endian integers, decimal and hexadecimal digits, and two
  interface locales (codecs and transition systems with an invariant) that the components
  interpret on their own definitions.
\<close>

section \<open>Bytes, words and strings\<close>

type_synonym byte = "8 word"
type_synonym bytes = "8 word list"
type_synonym u16 = "16 word"
type_synonym u32 = "32 word"

named_theorems result_simps \<open>case analysis of results threaded with the question mark\<close>
named_theorems wire_defs \<open>definitions of wire constants and sizes\<close>

subsection \<open>Results\<close>

text \<open>\<open>and_then r f\<close> is \<^verbatim>\<open>let v = r?; f(v)\<close>: an error stops the function.\<close>

fun and_then :: "('e + 'a) \<Rightarrow> ('a \<Rightarrow> 'e + 'b) \<Rightarrow> 'e + 'b" where
  "and_then (Inl e) f = Inl e"
| "and_then (Inr v) f = f v"

fun map_err :: "('e \<Rightarrow> 'f) \<Rightarrow> ('e + 'a) \<Rightarrow> ('f + 'a)" where
  "map_err h (Inl e) = Inl (h e)"
| "map_err h (Inr v) = Inr v"

fun ok_or :: "'e \<Rightarrow> 'a option \<Rightarrow> 'e + 'a" where
  "ok_or e None = Inl e"
| "ok_or e (Some v) = Inr v"

fun ok :: "('e + 'a) \<Rightarrow> 'a option" where
  "ok (Inl e) = None"
| "ok (Inr v) = Some v"

lemma and_then_Inr_iff [result_simps]:
  "and_then r f = Inr y \<longleftrightarrow> (\<exists>v. r = Inr v \<and> f v = Inr y)"
  by (cases r) auto

lemma and_then_Inl_iff [result_simps]:
  "and_then r f = Inl e \<longleftrightarrow> r = Inl e \<or> (\<exists>v. r = Inr v \<and> f v = Inl e)"
  by (cases r) auto

lemma map_err_Inr_iff [result_simps]: "map_err h r = Inr y \<longleftrightarrow> r = Inr y"
  by (cases r) auto

lemma map_err_Inl_iff [result_simps]: "map_err h r = Inl e \<longleftrightarrow> (\<exists>e'. r = Inl e' \<and> e = h e')"
  by (cases r) auto

lemma ok_or_Inr_iff [result_simps]: "ok_or e x = Inr y \<longleftrightarrow> x = Some y"
  by (cases x) auto

lemma ok_or_Inl_iff [result_simps]: "ok_or e x = Inl e' \<longleftrightarrow> x = None \<and> e' = e"
  by (cases x) auto

lemma ok_Some_iff [result_simps]: "ok r = Some v \<longleftrightarrow> r = Inr v"
  by (cases r) auto

lemma ok_None_iff [result_simps]: "ok r = None \<longleftrightarrow> (\<exists>e. r = Inl e)"
  by (cases r) auto

subsection \<open>Buffers\<close>

text \<open>
  \<open>copy_at i src buf\<close> is \<^verbatim>\<open>buf[i..i + src.len()].copy_from_slice(src)\<close> for a range
  inside the buffer, \<open>slice i j buf\<close> is \<^verbatim>\<open>buf[i..j]\<close>, and \<open>zero_from i buf\<close> is the loop
  that writes zero into \<^verbatim>\<open>buf[i..]\<close>.
\<close>

definition copy_at :: "nat \<Rightarrow> 'a list \<Rightarrow> 'a list \<Rightarrow> 'a list" where
  "copy_at i src buf = take i buf @ src @ drop (i + length src) buf"

definition slice :: "nat \<Rightarrow> nat \<Rightarrow> 'a list \<Rightarrow> 'a list" where
  "slice i j buf = take (j - i) (drop i buf)"

definition zero_from :: "nat \<Rightarrow> bytes \<Rightarrow> bytes" where
  "zero_from i buf = take i buf @ replicate (length buf - i) 0"

lemma length_copy_at [simp]: "i + length src \<le> length buf \<Longrightarrow> length (copy_at i src buf) = length buf"
  by (simp add: copy_at_def)

lemma length_slice [simp]: "j \<le> length buf \<Longrightarrow> length (slice i j buf) = j - i"
  by (simp add: slice_def)

lemma length_zero_from [simp]: "i \<le> length buf \<Longrightarrow> length (zero_from i buf) = length buf"
  by (simp add: zero_from_def)

lemma slice_append_left [simp]: "j \<le> length xs \<Longrightarrow> slice i j (xs @ ys) = slice i j xs"
  by (simp add: slice_def)

lemma slice_append_right: "length xs \<le> i \<Longrightarrow> slice i j (xs @ ys) = slice (i - length xs) (j - length xs) ys"
  by (simp add: slice_def)

lemma slice_all [simp]: "slice 0 (length xs) xs = xs"
  by (simp add: slice_def)

lemma slice_Cons [simp]: "slice (Suc i) (Suc j) (x # xs) = slice i j xs"
  by (simp add: slice_def)

lemma slice_0 [simp]: "slice 0 j xs = take j xs"
  by (simp add: slice_def)

lemma length_2_split: "length xs = 2 \<Longrightarrow> \<exists>a b. xs = [a, b]"
  by (auto simp: length_Suc_conv numeral_2_eq_2)

subsection \<open>Big-endian integers\<close>

definition to_be16 :: "u16 \<Rightarrow> bytes" where
  "to_be16 w = [word_of_nat (unat w div 256), word_of_nat (unat w mod 256)]"

definition from_be16 :: "byte \<Rightarrow> byte \<Rightarrow> u16" where
  "from_be16 a b = word_of_nat (256 * unat a + unat b)"

lemma length_to_be16 [simp]: "length (to_be16 w) = 2"
  by (simp add: to_be16_def)

lemma unat_byte_lt [simp]: "unat (b :: byte) < 256"
  using unsigned_less [of b, where ?'a = nat] by simp

lemma unat_u16_lt [simp]: "unat (w :: u16) < 65536"
  using unsigned_less [of w, where ?'a = nat] by simp

lemma unat_byte_of_nat: "n < 256 \<Longrightarrow> unat (word_of_nat n :: byte) = n"
  by (simp add: unat_of_nat take_bit_nat_eq_self)

lemma unat_u16_of_nat: "n < 65536 \<Longrightarrow> unat (word_of_nat n :: u16) = n"
  by (simp add: unat_of_nat take_bit_nat_eq_self)

lemma unat_from_be16: "unat (from_be16 a b) = 256 * unat a + unat b"
proof -
  have "256 * unat a + unat b < 65536"
    using unat_byte_lt [of a] unat_byte_lt [of b] by linarith
  then show ?thesis unfolding from_be16_def by (rule unat_u16_of_nat)
qed

lemma from_to_be16 [simp]:
  "from_be16 (word_of_nat (unat w div 256)) (word_of_nat (unat w mod 256)) = w"
proof -
  have "unat w div 256 < 256"
    using unat_u16_lt [of w] by (simp add: less_mult_imp_div_less)
  then have "unat (from_be16 (word_of_nat (unat w div 256)) (word_of_nat (unat w mod 256))) = unat w"
    by (simp add: unat_from_be16 unat_byte_of_nat)
  then show ?thesis by (simp add: word_unat_eq_iff)
qed

lemma from_be16_of_nat [simp]:
  "n < 65536 \<Longrightarrow> from_be16 (word_of_nat (n div 256)) (word_of_nat (n mod 256)) = word_of_nat n"
  using from_to_be16 [of "word_of_nat n"] by (simp only: unat_u16_of_nat)

lemma to_from_be16 [simp]: "to_be16 (from_be16 a b) = [a, b]"
proof -
  have "(256 * unat a + unat b) div 256 = unat a" "(256 * unat a + unat b) mod 256 = unat b"
    by (simp_all add: div_add1_eq)
  then show ?thesis by (simp add: to_be16_def unat_from_be16)
qed

lemma to_be16_nth [simp]:
  "to_be16 w ! 0 = word_of_nat (unat w div 256)" "to_be16 w ! Suc 0 = word_of_nat (unat w mod 256)"
  by (simp_all add: to_be16_def)

subsection \<open>UTF-8 strings\<close>

text \<open>
  A Rust \<^verbatim>\<open>String\<close> is a byte sequence that is valid UTF-8. It is modelled by HOL's
  \<open>string\<close>, one \<open>char\<close> per byte, so a length is Rust's \<^verbatim>\<open>len()\<close>; \<open>as_bytes\<close> and
  \<open>from_utf8\<close> are the conversions, and \<open>utf8_valid\<close> is the well-formedness table of the
  Unicode standard that \<^verbatim>\<open>core::str::from_utf8\<close> implements.
\<close>

definition as_bytes :: "string \<Rightarrow> bytes" where
  "as_bytes s = map (\<lambda>c. word_of_nat (of_char c)) s"

definition of_bytes :: "bytes \<Rightarrow> string" where
  "of_bytes bs = map (\<lambda>b. char_of (unat b)) bs"

definition utf8_cont :: "nat \<Rightarrow> bool" where
  "utf8_cont b \<longleftrightarrow> 128 \<le> b \<and> b \<le> 191"

fun utf8_valid :: "nat list \<Rightarrow> bool" where
  "utf8_valid [] = True"
| "utf8_valid (a # xs) =
    (if a < 128 then utf8_valid xs
     else if 194 \<le> a \<and> a \<le> 223 then
       (case xs of b # ys \<Rightarrow> utf8_cont b \<and> utf8_valid ys | _ \<Rightarrow> False)
     else if 224 \<le> a \<and> a \<le> 239 then
       (case xs of
          b # c # ys \<Rightarrow>
            (if a = 224 then 160 \<le> b \<and> b \<le> 191
             else if a = 237 then 128 \<le> b \<and> b \<le> 159 else utf8_cont b)
            \<and> utf8_cont c \<and> utf8_valid ys
        | _ \<Rightarrow> False)
     else if 240 \<le> a \<and> a \<le> 244 then
       (case xs of
          b # c # d # ys \<Rightarrow>
            (if a = 240 then 144 \<le> b \<and> b \<le> 191
             else if a = 244 then 128 \<le> b \<and> b \<le> 143 else utf8_cont b)
            \<and> utf8_cont c \<and> utf8_cont d \<and> utf8_valid ys
        | _ \<Rightarrow> False)
     else False)"

definition from_utf8 :: "bytes \<Rightarrow> string option" where
  "from_utf8 bs = (if utf8_valid (map unat bs) then Some (of_bytes bs) else None)"

definition is_str :: "string \<Rightarrow> bool" where
  "is_str s \<longleftrightarrow> utf8_valid (map of_char s)"

lemma length_as_bytes [simp]: "length (as_bytes s) = length s"
  by (simp add: as_bytes_def)

lemma of_char_lt_256 [simp]: "of_char c < (256 :: nat)"
  by (cases c) (simp add: of_char_def horner_sum_simps)

lemma of_bytes_as_bytes [simp]: "of_bytes (as_bytes s) = s"
  by (induction s) (auto simp: of_bytes_def as_bytes_def unat_byte_of_nat)

lemma as_bytes_of_bytes [simp]: "as_bytes (of_bytes bs) = bs"
  by (induction bs) (auto simp: of_bytes_def as_bytes_def)

lemma unat_as_bytes: "map unat (as_bytes s) = map of_char s"
  by (simp add: as_bytes_def unat_byte_of_nat)

lemma from_utf8_as_bytes [simp]: "is_str s \<Longrightarrow> from_utf8 (as_bytes s) = Some s"
  by (simp add: from_utf8_def is_str_def unat_as_bytes)

lemma from_utf8_Some: "from_utf8 bs = Some s \<longleftrightarrow> is_str s \<and> bs = as_bytes s"
  using unat_as_bytes [of s] by (auto simp: from_utf8_def is_str_def split: if_splits)

subsection \<open>Chunks of a slice\<close>

text \<open>\<^verbatim>\<open>xs.chunks(n)\<close> for \<open>n > 0\<close> (Rust panics on 0, and no call site passes it).\<close>

function chunks :: "nat \<Rightarrow> 'a list \<Rightarrow> 'a list list" where
  "chunks n xs = (if n = 0 \<or> xs = [] then [] else take n xs # chunks n (drop n xs))"
  by pat_completeness auto
termination
  by (relation "measure (\<lambda>(n, xs). length xs)") auto

declare chunks.simps [simp del]

lemma chunks_Nil [simp]: "chunks n [] = []"
  by (simp add: chunks.simps)

lemma concat_chunks [simp]: "0 < n \<Longrightarrow> concat (chunks n xs) = xs"
proof (induction n xs rule: chunks.induct)
  case (1 n xs)
  then show ?case by (subst chunks.simps) auto
qed

lemma chunks_bounds: "c \<in> set (chunks n xs) \<Longrightarrow> c \<noteq> [] \<and> length c \<le> n"
proof (induction n xs rule: chunks.induct)
  case (1 n xs)
  then show ?case by (subst (asm) chunks.simps) (auto split: if_splits)
qed

lemma chunks_append:
  assumes "length xs = n" "0 < n" shows "chunks n (xs @ ys) = xs # chunks n ys"
  using assms by (subst chunks.simps) auto

subsection \<open>Decimal and hexadecimal digits\<close>

definition dec_digit :: "char \<Rightarrow> nat option" where
  "dec_digit c = (let v = of_char c in if 48 \<le> v \<and> v \<le> 57 then Some (v - 48) else None)"

text \<open>\<^verbatim>\<open>char::to_digit(16)\<close>.\<close>

definition hex_digit :: "byte \<Rightarrow> nat option" where
  "hex_digit b = (let v = unat b in
     if 48 \<le> v \<and> v \<le> 57 then Some (v - 48)
     else if 97 \<le> v \<and> v \<le> 102 then Some (v - 87)
     else if 65 \<le> v \<and> v \<le> 70 then Some (v - 55) else None)"

text \<open>\<^verbatim>\<open>char::from_digit(v, 16)\<close>, lower case.\<close>

definition hex_char :: "nat \<Rightarrow> char" where
  "hex_char v = (if v < 10 then char_of (48 + v) else char_of (87 + v))"

fun parse_digits :: "nat \<Rightarrow> string \<Rightarrow> nat option" where
  "parse_digits acc [] = Some acc"
| "parse_digits acc (c # cs) =
     (case dec_digit c of None \<Rightarrow> None | Some d \<Rightarrow> parse_digits (10 * acc + d) cs)"

text \<open>
  \<^verbatim>\<open>str::parse\<close> for integers: an optional sign (\<^verbatim>\<open>+\<close> only for unsigned types), then at
  least one digit, with an error on overflow.
\<close>

definition parse_nat :: "string \<Rightarrow> nat option" where
  "parse_nat s = (if s = [] then None else parse_digits 0 s)"

definition strip_plus :: "string \<Rightarrow> string" where
  "strip_plus s = (if take 1 s = ''+'' then drop 1 s else s)"

definition parse_uint :: "nat \<Rightarrow> string \<Rightarrow> nat option" where
  "parse_uint bits s =
     (case parse_nat (strip_plus s) of
        None \<Rightarrow> None
      | Some v \<Rightarrow> if v < 2 ^ bits then Some v else None)"

definition parse_i64 :: "string \<Rightarrow> int option" where
  "parse_i64 s =
     (if take 1 s = ''-'' then
        (case parse_nat (drop 1 s) of
           None \<Rightarrow> None | Some v \<Rightarrow> if v \<le> 2 ^ 63 then Some (- int v) else None)
      else
        (case parse_nat (strip_plus s) of
           None \<Rightarrow> None | Some v \<Rightarrow> if v < 2 ^ 63 then Some (int v) else None))"

lemma hex_digit_lt: "hex_digit b = Some v \<Longrightarrow> v < 16"
  by (auto simp: hex_digit_def Let_def split: if_splits)

lemma of_char_char_of_lt: "n < 256 \<Longrightarrow> of_char (char_of n) = (n :: nat)"
  by (simp add: of_char_of take_bit_nat_eq_self)

lemma hex_digit_hex_char: "v < 16 \<Longrightarrow> hex_digit (word_of_nat (of_char (hex_char v))) = Some v"
  by (auto simp: hex_digit_def hex_char_def Let_def unat_byte_of_nat of_char_char_of_lt)

section \<open>Interfaces\<close>

text \<open>
  A codec: encoding a well-formed value succeeds and decoding gives the value back. A strict
  codec also accepts nothing but encodings, so the wire form of a value is unique.
\<close>

locale codec =
  fixes enc :: "'a \<Rightarrow> 'e + bytes"
    and dec :: "bytes \<Rightarrow> 'e + 'a"
    and wf :: "'a \<Rightarrow> bool"
  assumes enc_total: "wf x \<Longrightarrow> \<exists>b. enc x = Inr b"
    and dec_enc: "wf x \<Longrightarrow> enc x = Inr b \<Longrightarrow> dec b = Inr x"
begin

lemma round_trip: "wf x \<Longrightarrow> \<exists>b. enc x = Inr b \<and> dec b = Inr x"
  using enc_total dec_enc by blast

lemma enc_inj: "wf x \<Longrightarrow> wf y \<Longrightarrow> enc x = enc y \<Longrightarrow> x = y"
  using enc_total [of x] dec_enc [of x] dec_enc [of y] by auto

end

locale strict_codec = codec +
  assumes enc_dec: "dec b = Inr x \<Longrightarrow> wf x \<and> enc x = Inr b"
begin

lemma dec_iff: "dec b = Inr x \<longleftrightarrow> wf x \<and> enc x = Inr b"
  using dec_enc enc_dec by blast

lemma dec_inj: "dec b = Inr x \<Longrightarrow> dec c = Inr x \<Longrightarrow> b = c"
  using enc_dec [of b x] enc_dec [of c x] by simp

end

text \<open>
  A component driven by events: every step keeps an invariant and only moves forward in a
  preorder, so a whole run does.
\<close>

locale event_system =
  fixes step :: "'s \<Rightarrow> 'e \<Rightarrow> 's"
    and inv :: "'s \<Rightarrow> bool"
    and below :: "'s \<Rightarrow> 's \<Rightarrow> bool"
  assumes inv_step: "inv s \<Longrightarrow> inv (step s e)"
    and below_refl: "below s s"
    and below_trans: "below s t \<Longrightarrow> below t u \<Longrightarrow> below s u"
    and below_step: "inv s \<Longrightarrow> below s (step s e)"
begin

lemma run_inv: "inv s \<Longrightarrow> inv (foldl step s es)"
  by (induction es arbitrary: s) (auto simp: inv_step)

lemma run_below: "inv s \<Longrightarrow> below s (foldl step s es)"
proof (induction es arbitrary: s)
  case Nil
  show ?case by (simp add: below_refl)
next
  case (Cons e es)
  then have "below (step s e) (foldl step (step s e) es)"
    by (simp add: inv_step)
  with below_step [OF Cons.prems] show ?case
    by (auto intro: below_trans)
qed

lemma run_prefix_below: "inv s \<Longrightarrow> below (foldl step s es) (foldl step s (es @ fs))"
  using run_below [OF run_inv] by simp

end

end
