(* ===== verification/Cells.thy ===== *)
theory Cells
  imports Prelude
begin

text \<open>
  Wire constants (\<^verbatim>\<open>quiethop-crypto/src/wire.rs\<close>) and fixed-length cells
  (\<^verbatim>\<open>quiethop-crypto/src/cell.rs\<close>): link sizes, the cell format and its codec, and the
  EXTEND and CONNECT payloads. Array indices of the source are list indices here, always
  behind the length test the source makes first.
\<close>

section \<open>Constants\<close>

definition PROTO_CLIENT :: byte where [wire_defs]: "PROTO_CLIENT = 0x01"
definition PROTO_RELAY :: byte where [wire_defs]: "PROTO_RELAY = 0x02"
definition CIRCUIT_START :: byte where [wire_defs]: "CIRCUIT_START = 0xC1"
definition M_RAW_LEN :: nat where [wire_defs]: "M_RAW_LEN = 32"
definition TOKEN_LEN :: nat where [wire_defs]: "TOKEN_LEN = 256"
definition PRESENTATION_LEN :: nat where [wire_defs]: "PRESENTATION_LEN = M_RAW_LEN + TOKEN_LEN"
definition DISPOSITION_LEN :: nat where [wire_defs]: "DISPOSITION_LEN = 1"
definition DISPOSITION_TO_ME :: byte where [wire_defs]: "DISPOSITION_TO_ME = 0x01"
definition DISPOSITION_FORWARD :: byte where [wire_defs]: "DISPOSITION_FORWARD = 0x02"

definition NOISE_TAG_LEN :: nat where [wire_defs]: "NOISE_TAG_LEN = 16"
definition NOISE_MSG_LEN :: nat where [wire_defs]: "NOISE_MSG_LEN = 48"
definition STATIC_KEY_LEN :: nat where [wire_defs]: "STATIC_KEY_LEN = 32"

definition CELL_PAYLOAD_LEN :: nat where [wire_defs]: "CELL_PAYLOAD_LEN = 509"
definition CELL_HEADER_LEN :: nat where [wire_defs]: "CELL_HEADER_LEN = 4"
definition CELL_PLAINTEXT_LEN :: nat where
  [wire_defs]: "CELL_PLAINTEXT_LEN = CELL_HEADER_LEN + CELL_PAYLOAD_LEN"

definition link_cell_len :: "nat \<Rightarrow> nat" where
  [wire_defs]: "link_cell_len layers = CELL_PLAINTEXT_LEN + layers * (DISPOSITION_LEN + NOISE_TAG_LEN)"

definition peeled_len :: "nat \<Rightarrow> nat" where
  [wire_defs]: "peeled_len layers = link_cell_len layers - NOISE_TAG_LEN"

definition body_len :: "nat \<Rightarrow> nat" where
  [wire_defs]: "body_len layers = peeled_len layers - DISPOSITION_LEN"

lemma body_len_Suc: "body_len (Suc n) = link_cell_len n"
  by (simp add: wire_defs)

lemma body_len_1: "body_len 1 = CELL_PLAINTEXT_LEN"
  by (simp add: wire_defs)

lemma body_len_ge: "1 \<le> layers \<Longrightarrow> CELL_PLAINTEXT_LEN \<le> body_len layers"
  by (cases layers) (simp_all add: wire_defs)

lemma link_cell_len_body: "1 \<le> layers \<Longrightarrow> link_cell_len layers = DISPOSITION_LEN + body_len layers + NOISE_TAG_LEN"
  by (cases layers) (simp_all add: wire_defs)

lemma link_cell_len_step: "1 \<le> layers \<Longrightarrow> link_cell_len layers = Suc (link_cell_len (layers - 1)) + NOISE_TAG_LEN"
  by (cases layers) (simp_all add: wire_defs)

section \<open>Cells\<close>

datatype CellType = Extend | Connect | Data | CloseRequest | CloseAck

fun cell_type_byte :: "CellType \<Rightarrow> byte" where
  "cell_type_byte Extend = 0x01"
| "cell_type_byte Connect = 0x03"
| "cell_type_byte Data = 0x04"
| "cell_type_byte CloseRequest = 0x05"
| "cell_type_byte CloseAck = 0x06"

datatype CellError =
    WrongSize nat
  | TooLarge nat
  | UnknownType byte
  | ReservedFlags
  | BadExtend string
  | BadConnect string
  | BadAddress

definition cell_type_try_from :: "byte \<Rightarrow> CellError + CellType" where
  "cell_type_try_from b =
     (if b = 0x01 then Inr Extend
      else if b = 0x03 then Inr Connect
      else if b = 0x04 then Inr Data
      else if b = 0x05 then Inr CloseRequest
      else if b = 0x06 then Inr CloseAck
      else Inl (UnknownType b))"

record Cell =
  cell_type :: CellType
  payload :: bytes

definition cell_new :: "CellType \<Rightarrow> bytes \<Rightarrow> CellError + Cell" where
  "cell_new t p =
     (if CELL_PAYLOAD_LEN < length p then Inl (TooLarge (length p))
      else Inr \<lparr>cell_type = t, payload = p\<rparr>)"

text \<open>
  \<open>encode_into\<close> writes into a buffer the caller owns, field by field, then zeroes what
  follows the payload.
\<close>

definition encode_into :: "Cell \<Rightarrow> bytes \<Rightarrow> CellError + bytes" where
  "encode_into c out =
     (if length out \<noteq> CELL_PLAINTEXT_LEN then Inl (WrongSize (length out))
      else let n = length (payload c) in
        if CELL_PAYLOAD_LEN < n then Inl (TooLarge n)
        else let
          out = out[0 := cell_type_byte (cell_type c)];
          out = out[1 := 0];
          out = copy_at 2 (to_be16 (word_of_nat n)) out;
          out = copy_at CELL_HEADER_LEN (payload c) out
        in Inr (zero_from (CELL_HEADER_LEN + n) out))"

definition encode :: "Cell \<Rightarrow> CellError + bytes" where
  "encode c = encode_into c (replicate CELL_PLAINTEXT_LEN 0)"

definition decode :: "bytes \<Rightarrow> CellError + Cell" where
  "decode bs =
     (if length bs \<noteq> CELL_PLAINTEXT_LEN then Inl (WrongSize (length bs))
      else and_then (cell_type_try_from (bs ! 0)) (\<lambda>t.
        if bs ! 1 \<noteq> 0 then Inl ReservedFlags
        else let n = unat (from_be16 (bs ! 2) (bs ! 3)) in
          if CELL_PAYLOAD_LEN < n then Inl (TooLarge n)
          else Inr \<lparr>cell_type = t, payload = slice CELL_HEADER_LEN (CELL_HEADER_LEN + n) bs\<rparr>))"

definition wf_cell :: "Cell \<Rightarrow> bool" where
  "wf_cell c \<longleftrightarrow> length (payload c) \<le> CELL_PAYLOAD_LEN"

text \<open>The bytes of a cell, as one expression.\<close>

definition cell_wire :: "Cell \<Rightarrow> bytes" where
  "cell_wire c = [cell_type_byte (cell_type c), 0] @ to_be16 (word_of_nat (length (payload c)))
     @ payload c @ replicate (CELL_PAYLOAD_LEN - length (payload c)) 0"

lemma cell_type_try_from_byte [simp]: "cell_type_try_from (cell_type_byte t) = Inr t"
  by (cases t) (simp_all add: cell_type_try_from_def)

lemma cell_type_try_from_Inr: "cell_type_try_from b = Inr t \<longleftrightarrow> b = cell_type_byte t"
  by (cases t) (auto simp: cell_type_try_from_def split: if_splits)

lemma cell_new_wf [result_simps]:
  "cell_new t p = Inr c \<longleftrightarrow> c = \<lparr>cell_type = t, payload = p\<rparr> \<and> wf_cell c"
  by (auto simp: cell_new_def wf_cell_def split: if_splits)

lemma length_cell_wire [simp]: "wf_cell c \<Longrightarrow> length (cell_wire c) = CELL_PLAINTEXT_LEN"
  by (simp add: cell_wire_def wf_cell_def wire_defs)

lemma split_header: "4 \<le> length xs \<Longrightarrow> \<exists>a b c d ys. xs = a # b # c # d # ys"
  by (auto simp: Suc_le_length_iff numeral_eq_Suc)

lemma encode_into_wf:
  assumes "wf_cell c" "length out = CELL_PLAINTEXT_LEN"
  shows "encode_into c out = Inr (cell_wire c)"
proof -
  from assms(2) obtain a b d e ys where out: "out = a # b # d # e # ys"
    using split_header [of out] by (auto simp: wire_defs)
  then have "length ys = 509" using assms(2) by (simp add: wire_defs)
  then show ?thesis
    using assms
    by (simp add: encode_into_def out wf_cell_def cell_wire_def copy_at_def zero_from_def wire_defs
        to_be16_def numeral_2_eq_2 Let_def)
qed

lemma encode_into_error:
  "length out \<noteq> CELL_PLAINTEXT_LEN \<Longrightarrow> encode_into c out = Inl (WrongSize (length out))"
  "length out = CELL_PLAINTEXT_LEN \<Longrightarrow> \<not> wf_cell c \<Longrightarrow> encode_into c out = Inl (TooLarge (length (payload c)))"
  by (simp_all add: encode_into_def wf_cell_def)

lemma encode_wf: "wf_cell c \<Longrightarrow> encode c = Inr (cell_wire c)"
  by (simp add: encode_def encode_into_wf)

lemma decode_cell_wire:
  assumes "wf_cell c" shows "decode (cell_wire c) = Inr c"
proof -
  have len: "length (payload c) < 65536" "length (payload c) \<le> 509"
    using assms by (simp_all add: wf_cell_def wire_defs)
  have "cell_wire c ! 0 = cell_type_byte (cell_type c)" "cell_wire c ! 1 = 0"
    and "from_be16 (cell_wire c ! 2) (cell_wire c ! 3) = word_of_nat (length (payload c))"
    by (simp_all add: cell_wire_def to_be16_def numeral_2_eq_2 numeral_3_eq_3)
  moreover have "slice 4 (4 + length (payload c)) (cell_wire c) = payload c"
    by (simp add: cell_wire_def to_be16_def slice_def)
  ultimately show ?thesis
    using assms len by (simp add: decode_def unat_u16_of_nat Let_def wire_defs)
qed

interpretation cell_codec: codec encode decode wf_cell
  by unfold_locales (auto simp: encode_wf decode_cell_wire)

text \<open>What \<open>decode\<close> accepts, and the class of each refusal.\<close>

lemma decode_Inr_iff:
  "decode bs = Inr c \<longleftrightarrow>
     length bs = CELL_PLAINTEXT_LEN \<and> bs ! 0 = cell_type_byte (cell_type c) \<and> bs ! 1 = 0 \<and>
     unat (from_be16 (bs ! 2) (bs ! 3)) \<le> CELL_PAYLOAD_LEN \<and>
     payload c = slice CELL_HEADER_LEN (CELL_HEADER_LEN + unat (from_be16 (bs ! 2) (bs ! 3))) bs"
  by (cases c) (auto simp: decode_def result_simps cell_type_try_from_Inr Let_def not_less)

lemma decode_wf: "decode bs = Inr c \<Longrightarrow> wf_cell c"
  by (auto simp: decode_Inr_iff wf_cell_def wire_defs)

text \<open>
  C24: The cell codec. Every cell with a payload that fits is encoded to exactly 513 bytes, which
  decode to the same cell; the encoding does not depend on what the output buffer held, and after
  the payload it is zeros, so a reused buffer leaks nothing. What \<open>decode\<close> accepts has a payload that
  fits and differs from the encoding of its result at most in the padding, which is not checked.
\<close>

theorem cell_codec_exact:
  "(wf_cell c \<and> length out = CELL_PLAINTEXT_LEN \<longrightarrow>
      (\<exists>wire. encode_into c out = Inr wire \<and> encode c = Inr wire \<and> length wire = 513 \<and> decode wire = Inr c
        \<and> drop (4 + length (payload c)) wire = replicate (509 - length (payload c)) 0))
   \<and> (decode bs = Inr d \<longrightarrow> wf_cell d \<and> (\<exists>wire. encode d = Inr wire
        \<and> take (4 + length (payload d)) bs = take (4 + length (payload d)) wire))"
proof (intro conjI impI)
  assume "wf_cell c \<and> length out = CELL_PLAINTEXT_LEN"
  then have c: "wf_cell c" "length out = CELL_PLAINTEXT_LEN" by auto
  have "drop (4 + length (payload c)) (cell_wire c) = replicate (509 - length (payload c)) 0"
  proof -
    have "drop (4 + length p) (h @ p @ z) = z" if "length h = 4" for h p z :: bytes using that by simp
    from this [of "[cell_type_byte (cell_type c), 0] @ to_be16 (word_of_nat (length (payload c)))" "payload c"]
    show ?thesis by (simp only: cell_wire_def append_assoc CELL_PAYLOAD_LEN_def) simp
  qed
  then show "\<exists>wire. encode_into c out = Inr wire \<and> encode c = Inr wire \<and> length wire = 513 \<and> decode wire = Inr c
        \<and> drop (4 + length (payload c)) wire = replicate (509 - length (payload c)) 0"
    using encode_into_wf [OF c] encode_wf [OF c(1)] decode_cell_wire [OF c(1)] length_cell_wire [OF c(1)]
    by (intro exI [of _ "cell_wire c"]) (simp add: wire_defs)
next
  assume d: "decode bs = Inr d"
  then show wf: "wf_cell d" by (rule decode_wf)
  obtain a b h l ys where bs: "bs = a # b # h # l # ys"
    using d split_header [of bs] by (auto simp: decode_Inr_iff wire_defs)
  have "a = cell_type_byte (cell_type d)" "b = 0" "payload d = take (unat (from_be16 h l)) ys" "unat (from_be16 h l) \<le> length ys"
    using d unfolding bs by (auto simp: decode_Inr_iff wire_defs slice_def)
  then have "take (4 + length (payload d)) bs = take (4 + length (payload d)) (cell_wire d)"
    unfolding bs by (simp add: cell_wire_def to_from_be16 eval_nat_numeral)
  then show "\<exists>wire. encode d = Inr wire \<and> take (4 + length (payload d)) bs = take (4 + length (payload d)) wire"
    using encode_wf [OF wf] by blast
qed

theorem cell_codec_exact_witness:
  "\<exists>wire. encode_into \<lparr>cell_type = Data, payload = [7, 8]\<rparr> (replicate 513 9) = Inr wire \<and> decode wire = Inr \<lparr>cell_type = Data, payload = [7, 8]\<rparr>"
  using conjunct1 [OF cell_codec_exact [of "\<lparr>cell_type = Data, payload = [7, 8]\<rparr>" "replicate 513 9"]]
  by (auto simp: wf_cell_def wire_defs)

section \<open>Addresses\<close>

text \<open>
  The parts of \<^verbatim>\<open>std::net\<close> the code uses. An address is its octets; a version 6 socket address
  also carries a flow label and a scope identifier, which \<^verbatim>\<open>SocketAddr::new\<close> sets to zero.
\<close>

datatype IpAddr = V4 bytes | V6 bytes

datatype SocketAddr = SockV4 bytes u16 | SockV6 bytes u16 u32 u32

fun wf_ip :: "IpAddr \<Rightarrow> bool" where
  "wf_ip (V4 o4) = (length o4 = 4)"
| "wf_ip (V6 o6) = (length o6 = 16)"

fun sock_ip :: "SocketAddr \<Rightarrow> IpAddr" where
  "sock_ip (SockV4 o4 p) = V4 o4"
| "sock_ip (SockV6 o6 p f s) = V6 o6"

fun sock_port :: "SocketAddr \<Rightarrow> u16" where
  "sock_port (SockV4 o4 p) = p"
| "sock_port (SockV6 o6 p f s) = p"

fun sock_new :: "IpAddr \<Rightarrow> u16 \<Rightarrow> SocketAddr" where
  "sock_new (V4 o4) p = SockV4 o4 p"
| "sock_new (V6 o6) p = SockV6 o6 p 0 0"

definition mapped_prefix :: bytes where
  "mapped_prefix = replicate 10 0 @ [0xFF, 0xFF]"

definition to_ipv6_mapped :: "bytes \<Rightarrow> bytes" where
  "to_ipv6_mapped o4 = mapped_prefix @ o4"

definition to_ipv4_mapped :: "bytes \<Rightarrow> bytes option" where
  "to_ipv4_mapped o6 = (if take 12 o6 = mapped_prefix then Some (drop 12 o6) else None)"

fun to_canonical :: "IpAddr \<Rightarrow> IpAddr" where
  "to_canonical (V4 o4) = V4 o4"
| "to_canonical (V6 o6) = (case to_ipv4_mapped o6 of Some o4 \<Rightarrow> V4 o4 | None \<Rightarrow> V6 o6)"

lemma length_mapped_prefix [simp]: "length mapped_prefix = 12"
  by (simp add: mapped_prefix_def)

lemma to_ipv4_mapped_mapped [simp]: "to_ipv4_mapped (to_ipv6_mapped o4) = Some o4"
  by (simp add: to_ipv4_mapped_def to_ipv6_mapped_def)

lemma to_ipv4_mapped_Some: "to_ipv4_mapped o6 = Some o4 \<longleftrightarrow> o6 = to_ipv6_mapped o4"
  by (auto simp: to_ipv4_mapped_def to_ipv6_mapped_def split: if_splits) (metis append_take_drop_id)

lemma wf_to_canonical [simp]: "wf_ip a \<Longrightarrow> wf_ip (to_canonical a)"
  by (cases a) (auto simp: to_ipv4_mapped_Some to_ipv6_mapped_def split: option.split)

lemma to_canonical_idem [simp]: "to_canonical (to_canonical a) = to_canonical a"
  by (cases a) (auto split: option.split)

lemma sock_ip_new [simp]: "sock_ip (sock_new a p) = a" and sock_port_new [simp]: "sock_port (sock_new a p) = p"
  by (cases a; simp)+

section \<open>The EXTEND payload\<close>

definition EXTEND_ADDR_LEN :: nat where [wire_defs]: "EXTEND_ADDR_LEN = 16"
definition EXTEND_FORWARD_LEN :: nat where
  [wire_defs]: "EXTEND_FORWARD_LEN = EXTEND_ADDR_LEN + 2 + NOISE_MSG_LEN"

record ExtendForward =
  next_hop :: SocketAddr
  noise_msg1 :: bytes

definition extend_encode :: "ExtendForward \<Rightarrow> bytes" where
  "extend_encode f =
     (case sock_ip (next_hop f) of V4 v4 \<Rightarrow> to_ipv6_mapped v4 | V6 v6 \<Rightarrow> v6)
     @ to_be16 (sock_port (next_hop f)) @ noise_msg1 f"

definition extend_decode :: "bytes \<Rightarrow> CellError + ExtendForward" where
  "extend_decode bs =
     (if length bs \<noteq> EXTEND_FORWARD_LEN then Inl (BadExtend ''payload is not the fixed EXTEND length'')
      else let
        v6 = take EXTEND_ADDR_LEN bs;
        ip = (case to_ipv4_mapped v6 of Some v4 \<Rightarrow> V4 v4 | None \<Rightarrow> V6 v6);
        port = from_be16 (bs ! EXTEND_ADDR_LEN) (bs ! (EXTEND_ADDR_LEN + 1))
      in Inr \<lparr>next_hop = sock_new ip port, noise_msg1 = drop (EXTEND_ADDR_LEN + 2) bs\<rparr>)"

text \<open>
  The values the wire form distinguishes: a canonical address (a mapped one decodes to its
  version 4 spelling) with no flow label and no scope, and one Noise message.
\<close>

definition wf_extend :: "ExtendForward \<Rightarrow> bool" where
  "wf_extend f \<longleftrightarrow> wf_ip (sock_ip (next_hop f)) \<and> to_canonical (sock_ip (next_hop f)) = sock_ip (next_hop f)
     \<and> next_hop f = sock_new (sock_ip (next_hop f)) (sock_port (next_hop f))
     \<and> length (noise_msg1 f) = NOISE_MSG_LEN"

definition extend_backward_payload :: "bytes \<Rightarrow> bytes" where
  "extend_backward_payload msg2 = msg2"

definition parse_extend_backward :: "bytes \<Rightarrow> CellError + bytes" where
  "parse_extend_backward bs =
     (if length bs \<noteq> NOISE_MSG_LEN then Inl (BadExtend ''backward payload is not one Noise message'')
      else Inr bs)"

lemma length_extend_encode: "wf_ip (sock_ip (next_hop f)) \<Longrightarrow> length (noise_msg1 f) = NOISE_MSG_LEN
    \<Longrightarrow> length (extend_encode f) = EXTEND_FORWARD_LEN"
  by (cases "sock_ip (next_hop f)") (auto simp: extend_encode_def to_ipv6_mapped_def wire_defs)

lemma extend_decode_append:
  assumes "length v6 = 16" "length msg = NOISE_MSG_LEN"
  shows "extend_decode (v6 @ to_be16 port @ msg) =
    Inr \<lparr>next_hop = sock_new (to_canonical (V6 v6)) port, noise_msg1 = msg\<rparr>"
  using assms by (simp add: extend_decode_def wire_defs nth_append to_be16_def Let_def)

lemma extend_decode_encode:
  assumes "wf_extend f" shows "extend_decode (extend_encode f) = Inr f"
proof -
  define v6 where "v6 = (case sock_ip (next_hop f) of V4 v4 \<Rightarrow> to_ipv6_mapped v4 | V6 v6 \<Rightarrow> v6)"
  have "length v6 = 16" "to_canonical (V6 v6) = sock_ip (next_hop f)"
    using assms by (cases "sock_ip (next_hop f)"; simp add: v6_def wf_extend_def to_ipv6_mapped_def
        to_ipv4_mapped_def; fail)+
  then show ?thesis
    using assms extend_decode_append [of v6 "noise_msg1 f"]
    by (simp add: extend_encode_def v6_def [symmetric] wf_extend_def)
qed

lemma extend_encode_decode:
  assumes "extend_decode bs = Inr f" shows "wf_extend f \<and> extend_encode f = bs"
proof -
  have len: "length bs = 66" using assms by (auto simp: extend_decode_def wire_defs split: if_splits)
  define v6 where "v6 = take 16 bs"
  have v6: "length v6 = 16" using len by (simp add: v6_def)
  have bs: "bs = v6 @ to_be16 (from_be16 (bs ! 16) (bs ! 17)) @ drop 18 bs"
    using len unfolding v6_def to_from_be16
    by (simp add: Cons_nth_drop_Suc numeral_eq_Suc flip: drop_Suc)
  have f: "f = \<lparr>next_hop = sock_new (to_canonical (V6 v6)) (from_be16 (bs ! 16) (bs ! 17)),
      noise_msg1 = drop 18 bs\<rparr>"
    using assms by (simp add: extend_decode_def v6_def wire_defs Let_def split: if_splits)
  have "(case to_canonical (V6 v6) of V4 v4 \<Rightarrow> to_ipv6_mapped v4 | V6 v6 \<Rightarrow> v6) = v6"
    by (auto simp: to_ipv4_mapped_Some split: option.split)
  then show ?thesis
    using v6 len bs wf_to_canonical [of "V6 v6"] to_canonical_idem [of "V6 v6"]
    by (simp add: f wf_extend_def extend_encode_def wire_defs)
qed

interpretation extend_codec: strict_codec "\<lambda>f. Inr (extend_encode f)" extend_decode wf_extend
  by unfold_locales (auto simp: extend_decode_encode dest: extend_encode_decode)

interpretation extend_backward_codec:
  strict_codec "\<lambda>m. Inr (extend_backward_payload m)" parse_extend_backward "\<lambda>m. length m = NOISE_MSG_LEN"
  by unfold_locales (auto simp: extend_backward_payload_def parse_extend_backward_def split: if_splits)

section \<open>The CONNECT payload\<close>

record ConnectPayload =
  connect_host :: string
  connect_port :: u16

definition MAX_CONNECT_HOST_LEN :: nat where
  [wire_defs]: "MAX_CONNECT_HOST_LEN = CELL_PAYLOAD_LEN - 4"

definition connect_encode :: "ConnectPayload \<Rightarrow> CellError + bytes" where
  "connect_encode c =
     (let host_bytes = as_bytes (connect_host c) in
      if MAX_CONNECT_HOST_LEN < length host_bytes then Inl (BadConnect ''host does not fit one cell'')
      else Inr (to_be16 (word_of_nat (length host_bytes)) @ host_bytes @ to_be16 (connect_port c)))"

definition connect_decode :: "bytes \<Rightarrow> CellError + ConnectPayload" where
  "connect_decode bs =
     (if length bs < 4 then Inl (BadConnect ''payload shorter than length prefix and port'')
      else let host_len = unat (from_be16 (bs ! 0) (bs ! 1)) in
        if length bs \<noteq> 2 + host_len + 2
        then Inl (BadConnect ''payload length does not match host_len and port'')
        else and_then (ok_or BadAddress (from_utf8 (slice 2 (2 + host_len) bs))) (\<lambda>host.
          Inr \<lparr>connect_host = host,
               connect_port = from_be16 (bs ! (2 + host_len)) (bs ! (2 + host_len + 1))\<rparr>))"

definition wf_connect :: "ConnectPayload \<Rightarrow> bool" where
  "wf_connect c \<longleftrightarrow> is_str (connect_host c) \<and> length (connect_host c) \<le> MAX_CONNECT_HOST_LEN"

lemma connect_decode_parts:
  assumes "length host < 65536"
  shows "connect_decode (to_be16 (word_of_nat (length host)) @ host @ to_be16 port) =
    (case from_utf8 host of None \<Rightarrow> Inl BadAddress
     | Some h \<Rightarrow> Inr \<lparr>connect_host = h, connect_port = port\<rparr>)"
  using assms
  by (simp add: connect_decode_def to_be16_def unat_u16_of_nat nth_append numeral_2_eq_2
      slice_def Let_def split: option.split)

lemma connect_decode_encode:
  assumes "wf_connect c" "connect_encode c = Inr b" shows "connect_decode b = Inr c"
  using assms connect_decode_parts [of "as_bytes (connect_host c)" "connect_port c"]
  by (auto simp: connect_encode_def wf_connect_def wire_defs Let_def)

lemma connect_bytes_split:
  assumes "length bs = 2 + n + 2" "n = unat (from_be16 (bs ! 0) (bs ! 1))"
  shows "bs = to_be16 (word_of_nat n) @ slice 2 (2 + n) bs @ to_be16 (from_be16 (bs ! (2 + n)) (bs ! (2 + n + 1)))"
proof -
  obtain a b c d where ab: "take 2 bs = [a, b]" "drop (2 + n) bs = [c, d]"
  proof -
    have "length (take 2 bs) = 2" "length (drop (2 + n) bs) = 2" using assms(1) by simp_all
    then show ?thesis using that by (blast dest: length_2_split)
  qed
  have "bs = take 2 bs @ take n (drop 2 bs) @ drop (2 + n) bs"
    by (metis append_take_drop_id drop_drop add.commute)
  then have bs: "bs = [a, b] @ slice 2 (2 + n) bs @ [c, d]"
    by (simp only: ab slice_def add_diff_cancel_left')
  have len: "length (slice 2 (2 + n) bs) = n" using assms(1) by simp
  have "bs ! 0 = a" "bs ! 1 = b"
    by (subst bs; simp; fail)+
  moreover have "bs ! (2 + n) = c" "bs ! (2 + n + 1) = d"
    using arg_cong [OF ab(2), of "\<lambda>l. l ! 0"] arg_cong [OF ab(2), of "\<lambda>l. l ! 1"] assms(1) by simp_all
  ultimately have idx: "bs ! 0 = a" "bs ! 1 = b" "bs ! (2 + n) = c" "bs ! (2 + n + 1) = d"
    by simp_all
  have "to_be16 (word_of_nat n) = [a, b]" using assms(2) idx by simp
  then show ?thesis using bs idx by simp
qed

lemma connect_encode_decode:
  assumes "connect_decode bs = Inr c" "length bs \<le> CELL_PAYLOAD_LEN"
  shows "wf_connect c \<and> connect_encode c = Inr bs"
proof -
  define n where "n = unat (from_be16 (bs ! 0) (bs ! 1))"
  have len: "length bs = 2 + n + 2" and host: "from_utf8 (slice 2 (2 + n) bs) = Some (connect_host c)"
    and port: "connect_port c = from_be16 (bs ! (2 + n)) (bs ! (2 + n + 1))"
    using assms(1) by (auto simp: connect_decode_def n_def result_simps Let_def split: if_splits)
  from host have h: "is_str (connect_host c)" "slice 2 (2 + n) bs = as_bytes (connect_host c)"
    by (auto simp: from_utf8_Some)
  then have hl: "length (connect_host c) = n"
    using length_slice [of "2 + n" bs 2] len by simp
  then show ?thesis
    using connect_bytes_split [OF len n_def] h port assms(2) len
    by (simp add: wf_connect_def connect_encode_def wire_defs)
qed

interpretation connect_codec: codec connect_encode connect_decode wf_connect
proof unfold_locales
  show "wf_connect x \<Longrightarrow> \<exists>b. connect_encode x = Inr b" for x
    by (simp add: wf_connect_def connect_encode_def Let_def)
qed (rule connect_decode_encode)

lemma length_connect_encode: "connect_encode c = Inr b \<Longrightarrow> length b = length (connect_host c) + 4 \<and> length b \<le> CELL_PAYLOAD_LEN"
  by (auto simp: connect_encode_def wire_defs Let_def split: if_splits)

end
