(* ===== verification/Noise.thy ===== *)
theory Noise
  imports Cells
begin

text \<open>
  Per-hop Noise sessions (\<^verbatim>\<open>quiethop-crypto/src/noise.rs\<close>). The \<^verbatim>\<open>snow\<close> crate is not part
  of the repository: its transport and handshake objects are type parameters and its calls
  are the fields of two records, which every definition that reaches \<^verbatim>\<open>snow\<close> takes as an
  argument. A call returns \<open>None\<close> for \<^verbatim>\<open>Err\<close>; a seed stands for the randomness a call draws.
  What the code relies on is stated as \<open>transport_laws\<close> and \<open>handshake_laws\<close>.
\<close>

section \<open>The crate interface\<close>

record 't transport_ops =
  tr_write :: "'t \<Rightarrow> bytes \<Rightarrow> nat \<Rightarrow> bytes option \<times> 't"
  tr_read :: "'t \<Rightarrow> bytes \<Rightarrow> nat \<Rightarrow> bytes option \<times> 't"

record ('b, 'h, 't) snow = "'t transport_ops" +
  sn_builder :: "string \<Rightarrow> 'b option"
  sn_prologue :: "'b \<Rightarrow> bytes \<Rightarrow> 'b option"
  sn_remote_public_key :: "'b \<Rightarrow> bytes \<Rightarrow> 'b option"
  sn_local_private_key :: "'b \<Rightarrow> bytes \<Rightarrow> 'b option"
  sn_build_initiator :: "'b \<Rightarrow> 'h option"
  sn_build_responder :: "'b \<Rightarrow> 'h option"
  sn_generate_keypair :: "'b \<Rightarrow> nat \<Rightarrow> (bytes \<times> bytes) option"
  hs_write :: "'h \<Rightarrow> nat \<Rightarrow> bytes \<Rightarrow> nat \<Rightarrow> (bytes \<times> 'h) option"
  hs_read :: "'h \<Rightarrow> bytes \<Rightarrow> nat \<Rightarrow> (bytes \<times> 'h) option"
  hs_into_transport :: "'h \<Rightarrow> 't option"

definition NOISE_PARAMS :: string where
  "NOISE_PARAMS = ''Noise_NK_25519_ChaChaPoly_SHA256''"

definition NOISE_PROLOGUE :: bytes where
  "NOISE_PROLOGUE = as_bytes ''quiethop/v1/nk''"

datatype NoiseError =
    NoiseHandshake
  | NoiseTransport
  | NoiseKeyLength
  | NoiseLength nat nat

section \<open>Transport sessions\<close>

text \<open>
  \<open>out_len\<close> is the length of the caller's output buffer; on success the whole buffer has been
  overwritten, so its new contents are the result.
\<close>

definition transport_encrypt ::
    "('t, 'm) transport_ops_scheme \<Rightarrow> 't \<Rightarrow> bytes \<Rightarrow> nat \<Rightarrow> (NoiseError + bytes) \<times> 't" where
  "transport_encrypt S tx plaintext out_len =
     (let want = length plaintext + NOISE_TAG_LEN in
      if out_len \<noteq> want then (Inl (NoiseLength out_len want), tx)
      else case tr_write S tx plaintext out_len of
        (None, tx') \<Rightarrow> (Inl NoiseTransport, tx')
      | (Some c, tx') \<Rightarrow>
          if length c \<noteq> want then (Inl (NoiseLength (length c) want), tx') else (Inr c, tx'))"

definition transport_decrypt ::
    "('t, 'm) transport_ops_scheme \<Rightarrow> 't \<Rightarrow> bytes \<Rightarrow> nat \<Rightarrow> (NoiseError + bytes) \<times> 't" where
  "transport_decrypt S tx ciphertext out_len =
     (if length ciphertext < NOISE_TAG_LEN then (Inl (NoiseLength (length ciphertext) NOISE_TAG_LEN), tx)
      else let want = length ciphertext - NOISE_TAG_LEN in
        if out_len \<noteq> want then (Inl (NoiseLength out_len want), tx)
        else case tr_read S tx ciphertext out_len of
          (None, tx') \<Rightarrow> (Inl NoiseTransport, tx')
        | (Some p, tx') \<Rightarrow>
            if length p \<noteq> want then (Inl (NoiseLength (length p) want), tx') else (Inr p, tx'))"

text \<open>
  Documented behaviour of an established pair of \<^verbatim>\<open>snow\<close> transports. \<open>link i j a b\<close>: \<open>a\<close> and
  \<open>b\<close> hold the two ends of one session, in step, with at least \<open>i\<close> messages left from \<open>a\<close> to
  \<open>b\<close> and \<open>j\<close> from \<open>b\<close> to \<open>a\<close> before the 64-bit counter runs out. A message within the Noise
  limit of 65535 bytes is then written with a 16-byte tag and the other end reads it back.
\<close>

definition transport_laws ::
    "('t, 'm) transport_ops_scheme \<Rightarrow> (nat \<Rightarrow> nat \<Rightarrow> 't \<Rightarrow> 't \<Rightarrow> bool) \<Rightarrow> bool" where
  "transport_laws S link \<longleftrightarrow>
     (\<forall>i j a b. link i j a b \<longrightarrow> link j i b a) \<and>
     (\<forall>i j a b p. link (Suc i) j a b \<longrightarrow> length p + NOISE_TAG_LEN \<le> 65535 \<longrightarrow>
        (\<exists>c a' b'. tr_write S a p (length p + NOISE_TAG_LEN) = (Some c, a')
           \<and> length c = length p + NOISE_TAG_LEN
           \<and> tr_read S b c (length p) = (Some p, b') \<and> link i j a' b'))"

text \<open>The counter of a session advances only on a successful read.\<close>

definition read_failure_keeps :: "('t, 'm) transport_ops_scheme \<Rightarrow> bool" where
  "read_failure_keeps S \<longleftrightarrow> (\<forall>a c n a'. tr_read S a c n = (None, a') \<longrightarrow> a' = a)"

lemma transport_laws_sym: "transport_laws S link \<Longrightarrow> link i j a b \<Longrightarrow> link j i b a"
  by (simp add: transport_laws_def)

lemma transport_laws_write:
  assumes "transport_laws S link" "link (Suc i) j a b" "length p + NOISE_TAG_LEN \<le> 65535"
  obtains c a' b' where "tr_write S a p (length p + NOISE_TAG_LEN) = (Some c, a')"
    "length c = length p + NOISE_TAG_LEN" "tr_read S b c (length p) = (Some p, b')" "link i j a' b'"
  using assms unfolding transport_laws_def by blast

lemma encrypt_decrypt:
  assumes "transport_laws S link" "link (Suc i) j a b" "length p + NOISE_TAG_LEN \<le> 65535"
  obtains c a' b' where "transport_encrypt S a p (length p + NOISE_TAG_LEN) = (Inr c, a')"
    "length c = length p + NOISE_TAG_LEN" "transport_decrypt S b c (length p) = (Inr p, b')" "link i j a' b'"
proof -
  obtain c a' b' where "tr_write S a p (length p + NOISE_TAG_LEN) = (Some c, a')"
    "length c = length p + NOISE_TAG_LEN" "tr_read S b c (length p) = (Some p, b')" "link i j a' b'"
    using assms by (rule transport_laws_write)
  then show thesis
    by (intro that [of c a' b']) (simp_all add: transport_encrypt_def transport_decrypt_def)
qed

lemma transport_encrypt_length [dest]:
  "transport_encrypt S tx p n = (Inr c, tx') \<Longrightarrow> length c = n \<and> n = length p + NOISE_TAG_LEN"
  by (auto simp: transport_encrypt_def Let_def split: if_splits prod.splits option.splits)

lemma transport_decrypt_length [dest]:
  "transport_decrypt S tx c n = (Inr p, tx') \<Longrightarrow> length p = n \<and> length c = n + NOISE_TAG_LEN"
  by (auto simp: transport_decrypt_def Let_def split: if_splits prod.splits option.splits)

lemma transport_decrypt_fail_keeps:
  assumes "read_failure_keeps S" "transport_decrypt S tx c n = (Inl NoiseTransport, tx')"
  shows "tx' = tx"
  using assms by (auto simp: transport_decrypt_def read_failure_keeps_def Let_def
      split: if_splits prod.splits option.splits)

section \<open>Handshakes and keys\<close>

definition noise_params :: "('b, 'h, 't) snow \<Rightarrow> NoiseError + 'b" where
  "noise_params S = ok_or NoiseHandshake (sn_builder S NOISE_PARAMS)"

definition initiator_start :: "('b, 'h, 't) snow \<Rightarrow> nat \<Rightarrow> bytes \<Rightarrow> NoiseError + 'h \<times> bytes" where
  "initiator_start S seed remote_static =
     and_then (noise_params S) (\<lambda>b.
     and_then (ok_or NoiseHandshake (sn_prologue S b NOISE_PROLOGUE)) (\<lambda>b.
     and_then (ok_or NoiseKeyLength (sn_remote_public_key S b remote_static)) (\<lambda>b.
     and_then (ok_or NoiseHandshake (sn_build_initiator S b)) (\<lambda>h.
     and_then (ok_or NoiseHandshake (hs_write S h seed [] NOISE_MSG_LEN)) (\<lambda>(msg1, h).
       if length msg1 \<noteq> NOISE_MSG_LEN then Inl (NoiseLength (length msg1) NOISE_MSG_LEN)
       else Inr (h, msg1))))))"

definition initiator_finish :: "('b, 'h, 't) snow \<Rightarrow> 'h \<Rightarrow> bytes \<Rightarrow> NoiseError + 't" where
  "initiator_finish S h msg2 =
     and_then (ok_or NoiseHandshake (hs_read S h msg2 NOISE_MSG_LEN)) (\<lambda>(_, h).
       ok_or NoiseHandshake (hs_into_transport S h))"

definition respond :: "('b, 'h, 't) snow \<Rightarrow> nat \<Rightarrow> bytes \<Rightarrow> bytes \<Rightarrow> NoiseError + 't \<times> bytes" where
  "respond S seed static_private msg1 =
     and_then (noise_params S) (\<lambda>b.
     and_then (ok_or NoiseHandshake (sn_prologue S b NOISE_PROLOGUE)) (\<lambda>b.
     and_then (ok_or NoiseKeyLength (sn_local_private_key S b static_private)) (\<lambda>b.
     and_then (ok_or NoiseHandshake (sn_build_responder S b)) (\<lambda>h.
     and_then (ok_or NoiseHandshake (hs_read S h msg1 NOISE_MSG_LEN)) (\<lambda>(_, h).
     and_then (ok_or NoiseHandshake (hs_write S h seed [] NOISE_MSG_LEN)) (\<lambda>(msg2, h).
       if length msg2 \<noteq> NOISE_MSG_LEN then Inl (NoiseLength (length msg2) NOISE_MSG_LEN)
       else and_then (ok_or NoiseHandshake (hs_into_transport S h)) (\<lambda>t. Inr (t, msg2))))))))"

record StaticKeypair =
  kp_public :: bytes
  kp_private :: bytes

definition from_parts :: "('b, 'h, 't) snow \<Rightarrow> nat \<Rightarrow> nat \<Rightarrow> bytes \<Rightarrow> bytes \<Rightarrow> NoiseError + StaticKeypair" where
  "from_parts S seed1 seed2 private public =
     and_then (initiator_start S seed1 public) (\<lambda>(init, msg1).
     and_then (respond S seed2 private msg1) (\<lambda>(_, msg2).
     and_then (initiator_finish S init msg2) (\<lambda>_.
       Inr \<lparr>kp_public = public, kp_private = private\<rparr>)))"

definition generate_static_keypair :: "('b, 'h, 't) snow \<Rightarrow> nat \<Rightarrow> NoiseError + StaticKeypair" where
  "generate_static_keypair S seed =
     and_then (noise_params S) (\<lambda>b.
     and_then (ok_or NoiseHandshake (sn_generate_keypair S b seed)) (\<lambda>(private, public).
       if length private \<noteq> STATIC_KEY_LEN then Inl NoiseKeyLength
       else if length public \<noteq> STATIC_KEY_LEN then Inl NoiseKeyLength
       else Inr \<lparr>kp_public = public, kp_private = private\<rparr>))"

text \<open>\<^verbatim>\<open>StaticKeypair\<close>'s destructor overwrites the private half.\<close>

definition keypair_drop :: "StaticKeypair \<Rightarrow> StaticKeypair" where
  "keypair_drop kp = kp\<lparr>kp_private := replicate (length (kp_private kp)) 0\<rparr>"

text \<open>
  Documented behaviour of an NK handshake between an initiator that names a public key and a
  responder that holds the matching private key: with any seeds it completes, each message
  is 48 bytes, and the two transports form a link. \<open>matches priv pub\<close> is "these are the two
  halves of one key pair".
\<close>

definition handshake_laws ::
    "('b, 'h, 't) snow \<Rightarrow> (bytes \<Rightarrow> bytes \<Rightarrow> bool) \<Rightarrow> (nat \<Rightarrow> nat \<Rightarrow> 't \<Rightarrow> 't \<Rightarrow> bool) \<Rightarrow> bool" where
  "handshake_laws S matches link \<longleftrightarrow>
     (\<forall>seed1 seed2 priv pub. matches priv pub \<longrightarrow>
       (\<exists>b b1 bi hi msg1 hi1 br hr x hr1 msg2 hr2 t' y hi2 t.
          sn_builder S NOISE_PARAMS = Some b \<and> sn_prologue S b NOISE_PROLOGUE = Some b1
          \<and> sn_remote_public_key S b1 pub = Some bi \<and> sn_build_initiator S bi = Some hi
          \<and> hs_write S hi seed1 [] NOISE_MSG_LEN = Some (msg1, hi1) \<and> length msg1 = NOISE_MSG_LEN
          \<and> sn_local_private_key S b1 priv = Some br \<and> sn_build_responder S br = Some hr
          \<and> hs_read S hr msg1 NOISE_MSG_LEN = Some (x, hr1)
          \<and> hs_write S hr1 seed2 [] NOISE_MSG_LEN = Some (msg2, hr2) \<and> length msg2 = NOISE_MSG_LEN
          \<and> hs_into_transport S hr2 = Some t'
          \<and> hs_read S hi1 msg2 NOISE_MSG_LEN = Some (y, hi2) \<and> hs_into_transport S hi2 = Some t
          \<and> (\<forall>i j. i \<le> 2 ^ 63 \<longrightarrow> j \<le> 2 ^ 63 \<longrightarrow> link i j t t')))"

lemma handshake_completes:
  assumes "handshake_laws S matches link" "matches priv pub"
  obtains h msg1 t' msg2 t where "initiator_start S seed1 pub = Inr (h, msg1)"
    "respond S seed2 priv msg1 = Inr (t', msg2)" "initiator_finish S h msg2 = Inr t"
    "\<And>i j. i \<le> 2 ^ 63 \<Longrightarrow> j \<le> 2 ^ 63 \<Longrightarrow> link i j t t'"
proof -
  from assms(1) [unfolded handshake_laws_def, rule_format, OF assms(2), of seed1 seed2]
  obtain b b1 bi hi msg1 hi1 br hr x hr1 msg2 hr2 t' y hi2 t where
    "sn_builder S NOISE_PARAMS = Some b" "sn_prologue S b NOISE_PROLOGUE = Some b1"
    "sn_remote_public_key S b1 pub = Some bi" "sn_build_initiator S bi = Some hi"
    "hs_write S hi seed1 [] NOISE_MSG_LEN = Some (msg1, hi1)" "length msg1 = NOISE_MSG_LEN"
    "sn_local_private_key S b1 priv = Some br" "sn_build_responder S br = Some hr"
    "hs_read S hr msg1 NOISE_MSG_LEN = Some (x, hr1)"
    "hs_write S hr1 seed2 [] NOISE_MSG_LEN = Some (msg2, hr2)" "length msg2 = NOISE_MSG_LEN"
    "hs_into_transport S hr2 = Some t'"
    "hs_read S hi1 msg2 NOISE_MSG_LEN = Some (y, hi2)" "hs_into_transport S hi2 = Some t"
    "\<forall>i j. i \<le> 2 ^ 63 \<longrightarrow> j \<le> 2 ^ 63 \<longrightarrow> link i j t t'"
    by blast
  then show thesis
    by (intro that [of hi1 msg1 t' msg2 t])
      (simp_all add: initiator_start_def respond_def initiator_finish_def noise_params_def)
qed

lemma initiator_start_length: "initiator_start S seed k = Inr (h, msg1) \<Longrightarrow> length msg1 = NOISE_MSG_LEN"
  by (auto simp: initiator_start_def result_simps split: prod.splits if_splits)

lemma respond_length: "respond S seed k msg1 = Inr (t, msg2) \<Longrightarrow> length msg2 = NOISE_MSG_LEN"
  by (auto simp: respond_def result_simps split: prod.splits if_splits)

section \<open>A concrete instance\<close>

text \<open>
  The laws can hold: a session that appends a constant tag, counts its messages and refuses a
  ciphertext without the tag, with handshake messages of 48 zero bytes.
\<close>

definition plain_write :: "nat \<times> nat \<Rightarrow> bytes \<Rightarrow> nat \<Rightarrow> bytes option \<times> nat \<times> nat" where
  "plain_write t p n = (if n < length p + 16 then (None, t) else (Some (p @ replicate 16 0), (Suc (fst t), snd t)))"

definition plain_read :: "nat \<times> nat \<Rightarrow> bytes \<Rightarrow> nat \<Rightarrow> bytes option \<times> nat \<times> nat" where
  "plain_read t c n =
     (if length c < 16 \<or> drop (length c - 16) c \<noteq> replicate 16 0 then (None, t)
      else (Some (take (length c - 16) c), (fst t, Suc (snd t))))"

definition plain_snow :: "(unit, nat, nat \<times> nat) snow" where
  "plain_snow = \<lparr>tr_write = plain_write, tr_read = plain_read,
     sn_builder = \<lambda>_. Some (), sn_prologue = \<lambda>_ _. Some (), sn_remote_public_key = \<lambda>_ _. Some (),
     sn_local_private_key = \<lambda>_ _. Some (), sn_build_initiator = \<lambda>_. Some 0, sn_build_responder = \<lambda>_. Some 0,
     sn_generate_keypair = \<lambda>_ seed. Some (replicate 32 1, replicate 32 2),
     hs_write = \<lambda>h _ _ _. Some (replicate 48 0, h), hs_read = \<lambda>h _ _. Some ([], h),
     hs_into_transport = \<lambda>_. Some (0, 0)\<rparr>"

definition plain_link :: "nat \<Rightarrow> nat \<Rightarrow> nat \<times> nat \<Rightarrow> nat \<times> nat \<Rightarrow> bool" where
  "plain_link i j a b \<longleftrightarrow> fst a = snd b \<and> fst b = snd a"

lemma plain_transport_laws: "transport_laws plain_snow plain_link"
  by (auto simp: transport_laws_def plain_snow_def plain_link_def plain_write_def plain_read_def wire_defs)

lemma plain_read_failure_keeps: "read_failure_keeps plain_snow"
  by (auto simp: read_failure_keeps_def plain_snow_def plain_read_def split: if_splits)

lemma plain_handshake_laws: "handshake_laws plain_snow (\<lambda>_ _. True) plain_link"
  by (simp add: handshake_laws_def plain_snow_def plain_link_def wire_defs)

lemma plain_respond: "respond plain_snow seed priv msg1 = Inr ((0, 0), replicate 48 0)"
  by (simp add: respond_def noise_params_def plain_snow_def NOISE_MSG_LEN_def)

end
