(* ===== verification/Layers.thy ===== *)
theory Layers
  imports Noise
begin

text \<open>
  One AEAD layer per hop (\<^verbatim>\<open>quiethop-crypto/src/layer.rs\<close>): sealing a cell for a hop, wrapping
  a blob for forwarding, and peeling one layer. Every call site passes a layer count of 1, 2
  or 3; the lemmas ask for \<open>1 \<le> layers\<close>.
\<close>

section \<open>Sealing and peeling\<close>

datatype LayerError =
    LayerNoise NoiseError
  | LayerCell CellError
  | UnknownDisposition byte
  | DirtyPadding
  | LayerWrongSize nat nat
  | ForwardAtInnermost

datatype Peeled = ToMe Cell | Forward bytes

definition seal_to_me ::
    "('t, 'm) transport_ops_scheme \<Rightarrow> 't \<Rightarrow> Cell \<Rightarrow> nat \<Rightarrow> (LayerError + bytes) \<times> 't" where
  "seal_to_me S tx cell layers =
     (let body = body_len layers;
          plain = (replicate (DISPOSITION_LEN + body) 0)[0 := DISPOSITION_TO_ME]
      in case encode_into cell (slice DISPOSITION_LEN (DISPOSITION_LEN + CELL_PLAINTEXT_LEN) plain) of
           Inl e \<Rightarrow> (Inl (LayerCell e), tx)
         | Inr enc \<Rightarrow>
             let plain = copy_at DISPOSITION_LEN enc plain in
             case transport_encrypt S tx plain (length plain + NOISE_TAG_LEN) of
               (Inl e, tx') \<Rightarrow> (Inl (LayerNoise e), tx')
             | (Inr out, tx') \<Rightarrow> (Inr out, tx'))"

definition seal_forward ::
    "('t, 'm) transport_ops_scheme \<Rightarrow> 't \<Rightarrow> bytes \<Rightarrow> nat \<Rightarrow> (LayerError + bytes) \<times> 't" where
  "seal_forward S tx blob layers =
     (let want = link_cell_len (layers - 1) in
      if length blob \<noteq> want then (Inl (LayerWrongSize (length blob) want), tx)
      else let
        plain = (replicate (DISPOSITION_LEN + length blob) 0)[0 := DISPOSITION_FORWARD];
        plain = copy_at DISPOSITION_LEN blob plain
      in case transport_encrypt S tx plain (length plain + NOISE_TAG_LEN) of
           (Inl e, tx') \<Rightarrow> (Inl (LayerNoise e), tx')
         | (Inr out, tx') \<Rightarrow> (Inr out, tx'))"

definition peel ::
    "('t, 'm) transport_ops_scheme \<Rightarrow> 't \<Rightarrow> bytes \<Rightarrow> nat \<Rightarrow> (LayerError + Peeled) \<times> 't" where
  "peel S tx wire layers =
     (let want = link_cell_len layers in
      if length wire \<noteq> want then (Inl (LayerWrongSize (length wire) want), tx)
      else case transport_decrypt S tx wire (DISPOSITION_LEN + body_len layers) of
        (Inl e, tx') \<Rightarrow> (Inl (LayerNoise e), tx')
      | (Inr plain, tx') \<Rightarrow>
          (if plain ! 0 = DISPOSITION_TO_ME then
             (case decode (slice DISPOSITION_LEN (DISPOSITION_LEN + CELL_PLAINTEXT_LEN) plain) of
                Inl e \<Rightarrow> Inl (LayerCell e)
              | Inr cell \<Rightarrow>
                  if list_ex (\<lambda>b. b \<noteq> 0) (drop (DISPOSITION_LEN + CELL_PLAINTEXT_LEN) plain)
                  then Inl DirtyPadding else Inr (ToMe cell))
           else if plain ! 0 = DISPOSITION_FORWARD then
             (if layers = 1 then Inl ForwardAtInnermost
              else Inr (Forward (drop DISPOSITION_LEN plain)))
           else Inl (UnknownDisposition (plain ! 0)), tx'))"

section \<open>The plaintexts of a layer\<close>

definition to_me_plain :: "Cell \<Rightarrow> nat \<Rightarrow> bytes" where
  "to_me_plain cell layers =
     DISPOSITION_TO_ME # cell_wire cell @ replicate (body_len layers - CELL_PLAINTEXT_LEN) 0"

lemma length_to_me_plain: "wf_cell cell \<Longrightarrow> 1 \<le> layers \<Longrightarrow> length (to_me_plain cell layers) + NOISE_TAG_LEN = link_cell_len layers"
  using body_len_ge [of layers] by (simp add: to_me_plain_def link_cell_len_body wire_defs)

lemma seal_to_me_wf:
  assumes "wf_cell cell" "1 \<le> layers"
  shows "seal_to_me S tx cell layers =
    (case transport_encrypt S tx (to_me_plain cell layers) (length (to_me_plain cell layers) + NOISE_TAG_LEN) of
       (Inl e, tx') \<Rightarrow> (Inl (LayerNoise e), tx') | (Inr out, tx') \<Rightarrow> (Inr out, tx'))"
proof -
  let ?plain = "(replicate (DISPOSITION_LEN + body_len layers) 0)[0 := DISPOSITION_TO_ME]"
  have body: "CELL_PLAINTEXT_LEN \<le> body_len layers" using assms(2) by (rule body_len_ge)
  have "length (slice DISPOSITION_LEN (DISPOSITION_LEN + CELL_PLAINTEXT_LEN) ?plain) = CELL_PLAINTEXT_LEN"
    using body by simp
  then have enc: "encode_into cell (slice DISPOSITION_LEN (DISPOSITION_LEN + CELL_PLAINTEXT_LEN) ?plain) = Inr (cell_wire cell)"
    using assms(1) by (rule encode_into_wf [rotated])
  have "copy_at DISPOSITION_LEN (cell_wire cell) ?plain = to_me_plain cell layers"
    using body assms(1)
    by (simp add: copy_at_def to_me_plain_def DISPOSITION_LEN_def drop_Cons')
  then show ?thesis
    by (simp only: seal_to_me_def Let_def enc sum.case)
qed

lemma seal_to_me_not_wf:
  assumes "\<not> wf_cell cell" "1 \<le> layers"
  shows "seal_to_me S tx cell layers = (Inl (LayerCell (TooLarge (length (payload cell)))), tx)"
  using assms body_len_ge [OF assms(2)] by (simp add: seal_to_me_def encode_into_error Let_def)

lemma seal_forward_eq:
  "seal_forward S tx blob layers =
    (if length blob \<noteq> link_cell_len (layers - 1)
     then (Inl (LayerWrongSize (length blob) (link_cell_len (layers - 1))), tx)
     else case transport_encrypt S tx (DISPOSITION_FORWARD # blob) (Suc (length blob) + NOISE_TAG_LEN) of
       (Inl e, tx') \<Rightarrow> (Inl (LayerNoise e), tx') | (Inr out, tx') \<Rightarrow> (Inr out, tx'))"
  by (simp add: seal_forward_def copy_at_def DISPOSITION_LEN_def Let_def)

text \<open>On the wire a frame has the size of its link, whatever it carries.\<close>

lemma seal_to_me_size:
  assumes "seal_to_me S tx cell layers = (Inr w, tx')" "1 \<le> layers"
  shows "length w = link_cell_len layers"
proof (cases "wf_cell cell")
  case True
  with assms length_to_me_plain [OF True assms(2)] show ?thesis
    by (auto simp: seal_to_me_wf split: prod.splits sum.splits)
next
  case False
  with assms show ?thesis by (simp add: seal_to_me_not_wf)
qed

lemma seal_forward_size:
  assumes "seal_forward S tx blob layers = (Inr w, tx')" "1 \<le> layers"
  shows "length w = link_cell_len layers" "length blob = link_cell_len (layers - 1)"
  using assms link_cell_len_step [OF assms(2)]
  by (auto simp: seal_forward_eq split: prod.splits sum.splits if_splits)

lemma seal_to_me_wf_iff: "seal_to_me S tx cell layers = (Inr w, tx') \<Longrightarrow> 1 \<le> layers \<Longrightarrow> wf_cell cell"
  by (cases "wf_cell cell") (simp_all add: seal_to_me_not_wf)

section \<open>What peeling returns\<close>

lemma peel_forward_size:
  assumes "peel S tx wire layers = (Inr (Forward blob), tx')" "1 \<le> layers"
  shows "2 \<le> layers" "length blob = link_cell_len (layers - 1)" "length wire = link_cell_len layers"
proof -
  from assms(1) obtain plain where
    "transport_decrypt S tx wire (DISPOSITION_LEN + body_len layers) = (Inr plain, tx')"
    and b: "blob = drop DISPOSITION_LEN plain" "layers \<noteq> 1" "length wire = link_cell_len layers"
    by (auto simp: peel_def Let_def split: if_splits prod.splits sum.splits)
  then have "length plain = DISPOSITION_LEN + body_len layers" by blast
  then show "2 \<le> layers" "length blob = link_cell_len (layers - 1)" "length wire = link_cell_len layers"
    using b assms(2) by (cases layers; simp add: body_len_Suc)+
qed

lemma peel_to_me_wf: "peel S tx wire layers = (Inr (ToMe cell), tx') \<Longrightarrow> wf_cell cell"
  by (auto simp: peel_def Let_def split: if_splits prod.splits sum.splits dest: decode_wf)

lemma peel_wrong_size:
  "length wire \<noteq> link_cell_len layers \<Longrightarrow> peel S tx wire layers = (Inl (LayerWrongSize (length wire) (link_cell_len layers)), tx)"
  by (simp add: peel_def)

lemma peel_failed_read_keeps:
  assumes "read_failure_keeps S" "peel S tx wire layers = (Inl (LayerNoise NoiseTransport), tx')"
  shows "tx' = tx"
  using assms by (auto simp: peel_def Let_def transport_decrypt_fail_keeps
      split: if_splits prod.splits sum.splits)

section \<open>Round trips\<close>

lemma link_cell_len_max: "layers \<le> 3 \<Longrightarrow> link_cell_len layers \<le> 65535"
  by (simp add: wire_defs)

lemma seal_to_me_peel:
  assumes laws: "transport_laws S link" and ab: "link (Suc i) j a b"
    and cell: "wf_cell cell" and layers: "1 \<le> layers" "layers \<le> 3"
  obtains w a' b' where "seal_to_me S a cell layers = (Inr w, a')" "length w = link_cell_len layers"
    "peel S b w layers = (Inr (ToMe cell), b')" "link i j a' b'"
proof -
  let ?p = "to_me_plain cell layers"
  have len: "length ?p + NOISE_TAG_LEN = link_cell_len layers"
    using cell layers(1) by (rule length_to_me_plain)
  then have max: "length ?p + NOISE_TAG_LEN \<le> 65535"
    using link_cell_len_max [OF layers(2)] by simp
  obtain w a' b' where w: "transport_encrypt S a ?p (length ?p + NOISE_TAG_LEN) = (Inr w, a')"
    "length w = length ?p + NOISE_TAG_LEN" "transport_decrypt S b w (length ?p) = (Inr ?p, b')" "link i j a' b'"
    using laws ab max by (rule encrypt_decrypt)
  have lp: "length ?p = DISPOSITION_LEN + body_len layers"
    using len link_cell_len_body [OF layers(1)] by simp
  have "slice DISPOSITION_LEN (DISPOSITION_LEN + CELL_PLAINTEXT_LEN) ?p = cell_wire cell"
    using length_cell_wire [OF cell] by (simp add: to_me_plain_def DISPOSITION_LEN_def)
  moreover have "drop (DISPOSITION_LEN + CELL_PLAINTEXT_LEN) ?p = replicate (body_len layers - CELL_PLAINTEXT_LEN) 0"
    using length_cell_wire [OF cell] by (simp add: to_me_plain_def DISPOSITION_LEN_def)
  moreover have "?p ! 0 = DISPOSITION_TO_ME" by (simp add: to_me_plain_def)
  ultimately have "peel S b w layers = (Inr (ToMe cell), b')"
    using w len cell by (simp add: peel_def lp [symmetric] decode_cell_wire list_ex_iff Let_def)
  with w len cell layers(1) show thesis
    by (intro that [of w a' b']) (simp_all add: seal_to_me_wf)
qed

lemma seal_forward_peel:
  assumes laws: "transport_laws S link" and ab: "link (Suc i) j a b"
    and blob: "length blob = link_cell_len (layers - 1)" and layers: "2 \<le> layers" "layers \<le> 3"
  obtains w a' b' where "seal_forward S a blob layers = (Inr w, a')" "length w = link_cell_len layers"
    "peel S b w layers = (Inr (Forward blob), b')" "link i j a' b'"
proof -
  let ?p = "DISPOSITION_FORWARD # blob"
  have lp: "length ?p = DISPOSITION_LEN + body_len layers"
    using blob layers(1) body_len_Suc [of "layers - 1"] by (simp add: DISPOSITION_LEN_def)
  then have len: "length ?p + NOISE_TAG_LEN = link_cell_len layers"
    using layers(1) link_cell_len_body [of layers] by simp
  then have max: "length ?p + NOISE_TAG_LEN \<le> 65535"
    using link_cell_len_max [OF layers(2)] by simp
  obtain w a' b' where w: "transport_encrypt S a ?p (length ?p + NOISE_TAG_LEN) = (Inr w, a')"
    "length w = length ?p + NOISE_TAG_LEN" "transport_decrypt S b w (length ?p) = (Inr ?p, b')" "link i j a' b'"
    using laws ab max by (rule encrypt_decrypt)
  have "peel S b w layers = (Inr (Forward blob), b')"
    using w len layers(1) by (simp add: peel_def lp [symmetric] Let_def)
      (simp add: DISPOSITION_LEN_def DISPOSITION_FORWARD_def DISPOSITION_TO_ME_def)
  moreover have "seal_forward S a blob layers = (Inr w, a')"
    using w blob by (simp add: seal_forward_eq)
  ultimately show thesis
    using w len by (intro that [of w a' b']) simp_all
qed

section \<open>The concrete instance\<close>

lemma plain_seal_to_me:
  assumes "wf_cell cell" "1 \<le> layers"
  shows "seal_to_me plain_snow t cell layers = (Inr (to_me_plain cell layers @ replicate 16 0), (Suc (fst t), snd t))"
  using assms by (simp add: seal_to_me_wf transport_encrypt_def plain_snow_def plain_write_def NOISE_TAG_LEN_def)

lemma plain_peel_to_me:
  assumes "wf_cell cell" "1 \<le> layers" "layers \<le> 3"
  shows "peel plain_snow t (to_me_plain cell layers @ replicate 16 0) layers = (Inr (ToMe cell), (fst t, Suc (snd t)))"
proof -
  have "plain_link (Suc 0) 0 (snd t, fst t) t" by (simp add: plain_link_def)
  from seal_to_me_peel [OF plain_transport_laws this assms]
  obtain w a' b' where "seal_to_me plain_snow (snd t, fst t) cell layers = (Inr w, a')"
    "peel plain_snow t w layers = (Inr (ToMe cell), b')" "plain_link 0 0 a' b'" by blast
  moreover from this(2) have "fst b' = fst t"
    by (auto simp: peel_def transport_decrypt_def plain_snow_def plain_read_def Let_def split: if_splits prod.splits sum.splits)
  ultimately show ?thesis
    using plain_seal_to_me [OF assms(1,2), of "(snd t, fst t)"] by (cases b') (auto simp: plain_link_def)
qed

lemma plain_seal_forward:
  assumes "length blob = link_cell_len (layers - 1)"
  shows "seal_forward plain_snow t blob layers = (Inr (DISPOSITION_FORWARD # blob @ replicate 16 0), (Suc (fst t), snd t))"
  using assms by (simp add: seal_forward_eq transport_encrypt_def plain_snow_def plain_write_def NOISE_TAG_LEN_def)

end
