(* ===== verification/Frames.thy ===== *)
theory Frames
  imports Cells
begin

text \<open>
  Fixed-length framing over a byte stream (\<^verbatim>\<open>FrameAccumulator\<close> and \<^verbatim>\<open>FrameReader\<close> of
  \<^verbatim>\<open>quiethop-crypto/src/layer.rs\<close>). The underlying stream is the list of what the socket will
  deliver: chunks of bytes as they arrive, a read error, or the end of the stream. An empty
  list means that nothing has arrived yet, which is where an asynchronous read is pending and
  where \<^verbatim>\<open>tokio::select!\<close> may drop the future; the state the reader keeps is returned.
\<close>

section \<open>The accumulator\<close>

record FrameAccumulator =
  frame_len :: nat
  acc_buf :: bytes

definition acc_new :: "nat \<Rightarrow> FrameAccumulator" where
  "acc_new n = \<lparr>frame_len = n, acc_buf = []\<rparr>"

definition acc_push :: "FrameAccumulator \<Rightarrow> bytes \<Rightarrow> FrameAccumulator" where
  "acc_push a bs = a\<lparr>acc_buf := acc_buf a @ bs\<rparr>"

definition acc_next_frame :: "FrameAccumulator \<Rightarrow> bytes option \<times> FrameAccumulator" where
  "acc_next_frame a =
     (if length (acc_buf a) < frame_len a then (None, a)
      else (Some (take (frame_len a) (acc_buf a)), a\<lparr>acc_buf := drop (frame_len a) (acc_buf a)\<rparr>))"

definition acc_pending :: "FrameAccumulator \<Rightarrow> nat" where
  "acc_pending a = length (acc_buf a)"

section \<open>The reader\<close>

datatype IoError = UnexpectedEof | IoOther nat

datatype arrival = Chunk bytes | ReadErr nat | Closed

datatype 'a poll = Ready 'a | Failed IoError | Pending

text \<open>One \<^verbatim>\<open>read\<close> into a buffer of \<open>room\<close> bytes; zero bytes read means end of stream.\<close>

fun read_some :: "nat \<Rightarrow> arrival list \<Rightarrow> bytes poll \<times> arrival list" where
  "read_some room [] = (Pending, [])"
| "read_some room (Closed # rest) = (Ready [], Closed # rest)"
| "read_some room (ReadErr e # rest) = (Failed (IoOther e), rest)"
| "read_some room (Chunk bs # rest) =
     (Ready (take room bs), if length bs \<le> room then rest else Chunk (drop room bs) # rest)"

record FrameReader =
  fr_inner :: "arrival list"
  fr_acc :: FrameAccumulator
  fr_scratch :: nat

definition reader_new :: "arrival list \<Rightarrow> nat \<Rightarrow> FrameReader" where
  "reader_new inner n = \<lparr>fr_inner = inner, fr_acc = acc_new n, fr_scratch = n\<rparr>"

fun arrival_size :: "arrival \<Rightarrow> nat" where
  "arrival_size (Chunk bs) = Suc (length bs)"
| "arrival_size (ReadErr e) = 1"
| "arrival_size Closed = 1"

lemma read_some_progress:
  "read_some room inner = (Ready got, inner') \<Longrightarrow> got \<noteq> [] \<Longrightarrow>
     sum_list (map arrival_size inner') < sum_list (map arrival_size inner)"
  by (induction room inner rule: read_some.induct) (auto split: if_splits)

function reader_next :: "FrameReader \<Rightarrow> bytes poll \<times> FrameReader" where
  "reader_next r =
     (case acc_next_frame (fr_acc r) of
        (Some frame, acc') \<Rightarrow> (Ready frame, r\<lparr>fr_acc := acc'\<rparr>)
      | (None, _) \<Rightarrow>
          (let room = fr_scratch r - acc_pending (fr_acc r) in
           case read_some room (fr_inner r) of
             (Pending, inner') \<Rightarrow> (Pending, r\<lparr>fr_inner := inner'\<rparr>)
           | (Failed e, inner') \<Rightarrow> (Failed e, r\<lparr>fr_inner := inner'\<rparr>)
           | (Ready got, inner') \<Rightarrow>
               if got = [] then (Failed UnexpectedEof, r\<lparr>fr_inner := inner'\<rparr>)
               else reader_next (r\<lparr>fr_inner := inner', fr_acc := acc_push (fr_acc r) got\<rparr>)))"
  by pat_completeness auto
termination
  by (relation "measure (\<lambda>r. sum_list (map arrival_size (fr_inner r)))")
    (auto dest: read_some_progress [OF sym])

declare reader_next.simps [simp del]

definition reader_pending :: "FrameReader \<Rightarrow> nat" where
  "reader_pending r = acc_pending (fr_acc r)"

definition reader_into_inner :: "FrameReader \<Rightarrow> arrival list" where
  "reader_into_inner r = fr_inner r"

text \<open>Bytes that have arrived and are still in the stream.\<close>

fun arrival_bytes :: "arrival \<Rightarrow> bytes" where
  "arrival_bytes (Chunk bs) = bs"
| "arrival_bytes (ReadErr e) = []"
| "arrival_bytes Closed = []"

definition inner_bytes :: "arrival list \<Rightarrow> bytes" where
  "inner_bytes xs = concat (map arrival_bytes xs)"

definition reader_bytes :: "FrameReader \<Rightarrow> bytes" where
  "reader_bytes r = acc_buf (fr_acc r) @ inner_bytes (fr_inner r)"

definition wf_reader :: "FrameReader \<Rightarrow> bool" where
  "wf_reader r \<longleftrightarrow> 0 < frame_len (fr_acc r) \<and> fr_scratch r = frame_len (fr_acc r)
     \<and> length (acc_buf (fr_acc r)) \<le> frame_len (fr_acc r)"

lemma inner_bytes_simps [simp]:
  "inner_bytes [] = []" "inner_bytes (x # xs) = arrival_bytes x @ inner_bytes xs"
  "inner_bytes (xs @ ys) = inner_bytes xs @ inner_bytes ys"
  by (simp_all add: inner_bytes_def)

lemma read_some_Ready:
  "read_some room inner = (Ready got, inner') \<Longrightarrow> inner_bytes inner = got @ inner_bytes inner' \<and> length got \<le> room"
  by (induction room inner rule: read_some.induct) (auto split: if_splits)

lemma read_some_other:
  "read_some room inner = (Failed e, inner') \<Longrightarrow> inner_bytes inner = inner_bytes inner'"
  "read_some room inner = (Pending, inner') \<Longrightarrow> inner = [] \<and> inner' = []"
  by (induction room inner rule: read_some.induct; auto split: if_splits)+

text \<open>
  A call loses no byte, keeps the reader well formed, and yields a frame only by taking exactly
  that frame from the stream; a pending call has drained what had arrived.
\<close>

lemma reader_next_sound:
  assumes "wf_reader r" "reader_next r = (res, r')"
  shows "wf_reader r' \<and> frame_len (fr_acc r') = frame_len (fr_acc r) \<and>
    (case res of
       Ready f \<Rightarrow> reader_bytes r = f @ reader_bytes r' \<and> length f = frame_len (fr_acc r) \<and> reader_pending r' = 0
     | Failed e \<Rightarrow> reader_bytes r' = reader_bytes r \<and> reader_pending r' < frame_len (fr_acc r)
     | Pending \<Rightarrow> reader_bytes r' = reader_bytes r \<and> fr_inner r' = [] \<and> reader_pending r' < frame_len (fr_acc r))"
  using assms
proof (induction r rule: reader_next.induct)
  case (1 r)
  show ?case
  proof (cases "length (acc_buf (fr_acc r)) < frame_len (fr_acc r)")
    case False
    with "1.prems" show ?thesis
      by (auto simp: reader_next.simps [of r] acc_next_frame_def wf_reader_def reader_bytes_def
          reader_pending_def acc_pending_def)
  next
    case short: True
    define room where "room = fr_scratch r - acc_pending (fr_acc r)"
    obtain rd inner' where rd: "read_some room (fr_inner r) = (rd, inner')" by (cases "read_some room (fr_inner r)")
    note eq = reader_next.simps [of r, unfolded acc_next_frame_def Let_def, folded room_def]
    show ?thesis
    proof (cases rd)
      case Pending
      with "1.prems" short rd read_some_other(2) [of room "fr_inner r" inner'] show ?thesis
        by (auto simp: eq wf_reader_def reader_bytes_def reader_pending_def acc_pending_def)
    next
      case (Failed e)
      with "1.prems" short rd read_some_other(1) [of room "fr_inner r" e inner'] show ?thesis
        by (auto simp: eq wf_reader_def reader_bytes_def reader_pending_def acc_pending_def)
    next
      case (Ready got)
      note got = read_some_Ready [OF rd [unfolded Ready]]
      show ?thesis
      proof (cases "got = []")
        case True
        with "1.prems" short rd Ready got show ?thesis
          by (auto simp: eq wf_reader_def reader_bytes_def reader_pending_def acc_pending_def)
      next
        case False
        let ?r = "r\<lparr>fr_inner := inner', fr_acc := acc_push (fr_acc r) got\<rparr>"
        have wf: "wf_reader ?r"
          using "1.prems"(1) short got
          by (auto simp: wf_reader_def acc_push_def room_def acc_pending_def)
        have bytes: "reader_bytes ?r = reader_bytes r" and len: "frame_len (fr_acc ?r) = frame_len (fr_acc r)"
          using got by (auto simp: reader_bytes_def acc_push_def)
        have nxt: "reader_next ?r = (res, r')"
          using "1.prems"(2) short rd Ready False by (simp add: eq)
        have none: "acc_next_frame (fr_acc r) = (None, fr_acc r)"
          using short by (simp add: acc_next_frame_def)
        have sym: "(rd, inner') = read_some room (fr_inner r)" using rd by simp
        from "1.IH" [OF none [symmetric] refl room_def sym Ready False wf nxt]
        show ?thesis by (simp only: bytes len)
      qed
    qed
  qed
qed

section \<open>The contract of a frame source\<close>

text \<open>
  Both types deliver the bytes they were given in order, in units of one length, and hold back
  an incomplete unit. \<open>drain\<close> takes up to \<open>n\<close> units; \<open>whole_frames\<close> is the specification.
\<close>

fun drain :: "('s \<Rightarrow> bytes option \<times> 's) \<Rightarrow> nat \<Rightarrow> 's \<Rightarrow> bytes list \<times> 's" where
  "drain nxt 0 s = ([], s)"
| "drain nxt (Suc n) s =
     (case nxt s of
        (None, s') \<Rightarrow> ([], s')
      | (Some f, s') \<Rightarrow> (let (fs, s'') = drain nxt n s' in (f # fs, s'')))"

definition whole_frames :: "nat \<Rightarrow> bytes \<Rightarrow> bytes list" where
  "whole_frames n bs = chunks n (take (n * (length bs div n)) bs)"

lemma whole_frames_short: "length bs < n \<Longrightarrow> whole_frames n bs = []"
  by (simp add: whole_frames_def)

lemma whole_frames_step:
  assumes "length f = n" "0 < n" shows "whole_frames n (f @ bs) = f # whole_frames n bs"
proof -
  have "(n + length bs) div n = Suc (length bs div n)" using assms by (simp add: div_add_self1)
  then show ?thesis using assms by (simp only: whole_frames_def length_append) (simp add: chunks_append)
qed

locale frame_source =
  fixes next_unit :: "'s \<Rightarrow> bytes option \<times> 's"
    and unread :: "'s \<Rightarrow> bytes"
    and unit_len :: "'s \<Rightarrow> nat"
    and wf :: "'s \<Rightarrow> bool"
  assumes unit_pos: "wf s \<Longrightarrow> 0 < unit_len s"
    and next_Some: "wf s \<Longrightarrow> next_unit s = (Some f, s') \<Longrightarrow> unread s = f @ unread s' \<and> length f = unit_len s"
    and next_None: "wf s \<Longrightarrow> next_unit s = (None, s') \<Longrightarrow> unread s' = unread s \<and> length (unread s) < unit_len s"
    and next_wf: "wf s \<Longrightarrow> next_unit s = (x, s') \<Longrightarrow> wf s' \<and> unit_len s' = unit_len s"
begin

lemma drain_exact:
  assumes "wf s" "length (unread s) < n * unit_len s" "drain next_unit n s = (fs, s')"
  shows "fs = whole_frames (unit_len s) (unread s) \<and> unread s = concat fs @ unread s'
    \<and> length (unread s') < unit_len s"
  using assms
proof (induction n arbitrary: s fs s')
  case 0
  then show ?case by simp
next
  case (Suc n)
  show ?case
  proof (cases "next_unit s")
    case (Pair x t)
    show ?thesis
    proof (cases x)
      case None
      with Suc.prems Pair next_None [of s t] show ?thesis
        by (simp add: whole_frames_short)
    next
      case (Some f)
      obtain gs u where gs: "drain next_unit n t = (gs, u)" by (cases "drain next_unit n t")
      have f: "unread s = f @ unread t" "length f = unit_len s" and t: "wf t" "unit_len t = unit_len s"
        using next_Some [of s f t] next_wf [of s x t] Suc.prems(1) Pair Some by simp_all
      have "length (unread t) < n * unit_len t" using Suc.prems(2) f t by simp
      note ih = Suc.IH [OF t(1) this gs, unfolded t(2)]
      have "whole_frames (unit_len s) (unread s) = f # whole_frames (unit_len s) (unread t)"
        unfolding f(1) by (rule whole_frames_step [OF f(2) unit_pos [OF Suc.prems(1)]])
      moreover have "fs = f # gs" "s' = u" using Suc.prems(3) Pair Some gs by auto
      ultimately show ?thesis using ih f(1) by (metis append.assoc concat.simps(2))
    qed
  qed
qed

end

interpretation acc: frame_source acc_next_frame acc_buf frame_len "\<lambda>a. 0 < frame_len a"
  by unfold_locales (auto simp: acc_next_frame_def split: if_splits)

text \<open>
  The reader seen as a frame source: a stream without errors, of which everything sent so far
  has arrived.
\<close>

definition reader_poll :: "FrameReader \<Rightarrow> bytes option \<times> FrameReader" where
  "reader_poll r = (case reader_next r of (Ready f, r') \<Rightarrow> (Some f, r') | (_, r') \<Rightarrow> (None, r'))"

fun is_chunk :: "arrival \<Rightarrow> bool" where
  "is_chunk (Chunk bs) = (bs \<noteq> [])"
| "is_chunk _ = False"

definition clean_reader :: "FrameReader \<Rightarrow> bool" where
  "clean_reader r \<longleftrightarrow> wf_reader r \<and> list_all is_chunk (fr_inner r)"

lemma read_some_clean:
  assumes "list_all is_chunk inner" "0 < room"
  shows "(case read_some room inner of
      (Ready got, inner') \<Rightarrow> got \<noteq> [] \<and> list_all is_chunk inner'
    | (Failed e, inner') \<Rightarrow> False
    | (Pending, inner') \<Rightarrow> inner' = [])"
  using assms by (cases "(room, inner)" rule: read_some.cases) (auto split: if_splits)

lemma reader_next_clean:
  assumes "clean_reader r" "reader_next r = (res, r')"
  shows "clean_reader r' \<and> (\<forall>e. res \<noteq> Failed e)"
  using assms
proof (induction r rule: reader_next.induct)
  case (1 r)
  have wf: "wf_reader r'" using "1.prems" reader_next_sound by (auto simp: clean_reader_def)
  show ?case
  proof (cases "length (acc_buf (fr_acc r)) < frame_len (fr_acc r)")
    case False
    with "1.prems" wf show ?thesis
      by (auto simp: reader_next.simps [of r] acc_next_frame_def clean_reader_def)
  next
    case short: True
    define room where "room = fr_scratch r - acc_pending (fr_acc r)"
    have room: "0 < room"
      using short "1.prems"(1) by (simp add: room_def clean_reader_def wf_reader_def acc_pending_def)
    obtain rd inner' where rd: "read_some room (fr_inner r) = (rd, inner')" by (cases "read_some room (fr_inner r)")
    have clean: "case rd of Ready got \<Rightarrow> got \<noteq> [] \<and> list_all is_chunk inner' | Failed e \<Rightarrow> False | Pending \<Rightarrow> inner' = []"
      using read_some_clean [of "fr_inner r" room] "1.prems"(1) room rd by (auto simp: clean_reader_def)
    note eq = reader_next.simps [of r, unfolded acc_next_frame_def Let_def, folded room_def]
    show ?thesis
    proof (cases rd)
      case (Ready got)
      let ?r = "r\<lparr>fr_inner := inner', fr_acc := acc_push (fr_acc r) got\<rparr>"
      have "clean_reader ?r"
        using "1.prems"(1) short clean Ready read_some_Ready [OF rd [unfolded Ready]]
        by (auto simp: clean_reader_def wf_reader_def acc_push_def room_def acc_pending_def)
      moreover have "reader_next ?r = (res, r')"
        using "1.prems"(2) short rd Ready clean by (simp add: eq)
      moreover have "(None, fr_acc r) = acc_next_frame (fr_acc r)"
        using short by (simp add: acc_next_frame_def)
      ultimately show ?thesis
        using "1.IH" [OF _ refl room_def rd [symmetric] Ready] clean Ready by simp
    qed (use "1.prems" short rd clean wf in \<open>auto simp: eq clean_reader_def\<close>)
  qed
qed

interpretation rd: frame_source reader_poll reader_bytes "\<lambda>r. frame_len (fr_acc r)" clean_reader
proof unfold_locales
  fix r f r'
  assume r: "clean_reader r"
  then have wf: "wf_reader r" by (simp add: clean_reader_def)
  then show "0 < frame_len (fr_acc r)" by (simp add: wf_reader_def)
  show "reader_bytes r = f @ reader_bytes r' \<and> length f = frame_len (fr_acc r)"
    if "reader_poll r = (Some f, r')"
    using that reader_next_sound [OF wf, of "Ready f" r']
    by (auto simp: reader_poll_def split: prod.splits poll.splits)
  show "reader_bytes r' = reader_bytes r \<and> length (reader_bytes r) < frame_len (fr_acc r)"
    if "reader_poll r = (None, r')"
    using that reader_next_sound [OF wf, of Pending r'] reader_next_clean [OF r]
    by (auto simp: reader_poll_def reader_bytes_def reader_pending_def acc_pending_def
        split: prod.splits poll.splits)
  show "clean_reader r' \<and> frame_len (fr_acc r') = frame_len (fr_acc r)" if "reader_poll r = (x, r')" for x
    using that reader_next_sound [OF wf] reader_next_clean [OF r]
    by (fastforce simp: reader_poll_def split: prod.splits poll.splits)
qed

section \<open>Cancellation\<close>

text \<open>
  A caller's \<open>select!\<close> drops a pending \<open>next_frame\<close> future whenever another branch fires. A run
  interleaves arrivals on the stream with polls, in any order; a poll that finds no whole frame
  is a dropped future.
\<close>

datatype stream_event = Arrive bytes | Poll

fun arrived :: "stream_event list \<Rightarrow> bytes" where
  "arrived [] = []"
| "arrived (Arrive bs # es) = bs @ arrived es"
| "arrived (Poll # es) = arrived es"

fun run_reader :: "stream_event list \<Rightarrow> FrameReader \<Rightarrow> bytes list \<times> FrameReader" where
  "run_reader [] r = ([], r)"
| "run_reader (Arrive bs # es) r =
     run_reader es (if bs = [] then r else r\<lparr>fr_inner := fr_inner r @ [Chunk bs]\<rparr>)"
| "run_reader (Poll # es) r =
     (case reader_poll r of
        (None, r') \<Rightarrow> run_reader es r'
      | (Some f, r') \<Rightarrow> (let (fs, r'') = run_reader es r' in (f # fs, r'')))"

lemma arrive_clean:
  assumes "clean_reader r" "bs \<noteq> []"
  shows "clean_reader (r\<lparr>fr_inner := fr_inner r @ [Chunk bs]\<rparr>)"
    "reader_bytes (r\<lparr>fr_inner := fr_inner r @ [Chunk bs]\<rparr>) = reader_bytes r @ bs"
  using assms by (simp_all add: clean_reader_def wf_reader_def reader_bytes_def inner_bytes_def)

lemma run_reader_bytes:
  assumes "clean_reader r" "run_reader es r = (fs, r')"
  shows "clean_reader r' \<and> frame_len (fr_acc r') = frame_len (fr_acc r)
    \<and> concat fs @ reader_bytes r' = reader_bytes r @ arrived es
    \<and> list_all (\<lambda>f. length f = frame_len (fr_acc r)) fs"
  using assms
proof (induction es r arbitrary: fs rule: run_reader.induct)
  case (2 bs es r)
  then show ?case using arrive_clean [of r bs] by (cases "bs = []") simp_all
next
  case (3 es r)
  then show ?case
    using rd.next_Some [of r] rd.next_None [of r] rd.next_wf [of r]
    by (fastforce split: prod.splits option.splits)
qed simp

lemma whole_frames_concat:
  assumes "list_all (\<lambda>f. length f = n) fs" "0 < n"
  shows "whole_frames n (concat fs @ bs) = fs @ whole_frames n bs"
  using assms by (induction fs) (simp_all add: whole_frames_step)

text \<open>
  C30: Cancelling never loses, duplicates or misaligns a byte. However the bytes of the peer are
  split into arrivals and however often a pending \<^verbatim>\<open>next_frame\<close> future is dropped between them, the
  frames delivered during the run, followed by those still obtainable at its end, are exactly
  the consecutive whole frames of the byte sequence that arrived, in order.
\<close>

theorem reader_cancel_safe:
  assumes "0 < n" "run_reader es (reader_new [] n) = (fs, r)"
    and "drain reader_poll (Suc (length (arrived es))) r = (gs, r')"
  shows "fs @ gs = whole_frames n (arrived es)"
proof -
  have new: "clean_reader (reader_new [] n)" "reader_bytes (reader_new [] n) = []" "frame_len (fr_acc (reader_new [] n)) = n"
    using assms(1) by (simp_all add: clean_reader_def wf_reader_def reader_new_def acc_new_def reader_bytes_def)
  note run = run_reader_bytes [OF new(1) assms(2), unfolded new(2,3), simplified]
  then have "length (reader_bytes r) \<le> length (arrived es)"
    by (metis le_add2 length_append)
  also have "\<dots> < Suc (length (arrived es)) * n" using assms(1) by (cases n) simp_all
  finally have short: "length (reader_bytes r) < Suc (length (arrived es)) * frame_len (fr_acc r)"
    using run by metis
  have "gs = whole_frames (frame_len (fr_acc r)) (reader_bytes r)"
    using rd.drain_exact [OF conjunct1 [OF run] short assms(3)] by (rule conjunct1)
  then have "gs = whole_frames n (reader_bytes r)" using run by metis
  moreover have "whole_frames n (concat fs @ reader_bytes r) = fs @ whole_frames n (reader_bytes r)"
    by (rule whole_frames_concat) (use run assms(1) in auto)
  ultimately show ?thesis using run by metis
qed

theorem reader_cancel_safe_witness:
  "fst (run_reader [Arrive [1], Poll, Arrive [2, 3], Poll, Poll, Arrive [4]] (reader_new [] 2))
     @ fst (drain reader_poll 5 (snd (run_reader [Arrive [1], Poll, Arrive [2, 3], Poll, Poll, Arrive [4]] (reader_new [] 2))))
   = [[1, 2], [3, 4]]"
proof -
  let ?es = "[Arrive [1], Poll, Arrive [2, 3], Poll, Poll, Arrive [4]]"
  have len: "Suc (length (arrived ?es)) = 5" by simp
  have "whole_frames 2 (arrived ?es) = [[1, 2], [3, 4]]"
    by (simp add: whole_frames_def chunks.simps)
  then show ?thesis
    using reader_cancel_safe [OF _ prod.collapse [symmetric] prod.collapse [symmetric], of 2 ?es]
    unfolding len by simp
qed

section \<open>Whole frames\<close>

lemma reader_next_whole:
  assumes "length f = n" "0 < n"
  shows "reader_next (reader_new (Chunk f # rest) n) = (Ready f, reader_new rest n)"
proof -
  have "f \<noteq> []" using assms by auto
  with assms show ?thesis
    by (simp add: reader_next.simps [of "\<lparr>fr_inner = Chunk f # rest, fr_acc = \<lparr>frame_len = n, acc_buf = []\<rparr>, fr_scratch = n\<rparr>"]
        reader_next.simps [of "\<lparr>fr_inner = rest, fr_acc = \<lparr>frame_len = n, acc_buf = f\<rparr>, fr_scratch = n\<rparr>"]
        reader_new_def acc_new_def acc_next_frame_def acc_pending_def acc_push_def)
qed

lemma reader_next_idle: "0 < n \<Longrightarrow> reader_next (reader_new [] n) = (Pending, reader_new [] n)"
  by (subst reader_next.simps) (simp add: reader_new_def acc_new_def acc_next_frame_def acc_pending_def)

lemma reader_new_arrive: "(reader_new inner n)\<lparr>fr_inner := fr_inner (reader_new inner n) @ [a]\<rparr> = reader_new (inner @ [a]) n"
  by (simp add: reader_new_def)

end
