(* ===== verification/Calendar.thy ===== *)
theory Calendar
  imports Prelude
begin

text \<open>
  The error type of the registry code and its RFC 3339 timestamps
  (\<^verbatim>\<open>parse_rfc3339\<close>, \<^verbatim>\<open>is_leap_year\<close>, \<^verbatim>\<open>days_in_month\<close> and \<^verbatim>\<open>days_from_civil\<close> of
  \<^verbatim>\<open>quiethop-crypto/src/registry.rs\<close>). An \<^verbatim>\<open>i64\<close> is an \<open>int\<close>; Rust's \<^verbatim>\<open>/\<close> and \<^verbatim>\<open>%\<close> truncate
  towards zero and are HOL's signed division \<open>sdiv\<close> and \<open>smod\<close>. No intermediate value comes
  near the bounds of the type for the fields a twenty-byte timestamp can hold
  (\<open>parse_rfc3339_bounds\<close>).
\<close>

section \<open>Errors\<close>

text \<open>
  The message strings of \<^verbatim>\<open>RegistryError\<close> are kept as the place that raises them together
  with the values of the program that are formatted into them; the text of a library's own
  error is left out.
\<close>

datatype reason =
    ThresholdZero | NotAnEnvelope | DocumentNotBase64 | TooFewSignatures nat nat
  | DocumentDoesNotParse | UntilNotAfterAfter | NotOnTheHour string
  | VersionMismatch int string int | NotYetValid string | Expired string | Rollback int int
  | BadTimestamp string | NoIpLiteral | PortZero | PubkeyNotHex | PubkeyLength
  | NoPinnedKey | ThresholdTooSmall | ThresholdTooLarge nat nat
  | FetchFailed | FetchStatus nat | BodyUnreadable
  | NothingAccepted | OutsideValidity

datatype key_reason = KeyBytes | KeyHex

datatype state_reason =
    NoStateDir | NotReadable string | Corrupt string | NonPositive string
  | CannotCreate string | CannotEncode | CannotOpen string | CannotWrite string
  | CannotSync string | CannotReplace string string | StoredNotBase64

datatype RegistryError =
  Registry reason | Equivocation int | InvalidKey key_reason | State state_reason

section \<open>Timestamps\<close>

definition is_leap_year :: "int \<Rightarrow> bool" where
  "is_leap_year y \<longleftrightarrow> (y smod 4 = 0 \<and> y smod 100 \<noteq> 0) \<or> y smod 400 = 0"

definition days_in_month :: "int \<Rightarrow> int \<Rightarrow> int" where
  "days_in_month y m =
     (if m \<in> {1, 3, 5, 7, 8, 10, 12} then 31
      else if m \<in> {4, 6, 9, 11} then 30
      else if m = 2 \<and> is_leap_year y then 29
      else if m = 2 then 28
      else 0)"

definition days_from_civil :: "int \<Rightarrow> int \<Rightarrow> int \<Rightarrow> int" where
  "days_from_civil y0 m d =
     (let y = (if m \<le> 2 then y0 - 1 else y0);
          era = (if y \<ge> 0 then y else y - 399) sdiv 400;
          yoe = y - era * 400;
          mp = (m + 9) smod 12;
          doy = (153 * mp + 2) sdiv 5 + d - 1;
          doe = yoe * 365 + yoe sdiv 4 - yoe sdiv 100 + doy
      in era * 146097 + doe - 719468)"

text \<open>
  \<^verbatim>\<open>s.get(from..to)\<close> fails only inside a multi-byte character, where the field would not
  parse either; both failures return the same error.
\<close>

definition parse_rfc3339 :: "string \<Rightarrow> RegistryError + int" where
  "parse_rfc3339 s =
     (let bad = Registry (BadTimestamp s);
          num = (\<lambda>from to. ok_or bad (parse_i64 (slice from to s))) in
      if length s \<noteq> 20 \<or> s ! 4 \<noteq> CHR ''-'' \<or> s ! 7 \<noteq> CHR ''-'' \<or> s ! 10 \<noteq> CHR ''T''
         \<or> s ! 13 \<noteq> CHR '':'' \<or> s ! 16 \<noteq> CHR '':'' \<or> s ! 19 \<noteq> CHR ''Z''
      then Inl bad
      else
      and_then (num 0 4) (\<lambda>y. and_then (num 5 7) (\<lambda>mo. and_then (num 8 10) (\<lambda>d.
      and_then (num 11 13) (\<lambda>h. and_then (num 14 16) (\<lambda>mi. and_then (num 17 19) (\<lambda>sec.
        if \<not> (1 \<le> mo \<and> mo \<le> 12) \<or> h > 23 \<or> mi > 59 \<or> sec > 60 then Inl bad
        else if d < 1 \<or> d > days_in_month y mo then Inl bad
        else Inr (days_from_civil y mo d * 86400 + h * 3600 + mi * 60 + sec))))))))"

section \<open>The civil calendar\<close>

lemma smod_nonneg: "0 \<le> (a :: int) \<Longrightarrow> 0 < b \<Longrightarrow> a smod b = a mod b"
  by (cases "a = 0") (simp_all add: signed_modulo_int_def)

lemma sdiv_nonneg: "0 \<le> (a :: int) \<Longrightarrow> 0 < b \<Longrightarrow> a sdiv b = a div b"
  by (cases "a = 0") (simp_all add: signed_divide_int_def)

lemma smod_eq_0: "0 < b \<Longrightarrow> (a :: int) smod b = 0 \<longleftrightarrow> b dvd a"
  by (cases "a = 0") (auto simp: signed_modulo_int_def dvd_eq_mod_eq_0 [symmetric] sgn_if)

lemma is_leap_year_dvd: "is_leap_year y \<longleftrightarrow> (4 dvd y \<and> \<not> 100 dvd y) \<or> 400 dvd y"
  by (simp add: is_leap_year_def smod_eq_0)

lemma era_floor: "(if (y :: int) \<ge> 0 then y else y - 399) sdiv 400 = y div 400"
proof (cases "y \<ge> 0")
  case False
  obtain q r where y: "y = 400 * q + r" "0 \<le> r" "r < 400" "q = y div 400"
    using div_mult_mod_eq [of y 400] pos_mod_bound [of 400 y] pos_mod_sign [of 400 y] by (metis mult.commute zero_less_numeral)
  have "(399 - y) div 400 = - q" by (rule int_div_pos_eq [of _ _ _ "399 - r"]) (use y(1-3) in simp_all)
  then have "(399 - y) div 400 = - (y div 400)" by (simp only: y(4))
  moreover have "(y - 399) sdiv 400 = - ((399 - y) div 400)" using False by (simp add: signed_divide_int_def)
  ultimately have "(y - 399) sdiv 400 = y div 400" by (simp only: minus_minus)
  then show ?thesis using False by simp
qed (simp add: sdiv_nonneg)

text \<open>
  The algorithm's value in closed form: days of the years before, each counted from March, and
  months by the 153-day rule.
\<close>

definition march_years :: "int \<Rightarrow> int" where
  "march_years y = 365 * y + y div 4 - y div 100 + y div 400"

lemma days_from_civil_closed:
  assumes "1 \<le> m" "m \<le> 12"
  shows "days_from_civil y m d =
    march_years (if m \<le> 2 then y - 1 else y) + (153 * ((m + 9) mod 12) + 2) div 5 + d - 719469"
proof -
  define z where "z = (if m \<le> 2 then y - 1 else y)"
  define q where "q = z div 400"
  define r where "r = z - q * 400"
  define mp where "mp = (m + 9) mod 12"
  have r: "0 \<le> r" "z = r + 4 * (100 * q)" "z = r + 100 * (4 * q)"
    unfolding r_def q_def by (simp_all add: minus_div_mult_eq_mod)
  have "z div 4 = 100 * q + r div 4" by (subst r(2), subst div_mult_self2) simp_all
  moreover have "z div 100 = 4 * q + r div 100" by (subst r(3), subst div_mult_self2) simp_all
  moreover have "r sdiv 4 = r div 4" "r sdiv 100 = r div 100" "(m + 9) smod 12 = mp"
    "(153 * mp + 2) sdiv 5 = (153 * mp + 2) div 5"
    using r(1) assms by (simp_all add: sdiv_nonneg smod_nonneg mp_def del: div_mult_self1 div_mult_self2)
  moreover have "days_from_civil y m d =
      q * 146097 + (r * 365 + r sdiv 4 - r sdiv 100 + ((153 * ((m + 9) smod 12) + 2) sdiv 5 + d - 1)) - 719468"
    unfolding days_from_civil_def Let_def z_def [symmetric] era_floor q_def [symmetric] r_def [symmetric] ..
  moreover have "march_years z = 365 * z + z div 4 - z div 100 + q" by (simp only: march_years_def q_def)
  ultimately have "days_from_civil y m d = march_years z + (153 * mp + 2) div 5 + d - 719469"
    using r(2) by (simp only: algebra_simps)
  then show ?thesis unfolding z_def mp_def .
qed

definition valid_date :: "int \<Rightarrow> int \<Rightarrow> int \<Rightarrow> bool" where
  "valid_date y m d \<longleftrightarrow> 1 \<le> m \<and> m \<le> 12 \<and> 1 \<le> d \<and> d \<le> days_in_month y m"

definition next_date :: "int \<Rightarrow> int \<Rightarrow> int \<Rightarrow> int \<times> int \<times> int" where
  "next_date y m d =
     (if d < days_in_month y m then (y, m, d + 1)
      else if m < 12 then (y, m + 1, 1) else (y + 1, 1, 1))"

lemma month_cases:
  assumes "1 \<le> (m :: int)" "m \<le> 12"
  shows "m = 1 \<or> m = 2 \<or> m = 3 \<or> m = 4 \<or> m = 5 \<or> m = 6 \<or> m = 7 \<or> m = 8 \<or> m = 9 \<or> m = 10 \<or> m = 11 \<or> m = 12"
  using assms by presburger

lemma div_pred_step: "0 < n \<Longrightarrow> (y :: int) div n - (y - 1) div n = (if n dvd y then 1 else 0)"
proof -
  assume n: "0 < n"
  show ?thesis
  proof (cases "n dvd y")
    case True
    then obtain k where "y = n * k" ..
    moreover have "(n * k - 1) div n = k - 1"
      by (rule int_div_pos_eq [of _ _ _ "n - 1"]) (use n in \<open>simp_all add: algebra_simps\<close>)
    ultimately show ?thesis using n by simp
  next
    case False
    then have "y mod n \<noteq> 0" by (simp add: dvd_eq_mod_eq_0)
    then have "0 < y mod n" using pos_mod_sign [OF n, of y] by linarith
    then have "(y - 1) div n = y div n"
      by (intro int_div_pos_eq [of _ _ _ "y mod n - 1"]) (use pos_mod_bound [OF n, of y] in \<open>auto simp: algebra_simps\<close>)
    then show ?thesis using False by simp
  qed
qed

text \<open>A year from March to February has 366 days exactly when the February in it is long.\<close>

lemma leap_step: "march_years y = march_years (y - 1) + (if is_leap_year y then 366 else 365)"
proof -
  define a b c a' b' c' where "a = y div 4" "b = y div 100" "c = y div 400"
    "a' = (y - 1) div 4" "b' = (y - 1) div 100" "c' = (y - 1) div 400"
  have dvd: "400 dvd y \<Longrightarrow> 100 dvd y" "100 dvd y \<Longrightarrow> 4 dvd y"
    by (erule dvd_trans [rotated], simp)+
  have "a - a' = (if 4 dvd y then 1 else 0)" "b - b' = (if 100 dvd y then 1 else 0)"
    "c - c' = (if 400 dvd y then 1 else 0)"
    unfolding a_b_c_a'_b'_c'_def by (simp_all only: div_pred_step zero_less_numeral)
  then have "365 * y + a - b + c = 365 * (y - 1) + a' - b' + c' + (if is_leap_year y then 366 else 365)"
    unfolding is_leap_year_dvd using dvd by (simp split: if_splits)
  then show ?thesis unfolding march_years_def a_b_c_a'_b'_c'_def .
qed

lemma days_in_month_ge: "1 \<le> m \<Longrightarrow> m \<le> 12 \<Longrightarrow> 28 \<le> days_in_month y m"
  by (drule (1) month_cases) (elim disjE; simp add: days_in_month_def)

lemma next_date_valid: "valid_date y m d \<Longrightarrow> next_date y m d = (y', m', d') \<Longrightarrow> valid_date y' m' d'"
  using days_in_month_ge [of 1 "y + 1"] days_in_month_ge [of "m + 1" y]
  by (auto simp: valid_date_def next_date_def split: if_splits)

lemma days_from_civil_day: "days_from_civil y m (d + k) = days_from_civil y m d + k"
  by (simp add: days_from_civil_def Let_def)

lemma days_from_civil_month:
  assumes "1 \<le> m" "m < 12"
  shows "days_from_civil y (m + 1) 1 = days_from_civil y m (days_in_month y m) + 1"
proof -
  have "m = 1 \<or> m = 2 \<or> m = 3 \<or> m = 4 \<or> m = 5 \<or> m = 6 \<or> m = 7 \<or> m = 8 \<or> m = 9 \<or> m = 10 \<or> m = 11"
    using assms by presburger
  then show ?thesis
    using leap_step [of y]
    by (elim disjE) (simp_all add: days_from_civil_closed days_in_month_def Let_def split: if_splits)
qed

lemma days_from_civil_year: "days_from_civil (y + 1) 1 1 = days_from_civil y 12 31 + 1"
  by (simp add: days_from_civil_closed)

lemma days_from_civil_next:
  assumes "valid_date y m d" "next_date y m d = (y', m', d')"
  shows "days_from_civil y' m' d' = days_from_civil y m d + 1"
proof (cases "d < days_in_month y m")
  case True
  then show ?thesis using assms by (auto simp: next_date_def days_from_civil_day)
next
  case False
  then have "d = days_in_month y m" "1 \<le> m" "m \<le> 12" using assms by (simp_all add: valid_date_def)
  moreover have "days_in_month y 12 = 31" by (simp add: days_in_month_def)
  ultimately show ?thesis
    using assms days_from_civil_month [of m y] days_from_civil_year [of y]
    by (cases "m = 12") (simp_all add: next_date_def)
qed

lemma days_from_civil_epoch: "days_from_civil 1970 1 1 = 0"
  by (simp add: days_from_civil_closed march_years_def)

section \<open>Parsing\<close>

definition digit :: "nat \<Rightarrow> char" where
  "digit k = char_of (48 + k)"

definition pad2 :: "nat \<Rightarrow> string" where
  "pad2 n = [digit (n div 10), digit (n mod 10)]"

text \<open>The shape the authority emits.\<close>

definition rfc3339 :: "nat \<Rightarrow> nat \<Rightarrow> nat \<Rightarrow> nat \<Rightarrow> nat \<Rightarrow> nat \<Rightarrow> string" where
  "rfc3339 y mo d h mi sec =
     pad2 (y div 100) @ pad2 (y mod 100) @ ''-'' @ pad2 mo @ ''-'' @ pad2 d @ ''T''
     @ pad2 h @ '':'' @ pad2 mi @ '':'' @ pad2 sec @ ''Z''"

lemma of_char_digit: "k < 10 \<Longrightarrow> of_char (digit k) = 48 + k"
  by (simp add: digit_def of_char_char_of_lt)

lemma dec_digit_digit [simp]: "k < 10 \<Longrightarrow> dec_digit (digit k) = Some k"
  by (simp add: dec_digit_def of_char_digit)

lemma digit_not_sign: "k < 10 \<Longrightarrow> digit k \<noteq> CHR ''-'' \<and> digit k \<noteq> CHR ''+''"
  using of_char_digit [of k] by (auto simp: of_char_def)

lemma parse_i64_digits:
  assumes "k < 10"
  shows "parse_i64 (digit k # cs) =
    (case parse_digits k cs of None \<Rightarrow> None | Some v \<Rightarrow> if v < 2 ^ 63 then Some (int v) else None)"
  using assms digit_not_sign [OF assms] by (simp add: parse_i64_def parse_nat_def strip_plus_def)

lemma parse_i64_pad2: "n < 100 \<Longrightarrow> parse_i64 (pad2 n) = Some (int n)"
  by (simp add: pad2_def parse_i64_digits less_mult_imp_div_less)

lemma parse_i64_pad4:
  assumes "n < 10000" shows "parse_i64 (pad2 (n div 100) @ pad2 (n mod 100)) = Some (int n)"
proof -
  have "n mod 100 div 10 < 10" "n div 100 div 10 < 10" using assms by (simp_all add: less_mult_imp_div_less)
  moreover have "10 * (10 * (n div 100) + n mod 100 div 10) + n mod 100 mod 10 = n" by simp
  ultimately show ?thesis using assms by (simp add: pad2_def parse_i64_digits)
qed

lemma parse_rfc3339_print:
  assumes "y < 10000" "mo < 100" "d < 100" "h < 100" "mi < 100" "sec < 100"
  shows "parse_rfc3339 (rfc3339 y mo d h mi sec) =
    (if valid_date (int y) (int mo) (int d) \<and> h \<le> 23 \<and> mi \<le> 59 \<and> sec \<le> 60
     then Inr (days_from_civil (int y) (int mo) (int d) * 86400 + int h * 3600 + int mi * 60 + int sec)
     else Inl (Registry (BadTimestamp (rfc3339 y mo d h mi sec))))"
proof -
  let ?s = "rfc3339 y mo d h mi sec"
  have "length ?s = 20" "?s ! 4 = CHR ''-''" "?s ! 7 = CHR ''-''" "?s ! 10 = CHR ''T''" "?s ! 13 = CHR '':''"
    "?s ! 16 = CHR '':''" "?s ! 19 = CHR ''Z''"
    by (simp_all add: rfc3339_def pad2_def)
  moreover have "slice 0 4 ?s = pad2 (y div 100) @ pad2 (y mod 100)" "slice 5 7 ?s = pad2 mo"
    "slice 8 10 ?s = pad2 d" "slice 11 13 ?s = pad2 h" "slice 14 16 ?s = pad2 mi" "slice 17 19 ?s = pad2 sec"
    by (simp_all add: rfc3339_def pad2_def slice_def)
  ultimately show ?thesis
    using assms unfolding parse_rfc3339_def Let_def
    by (simp add: parse_i64_pad2 parse_i64_pad4 valid_date_def del: slice_0)
qed

lemma parse_digits_bound: "parse_digits acc cs = Some v \<Longrightarrow> v < (acc + 1) * 10 ^ length cs"
proof (induction cs arbitrary: acc)
  case (Cons c cs)
  then obtain d where d: "dec_digit c = Some d" "parse_digits (10 * acc + d) cs = Some v"
    by (auto split: option.splits)
  then have "d \<le> 9" by (auto simp: dec_digit_def Let_def split: if_splits)
  then have "(10 * acc + d + 1) * 10 ^ length cs \<le> (10 * acc + 10) * 10 ^ length cs" by (intro mult_right_mono) simp_all
  from less_le_trans [OF Cons.IH [OF d(2)] this] show ?case by (simp add: algebra_simps)
qed simp

lemma parse_i64_bound:
  assumes "parse_i64 s = Some v" shows "\<bar>v\<bar> < 10 ^ length s"
proof -
  have *: "int n < 10 ^ length s" if "parse_nat cs = Some n" "length cs \<le> length s" for cs n
  proof -
    have "n < 10 ^ length cs" using that parse_digits_bound [of 0 cs n] by (auto simp: parse_nat_def split: if_splits)
    also have "\<dots> \<le> 10 ^ length s" using that by (simp add: power_increasing)
    finally show ?thesis by (metis of_nat_less_iff of_nat_numeral of_nat_power)
  qed
  from assms show ?thesis
    unfolding parse_i64_def strip_plus_def
    by (auto dest!: * split: option.splits if_splits)
qed

lemma days_from_civil_bounds:
  assumes "\<bar>y\<bar> < 10000" "1 \<le> m" "m \<le> 12" "1 \<le> d" "d \<le> 31"
  shows "\<bar>days_from_civil y m d\<bar> < 5000000"
proof -
  have div: "\<bar>z div k\<bar> \<le> 10000" if "\<bar>z\<bar> \<le> 10000" "0 < k" for z k :: int
    using that zdiv_mono1 [of "- 10000" z k] zdiv_mono1 [of z 10000 k]
      zdiv_mono2 [of 10000 1 k] zdiv_mono2_neg [of "- 10000" 1 k]
    by (simp add: abs_le_iff)
  define z e where "z = (if m \<le> 2 then y - 1 else y)" "e = (153 * ((m + 9) mod 12) + 2) div 5"
  have z: "\<bar>z\<bar> \<le> 10000" using assms unfolding z_e_def by auto
  define a b c where "a = z div 4" "b = z div 100" "c = z div 400"
  have "\<bar>a\<bar> \<le> 10000" "\<bar>b\<bar> \<le> 10000" "\<bar>c\<bar> \<le> 10000" unfolding a_b_c_def by (simp_all add: div z)
  moreover have "0 \<le> (m + 9) mod 12" "(m + 9) mod 12 \<le> 11" using pos_mod_bound [of 12 "m + 9"] by simp_all
  then have "0 \<le> e" "e \<le> (153 * 11 + 2) div 5"
    unfolding z_e_def by (simp_all add: zdiv_mono1 pos_imp_zdiv_nonneg_iff)
  moreover have "days_from_civil y m d = 365 * z + a - b + c + e + d - 719469"
    unfolding days_from_civil_closed [OF assms(2,3)] march_years_def z_e_def [symmetric] a_b_c_def ..
  ultimately show ?thesis using assms z by linarith
qed

lemma parse_rfc3339_Inr:
  assumes "parse_rfc3339 s = Inr t"
  obtains y mo d h mi sec where "length s = 20"
    "parse_i64 (slice 0 4 s) = Some y" "parse_i64 (slice 5 7 s) = Some mo" "parse_i64 (slice 8 10 s) = Some d"
    "parse_i64 (slice 11 13 s) = Some h" "parse_i64 (slice 14 16 s) = Some mi" "parse_i64 (slice 17 19 s) = Some sec"
    "valid_date y mo d" "h \<le> 23" "mi \<le> 59" "sec \<le> 60"
    "t = days_from_civil y mo d * 86400 + h * 3600 + mi * 60 + sec"
  using assms unfolding parse_rfc3339_def Let_def
  by (auto simp: result_simps valid_date_def not_less not_le simp del: slice_0 split: if_splits)

lemma days_in_month_le: "days_in_month y m \<le> 31"
  by (simp add: days_in_month_def)

lemma parse_rfc3339_bounds:
  assumes "parse_rfc3339 s = Inr t" shows "\<bar>t\<bar> < 2 ^ 40"
  using assms
proof (rule parse_rfc3339_Inr)
  fix y mo d h mi sec
  assume len: "length s = 20" and f: "parse_i64 (slice 0 4 s) = Some y" "parse_i64 (slice 11 13 s) = Some h"
    "parse_i64 (slice 14 16 s) = Some mi" "parse_i64 (slice 17 19 s) = Some sec"
    and v: "valid_date y mo d" and t: "t = days_from_civil y mo d * 86400 + h * 3600 + mi * 60 + sec"
  have "\<bar>y\<bar> < 10000" "\<bar>h\<bar> < 100" "\<bar>mi\<bar> < 100" "\<bar>sec\<bar> < 100"
    using f [THEN parse_i64_bound] len by simp_all
  moreover from this(1) have "\<bar>days_from_civil y mo d\<bar> < 5000000"
    by (rule days_from_civil_bounds) (use v days_in_month_le [of y mo] in \<open>auto simp: valid_date_def\<close>)
  ultimately show ?thesis using t by simp
qed

lemmas date_eval = valid_date_def next_date_def days_in_month_def is_leap_year_dvd days_from_civil_closed march_years_def

section \<open>Properties\<close>

text \<open>
  C31: \<^verbatim>\<open>days_from_civil\<close> counts the days of the proleptic Gregorian calendar: 1970-01-01 is day 0,
  and for every year and every date that exists in it, the following date of the calendar, which
  exists too, has the next number.
\<close>

theorem days_from_civil_counts_days:
  "days_from_civil 1970 1 1 = 0 \<and>
   (valid_date y m d \<longrightarrow> (case next_date y m d of (y', m', d') \<Rightarrow>
      valid_date y' m' d' \<and> days_from_civil y' m' d' = days_from_civil y m d + 1))"
  using next_date_valid [of y m d] days_from_civil_next [of y m d]
  by (auto simp: days_from_civil_epoch split: prod.splits)

theorem days_from_civil_counts_days_witness:
  "valid_date 2024 2 29 \<and> next_date 2024 2 29 = (2024, 3, 1)
   \<and> days_from_civil 2024 3 1 = days_from_civil 2024 2 29 + 1"
proof -
  have "valid_date 2024 2 29" "next_date 2024 2 29 = (2024, 3, 1)" by (simp_all add: date_eval)
  then show ?thesis using days_from_civil_counts_days [of 2024 2 29] by simp
qed

text \<open>
  C32: On every timestamp of the shape the authority emits (\<open>rfc3339\<close> prints the six fields, each in
  range or not), \<^verbatim>\<open>parse_rfc3339\<close> accepts exactly those that name an existing date and a time of
  day, with a leap second allowed, and returns their Unix time; every other one is an error that
  carries the timestamp. In particular 29 February of a common year and 31 April are refused.
\<close>

theorem parse_rfc3339_correct:
  assumes "y < 10000" "mo < 100" "d < 100" "h < 100" "mi < 100" "sec < 100"
  shows "parse_rfc3339 (rfc3339 y mo d h mi sec) =
    (if valid_date (int y) (int mo) (int d) \<and> h \<le> 23 \<and> mi \<le> 59 \<and> sec \<le> 60
     then Inr (days_from_civil (int y) (int mo) (int d) * 86400 + int h * 3600 + int mi * 60 + int sec)
     else Inl (Registry (BadTimestamp (rfc3339 y mo d h mi sec))))"
  using assms by (rule parse_rfc3339_print)

theorem parse_rfc3339_correct_witness:
  "parse_rfc3339 (rfc3339 2026 10 7 14 30 0) = Inr 1791383400
   \<and> parse_rfc3339 (rfc3339 2026 2 29 0 0 0) = Inl (Registry (BadTimestamp (rfc3339 2026 2 29 0 0 0)))"
proof -
  have "valid_date 2026 10 7" "\<not> valid_date 2026 2 29"
    "days_from_civil 2026 10 7 * 86400 + 14 * 3600 + 30 * 60 = 1791383400"
    by (simp_all add: date_eval)
  then show ?thesis
    using parse_rfc3339_correct [of 2026 10 7 14 30 0] parse_rfc3339_correct [of 2026 2 29 0 0 0] by simp
qed

text \<open>
  The parser is wider than its comment: the fields are read with \<^verbatim>\<open>str::parse\<close>, which takes a
  sign, and only upper bounds are checked on the time of day. A timestamp whose hour field is \<open>-1\<close>
  is accepted and names an instant of the day before.
\<close>

lemma parse_rfc3339_accepts_signs:
  "parse_rfc3339 ''2026-10-07T-1:00:00Z'' = parse_rfc3339 (rfc3339 2026 10 6 23 0 0)
   \<and> parse_rfc3339 ''2026-10-07T-1:00:00Z'' = Inr 1791327600"
proof -
  have "parse_rfc3339 ''2026-10-07T-1:00:00Z'' = Inr 1791327600"
    by (simp add: parse_rfc3339_def slice_def parse_i64_def parse_nat_def strip_plus_def dec_digit_def of_char_def date_eval)
  moreover have "parse_rfc3339 (rfc3339 2026 10 6 23 0 0) = Inr 1791327600"
    by (subst parse_rfc3339_print) (simp_all add: date_eval)
  ultimately show ?thesis by simp
qed

end
