(* ===== verification/Net_Addr.thy ===== *)
theory Net_Addr
  imports Cells
begin

text \<open>
  The textual form of IP and socket addresses as \<^verbatim>\<open>core::net\<close> parses it, which is how the
  registry's address literals and the relay's listen addresses enter the program. A parser
  consumes a prefix of the string or fails without consuming anything.
\<close>

section \<open>Numbers and separators\<close>

definition radix_digit :: "nat \<Rightarrow> char \<Rightarrow> nat option" where
  "radix_digit radix c =
     (case hex_digit (word_of_nat (of_char c)) of
        Some d \<Rightarrow> if d < radix then Some d else None | None \<Rightarrow> None)"

fun read_digits :: "nat \<Rightarrow> nat option \<Rightarrow> nat \<Rightarrow> nat \<Rightarrow> string \<Rightarrow> (nat \<times> nat \<times> string) option" where
  "read_digits radix maxd acc count [] = Some (acc, count, [])"
| "read_digits radix maxd acc count (c # cs) =
     (case radix_digit radix c of
        None \<Rightarrow> Some (acc, count, c # cs)
      | Some d \<Rightarrow>
          if (case maxd of None \<Rightarrow> False | Some m \<Rightarrow> m < Suc count) then None
          else read_digits radix maxd (radix * acc + d) (Suc count) cs)"

definition read_number :: "nat \<Rightarrow> nat option \<Rightarrow> bool \<Rightarrow> nat \<Rightarrow> string \<Rightarrow> (nat \<times> string) option" where
  "read_number radix maxd allow_zero_prefix bound s =
     (case read_digits radix maxd 0 0 s of
        None \<Rightarrow> None
      | Some (v, count, rest) \<Rightarrow>
          if count = 0 then None
          else if \<not> allow_zero_prefix \<and> take 1 s = ''0'' \<and> 1 < count then None
          else if v < bound then Some (v, rest) else None)"

fun read_given_char :: "char \<Rightarrow> string \<Rightarrow> string option" where
  "read_given_char c [] = None"
| "read_given_char c (x # xs) = (if x = c then Some xs else None)"

definition read_separator :: "char \<Rightarrow> nat \<Rightarrow> (string \<Rightarrow> ('a \<times> string) option) \<Rightarrow> string \<Rightarrow> ('a \<times> string) option" where
  "read_separator sep index inner s =
     (if 0 < index then Option.bind (read_given_char sep s) inner else inner s)"

section \<open>Addresses\<close>

definition read_octet :: "string \<Rightarrow> (nat \<times> string) option" where
  "read_octet = read_number 10 (Some 3) False 256"

definition read_ipv4_addr :: "string \<Rightarrow> (bytes \<times> string) option" where
  "read_ipv4_addr s =
     Option.bind (read_separator CHR ''.'' 0 read_octet s) (\<lambda>(a, s).
     Option.bind (read_separator CHR ''.'' 1 read_octet s) (\<lambda>(b, s).
     Option.bind (read_separator CHR ''.'' 2 read_octet s) (\<lambda>(c, s).
     Option.bind (read_separator CHR ''.'' 3 read_octet s) (\<lambda>(d, s).
       Some (map word_of_nat [a, b, c, d], s)))))"

text \<open>
  \<open>read_groups limit i n\<close> reads the groups \<open>i\<close>, \<open>i + 1\<close>, \<dots> of the \<open>n\<close> that are left of
  \<open>limit\<close>: the bytes read, how many groups they are, and whether they end in an IPv4 address.
\<close>

fun read_groups :: "nat \<Rightarrow> nat \<Rightarrow> nat \<Rightarrow> string \<Rightarrow> (bytes \<times> nat \<times> bool) \<times> string" where
  "read_groups limit i 0 s = (([], i, False), s)"
| "read_groups limit i (Suc n) s =
     (case (if i < limit - 1 then read_separator CHR '':'' i read_ipv4_addr s else None) of
        Some (v4, rest) \<Rightarrow> ((v4, i + 2, True), rest)
      | None \<Rightarrow>
          (case read_separator CHR '':'' i (read_number 16 (Some 4) True 65536) s of
             Some (g, rest) \<Rightarrow>
               (case read_groups limit (Suc i) n rest of
                  ((bs, k, v4), rest') \<Rightarrow> ((to_be16 (word_of_nat g) @ bs, k, v4), rest'))
           | None \<Rightarrow> (([], i, False), s)))"

definition read_ipv6_addr :: "string \<Rightarrow> (bytes \<times> string) option" where
  "read_ipv6_addr s =
     (case read_groups 8 0 8 s of
        ((head, head_size, head_ipv4), s) \<Rightarrow>
          if head_size = 8 then Some (head, s)
          else if head_ipv4 then None
          else
            Option.bind (read_given_char CHR '':'' s) (\<lambda>s.
            Option.bind (read_given_char CHR '':'' s) (\<lambda>s.
              (let limit = 8 - (head_size + 1) in
               case read_groups limit 0 limit s of
                 ((tail, tail_size, _), s) \<Rightarrow>
                   Some (head @ replicate (16 - length head - length tail) 0 @ tail, s)))))"

definition read_ip_addr :: "string \<Rightarrow> (IpAddr \<times> string) option" where
  "read_ip_addr s =
     (case read_ipv4_addr s of
        Some (v4, rest) \<Rightarrow> Some (V4 v4, rest)
      | None \<Rightarrow> map_option (\<lambda>(v6, rest). (V6 v6, rest)) (read_ipv6_addr s))"

text \<open>\<^verbatim>\<open>s.parse::<IpAddr>()\<close>: the whole string has to be consumed.\<close>

definition parse_ip :: "string \<Rightarrow> IpAddr option" where
  "parse_ip s = (case read_ip_addr s of Some (ip, []) \<Rightarrow> Some ip | _ \<Rightarrow> None)"

definition read_port :: "string \<Rightarrow> (u16 \<times> string) option" where
  "read_port s =
     Option.bind (read_given_char CHR '':'' s) (\<lambda>s.
       map_option (\<lambda>(p, rest). (word_of_nat p, rest)) (read_number 10 None True 65536 s))"

definition read_scope_id :: "string \<Rightarrow> (u32 \<times> string) option" where
  "read_scope_id s =
     Option.bind (read_given_char CHR ''%'' s) (\<lambda>s.
       map_option (\<lambda>(p, rest). (word_of_nat p, rest)) (read_number 10 None True (2 ^ 32) s))"

definition read_socket_addr :: "string \<Rightarrow> (SocketAddr \<times> string) option" where
  "read_socket_addr s =
     (case Option.bind (read_ipv4_addr s) (\<lambda>(ip, s). map_option (\<lambda>(p, s). (SockV4 ip p, s)) (read_port s)) of
        Some r \<Rightarrow> Some r
      | None \<Rightarrow>
          Option.bind (read_given_char CHR ''['' s) (\<lambda>s.
          Option.bind (read_ipv6_addr s) (\<lambda>(ip, s).
            (let (scope, s) = (case read_scope_id s of Some (v, s') \<Rightarrow> (v, s') | None \<Rightarrow> (0, s)) in
             Option.bind (read_given_char CHR '']'' s) (\<lambda>s.
               map_option (\<lambda>(p, s). (SockV6 ip p 0 scope, s)) (read_port s))))))"

definition parse_socket :: "string \<Rightarrow> SocketAddr option" where
  "parse_socket s = (case read_socket_addr s of Some (a, []) \<Rightarrow> Some a | _ \<Rightarrow> None)"

section \<open>Results are well formed\<close>

lemma read_ipv4_length: "read_ipv4_addr s = Some r \<Longrightarrow> length (fst r) = 4"
  by (auto simp: read_ipv4_addr_def bind_eq_Some_conv)

lemma read_groups_length:
  assumes "read_groups limit i n s = ((bs, k, v4), rest)" "n = limit - i" "i \<le> limit"
  shows "k \<le> limit \<and> length bs = 2 * (k - i) \<and> i \<le> k"
  using assms
proof (induction limit i n s arbitrary: bs k v4 rest rule: read_groups.induct)
  case (2 limit i n s)
  show ?case
  proof (cases "if i < limit - 1 then read_separator CHR '':'' i read_ipv4_addr s else None")
    case (Some r)
    then have "i < limit - 1" "length (fst r) = 4"
      by (auto simp: read_separator_def bind_eq_Some_conv dest!: read_ipv4_length split: if_splits)
    moreover have "bs = fst r" "k = i + 2" using Some "2.prems"(1) by (auto split: prod.splits)
    ultimately show ?thesis using "2.prems"(2,3) by auto
  next
    case none: None
    show ?thesis
    proof (cases "read_separator CHR '':'' i (read_number 16 (Some 4) True 65536) s")
      case None
      then have "bs = []" "k = i" using none "2.prems"(1) by auto
      then show ?thesis using "2.prems"(3) by simp
    next
      case (Some gr)
      obtain g r where gr: "gr = (g, r)" by (cases gr)
      obtain bs' k' v' rest' where rec: "read_groups limit (Suc i) n r = ((bs', k', v'), rest')"
        by (metis prod.exhaust)
      have "k' \<le> limit \<and> length bs' = 2 * (k' - Suc i) \<and> Suc i \<le> k'"
        using "2.IH" [OF none Some gr [symmetric] rec] "2.prems"(2,3) by simp
      moreover have "bs = to_be16 (word_of_nat g) @ bs'" "k = k'"
        using "2.prems"(1) none Some gr rec by (simp_all del: One_nat_def)
      ultimately show ?thesis by auto
    qed
  qed
qed simp

lemma read_ipv6_length: "read_ipv6_addr s = Some r \<Longrightarrow> length (fst r) = 16"
proof -
  assume r: "read_ipv6_addr s = Some r"
  obtain head hs h4 s1 where g: "read_groups 8 0 8 s = ((head, hs, h4), s1)" by (metis prod.exhaust)
  note h = read_groups_length [OF g, simplified]
  show ?thesis
  proof (cases "hs = 8")
    case True
    then show ?thesis using r g h by (auto simp: read_ipv6_addr_def)
  next
    case False
    define lim where "lim = 8 - (hs + 1)"
    from r g False obtain x where x:
      "fst r = (let t = fst (fst (read_groups lim 0 lim x)) in head @ replicate (16 - length head - length t) 0 @ t)"
      by (auto simp: read_ipv6_addr_def Let_def lim_def bind_eq_Some_conv case_prod_beta simp del: diff_diff_left
          split: if_splits)
    obtain t k v y where t: "read_groups lim 0 lim x = ((t, k, v), y)" by (metis prod.exhaust)
    have "length t \<le> 2 * lim" using read_groups_length [OF t] by simp
    then show ?thesis using x t h False by (auto simp: lim_def)
  qed
qed

lemma parse_ip_wf: "parse_ip s = Some ip \<Longrightarrow> wf_ip ip"
  by (auto simp: parse_ip_def read_ip_addr_def dest!: read_ipv4_length read_ipv6_length
      split: option.splits list.splits)

lemma parse_socket_wf: "parse_socket s = Some a \<Longrightarrow> wf_ip (sock_ip a)"
  by (auto simp: parse_socket_def read_socket_addr_def bind_eq_Some_conv
      dest!: read_ipv4_length read_ipv6_length split: option.splits list.splits prod.splits)

section \<open>Evaluation\<close>

lemma radix_digit_of_char:
  "radix_digit radix c = (let v = of_char c;
     d = (if 48 \<le> v \<and> v \<le> 57 then v - 48 else if 97 \<le> v \<and> v \<le> 102 then v - 87
          else if 65 \<le> v \<and> v \<le> 70 then v - 55 else radix) in if d < radix then Some d else None)"
  by (simp add: radix_digit_def hex_digit_def Let_def unat_byte_of_nat)

lemma read_groups_numeral:
  "read_groups limit i (numeral k) s =
     (case (if i < limit - 1 then read_separator CHR '':'' i read_ipv4_addr s else None) of
        Some (v4, rest) \<Rightarrow> ((v4, i + 2, True), rest)
      | None \<Rightarrow>
          (case read_separator CHR '':'' i (read_number 16 (Some 4) True 65536) s of
             Some (g, rest) \<Rightarrow>
               (case read_groups limit (Suc i) (pred_numeral k) rest of
                  ((bs, j, v4), rest') \<Rightarrow> ((to_be16 (word_of_nat g) @ bs, j, v4), rest'))
           | None \<Rightarrow> (([], i, False), s)))"
  by (simp only: numeral_eq_Suc read_groups.simps)

lemmas parse_eval = parse_ip_def read_ip_addr_def read_ipv4_addr_def read_ipv6_addr_def read_octet_def
  read_number_def read_separator_def radix_digit_of_char of_char_def to_be16_def to_ipv6_mapped_def
  mapped_prefix_def Let_def read_groups_numeral

end
