(* ===== verification/Registry.thy ===== *)
theory Registry
  imports Calendar Net_Addr "HOL-Library.List_Lexorder" "HOL-Library.Char_ord"
begin

text \<open>
  The signed relay registry (\<^verbatim>\<open>quiethop-crypto/src/registry.rs\<close>): pinned keys, the envelope, the
  verifier and the document it returns. The libraries the module calls are the fields of a
  record \<open>reg_env\<close>: base64, JSON decoding of the three formats and encoding of the state file,
  SHA-256, and Ed25519 key decoding and strict verification. \<open>now_unix + 60\<close> is an \<^verbatim>\<open>i64\<close>
  addition, which wraps in a release build.
\<close>

section \<open>Data\<close>

record RelayEntry =
  relay_id :: string
  operator_id :: string
  host_id :: string
  relay_role :: string
  relay_ip :: string
  relay_port :: u16
  tls_name :: string
  static_pubkey :: string

record Document =
  version :: int
  valid_after :: string
  fresh_until :: string
  valid_until :: string
  relays :: "RelayEntry list"

record SignatureEntry =
  sig_key_id :: string
  sig :: string

record Envelope =
  env_document :: string
  signatures :: "SignatureEntry list"

record PinnedKey =
  key_id :: string
  pk_key :: bytes

record RegistryState =
  highest_version :: int
  document_b64 :: string
  state_key_ids :: "string list"
  envelope_b64 :: "string option"

record Verified =
  ver_document :: Document
  ver_bytes :: bytes
  ver_key_ids :: "string list"

record reg_env =
  b64_decode :: "string \<Rightarrow> bytes option"
  b64_encode :: "bytes \<Rightarrow> string"
  json_envelope :: "bytes \<Rightarrow> Envelope option"
  json_document :: "bytes \<Rightarrow> Document option"
  json_state :: "bytes \<Rightarrow> RegistryState option"
  json_of_state :: "RegistryState \<Rightarrow> bytes option"
  sha256 :: "bytes \<Rightarrow> bytes"
  ed_key_ok :: "bytes \<Rightarrow> bool"
  verify_strict :: "bytes \<Rightarrow> bytes \<Rightarrow> bytes \<Rightarrow> bool"

definition DOMAIN :: bytes where
  "DOMAIN = as_bytes ''quiethop/v1/registry''"

definition SKEW_ALLOWANCE_SECS :: int where
  "SKEW_ALLOWANCE_SECS = 60"

definition DEFAULT_THRESHOLD :: nat where
  "DEFAULT_THRESHOLD = 1"

definition SIGNATURE_LENGTH :: nat where
  "SIGNATURE_LENGTH = 64"

definition i64_add :: "int \<Rightarrow> int \<Rightarrow> int" where
  "i64_add a b = (a + b + 2 ^ 63) mod 2 ^ 64 - 2 ^ 63"

section \<open>Keys, addresses and hexadecimal\<close>

definition nibble :: "nat \<Rightarrow> char" where
  "nibble v = hex_char v"

definition hex_byte :: "byte \<Rightarrow> string" where
  "hex_byte b = [nibble (unat b div 16), nibble (unat b mod 16)]"

definition key_id_for :: "reg_env \<Rightarrow> bytes \<Rightarrow> string" where
  "key_id_for E raw = concat (map hex_byte (take 8 (sha256 E raw)))"

fun hex_pair :: "bytes \<Rightarrow> byte option" where
  "hex_pair [a, b] =
     Option.bind (hex_digit a) (\<lambda>hi. Option.bind (hex_digit b) (\<lambda>lo. Some (word_of_nat (hi * 16 + lo))))"
| "hex_pair _ = None"

fun hex_pairs :: "bytes list \<Rightarrow> bytes option" where
  "hex_pairs [] = Some []"
| "hex_pairs (p # ps) =
     Option.bind (hex_pair p) (\<lambda>b. Option.bind (hex_pairs ps) (\<lambda>bs. Some (b # bs)))"

definition decode_hex :: "string \<Rightarrow> bytes option" where
  "decode_hex s = (if length s mod 2 \<noteq> 0 then None else hex_pairs (chunks 2 (as_bytes s)))"

definition decode_hex32 :: "string \<Rightarrow> bytes option" where
  "decode_hex32 s = (if length s \<noteq> 64 then None else hex_pairs (chunks 2 (as_bytes s)))"

definition pinned_from_bytes :: "reg_env \<Rightarrow> bytes \<Rightarrow> RegistryError + PinnedKey" where
  "pinned_from_bytes E raw =
     (if ed_key_ok E raw then Inr \<lparr>key_id = key_id_for E raw, pk_key = raw\<rparr> else Inl (InvalidKey KeyBytes))"

definition pinned_from_hex :: "reg_env \<Rightarrow> string \<Rightarrow> RegistryError + PinnedKey" where
  "pinned_from_hex E hex = and_then (ok_or (InvalidKey KeyHex) (decode_hex32 hex)) (pinned_from_bytes E)"

definition signed_message :: "bytes \<Rightarrow> bytes" where
  "signed_message document = DOMAIN @ [0] @ document"

definition canonical_ip :: "IpAddr \<Rightarrow> IpAddr" where
  "canonical_ip ip = to_canonical ip"

definition canonical_addr :: "SocketAddr \<Rightarrow> SocketAddr" where
  "canonical_addr a = sock_new (canonical_ip (sock_ip a)) (sock_port a)"

definition ip_addr :: "RelayEntry \<Rightarrow> RegistryError + IpAddr" where
  "ip_addr e = and_then (ok_or (Registry NoIpLiteral) (parse_ip (relay_ip e))) (\<lambda>ip. Inr (canonical_ip ip))"

definition entry_addr :: "RelayEntry \<Rightarrow> RegistryError + SocketAddr" where
  "entry_addr e =
     and_then (ip_addr e) (\<lambda>ip.
       if relay_port e = 0 then Inl (Registry PortZero) else Inr (sock_new ip (relay_port e)))"

definition static_key :: "RelayEntry \<Rightarrow> RegistryError + bytes" where
  "static_key e =
     and_then (ok_or (Registry PubkeyNotHex) (decode_hex (static_pubkey e))) (\<lambda>raw.
       if length raw = STATIC_KEY_LEN then Inr raw else Inl (Registry PubkeyLength))"

section \<open>The document's times\<close>

definition valid_after_unix :: "Document \<Rightarrow> RegistryError + int" where
  "valid_after_unix d = parse_rfc3339 (valid_after d)"

definition fresh_until_unix :: "Document \<Rightarrow> RegistryError + int" where
  "fresh_until_unix d = parse_rfc3339 (fresh_until d)"

definition valid_until_unix :: "Document \<Rightarrow> RegistryError + int" where
  "valid_until_unix d = parse_rfc3339 (valid_until d)"

definition is_usable_at :: "Document \<Rightarrow> int \<Rightarrow> RegistryError + bool" where
  "is_usable_at d now_unix =
     and_then (valid_after_unix d) (\<lambda>after. and_then (valid_until_unix d) (\<lambda>until.
       Inr (i64_add now_unix SKEW_ALLOWANCE_SECS \<ge> after \<and> now_unix < until)))"

section \<open>Verification\<close>

text \<open>The loop over the signatures: one entry either adds the pinned key's id or is skipped.\<close>

definition accept_signature :: "reg_env \<Rightarrow> PinnedKey list \<Rightarrow> bytes \<Rightarrow> SignatureEntry \<Rightarrow> string set \<Rightarrow> string set" where
  "accept_signature E pinned msg entry accepted =
     (case find (\<lambda>p. key_id p = sig_key_id entry) pinned of
        None \<Rightarrow> accepted
      | Some pin \<Rightarrow>
          (case b64_decode E (sig entry) of
             None \<Rightarrow> accepted
           | Some raw \<Rightarrow>
               if length raw \<noteq> SIGNATURE_LENGTH then accepted
               else if verify_strict E (pk_key pin) msg raw then insert (key_id pin) accepted
               else accepted))"

definition accepted_keys :: "reg_env \<Rightarrow> PinnedKey list \<Rightarrow> bytes \<Rightarrow> SignatureEntry list \<Rightarrow> string set" where
  "accepted_keys E pinned msg entries = fold (accept_signature E pinned msg) entries {}"

definition check_validity :: "Document \<Rightarrow> int \<Rightarrow> RegistryError + unit" where
  "check_validity doc now_unix =
     and_then (parse_rfc3339 (valid_after doc)) (\<lambda>after.
     and_then (parse_rfc3339 (valid_until doc)) (\<lambda>until.
       if until \<le> after then Inl (Registry UntilNotAfterAfter)
       else if after smod 3600 \<noteq> 0 then Inl (Registry (NotOnTheHour (valid_after doc)))
       else (let expected = after sdiv 3600 in
         if version doc \<noteq> expected then Inl (Registry (VersionMismatch (version doc) (valid_after doc) expected))
         else if i64_add now_unix SKEW_ALLOWANCE_SECS < after then Inl (Registry (NotYetValid (valid_after doc)))
         else if now_unix \<ge> until then Inl (Registry (Expired (valid_until doc)))
         else Inr ())))"

definition check_rollback :: "reg_env \<Rightarrow> Document \<Rightarrow> bytes \<Rightarrow> RegistryState option \<Rightarrow> RegistryError + unit" where
  "check_rollback E doc bs previous =
     (case previous of
        None \<Rightarrow> Inr ()
      | Some prev \<Rightarrow>
          if version doc < highest_version prev
          then Inl (Registry (Rollback (version doc) (highest_version prev)))
          else if version doc = highest_version prev
          then and_then (ok_or (State StoredNotBase64) (b64_decode E (document_b64 prev))) (\<lambda>stored.
                 if stored \<noteq> bs then Inl (Equivocation (version doc)) else Inr ())
          else Inr ())"

definition verify :: "reg_env \<Rightarrow> bytes \<Rightarrow> PinnedKey list \<Rightarrow> nat \<Rightarrow> int \<Rightarrow> RegistryState option \<Rightarrow> RegistryError + Verified" where
  "verify E body pinned threshold now_unix previous =
     (if threshold = 0 then Inl (Registry ThresholdZero)
      else
      and_then (ok_or (Registry NotAnEnvelope) (json_envelope E body)) (\<lambda>envelope.
      and_then (ok_or (Registry DocumentNotBase64) (b64_decode E (env_document envelope))) (\<lambda>bs.
        (let msg = signed_message bs; accepted = accepted_keys E pinned msg (signatures envelope) in
         if card accepted < threshold then Inl (Registry (TooFewSignatures (card accepted) threshold))
         else
         and_then (ok_or (Registry DocumentDoesNotParse) (json_document E bs)) (\<lambda>document.
         and_then (check_validity document now_unix) (\<lambda>_.
         and_then (check_rollback E document bs previous) (\<lambda>_.
           Inr \<lparr>ver_document = document, ver_bytes = bs, ver_key_ids = sorted_list_of_set accepted\<rparr>)))))))"

section \<open>What acceptance means\<close>

definition clock_ok :: "int \<Rightarrow> bool" where
  "clock_ok now \<longleftrightarrow> \<bar>now\<bar> < 2 ^ 62"

lemma i64_add_skew: "clock_ok now \<Longrightarrow> i64_add now SKEW_ALLOWANCE_SECS = now + 60"
  by (simp add: i64_add_def clock_ok_def SKEW_ALLOWANCE_SECS_def)

definition signs :: "reg_env \<Rightarrow> PinnedKey list \<Rightarrow> bytes \<Rightarrow> SignatureEntry \<Rightarrow> PinnedKey \<Rightarrow> bool" where
  "signs E pinned msg entry pin \<longleftrightarrow> find (\<lambda>p. key_id p = sig_key_id entry) pinned = Some pin
     \<and> (case b64_decode E (sig entry) of None \<Rightarrow> False
        | Some raw \<Rightarrow> length raw = SIGNATURE_LENGTH \<and> verify_strict E (pk_key pin) msg raw)"

lemma accept_signature_signs:
  "accept_signature E pinned msg e K = K \<union> {key_id p | p. signs E pinned msg e p}"
  by (auto simp: accept_signature_def signs_def split: option.splits)

lemma accepted_keys_signs:
  "accepted_keys E pinned msg es = {key_id p | p e. e \<in> set es \<and> signs E pinned msg e p}"
proof -
  have "fold (accept_signature E pinned msg) es K = K \<union> {key_id p | p e. e \<in> set es \<and> signs E pinned msg e p}" for K
    by (induction es arbitrary: K) (auto simp: accept_signature_signs)
  then show ?thesis by (simp add: accepted_keys_def)
qed

lemma accepted_keys_cong:
  assumes "b64_decode E = b64_decode F" "verify_strict E = verify_strict F"
  shows "accepted_keys E = accepted_keys F"
proof -
  have "signs E = signs F" using assms by (intro ext) (simp add: signs_def split: option.split)
  then show ?thesis by (intro ext) (simp add: accepted_keys_signs)
qed

lemma signs_pinned: "signs E pinned msg e p \<Longrightarrow> p \<in> set pinned \<and> key_id p = sig_key_id e"
  by (auto simp: signs_def find_Some_iff)

lemma signs_verifies:
  "signs E pinned msg e p \<Longrightarrow> \<exists>sg. length sg = 64 \<and> verify_strict E (pk_key p) msg sg"
  by (auto simp: signs_def SIGNATURE_LENGTH_def split: option.splits)

lemma accepted_key_signature:
  assumes "k \<in> accepted_keys E pinned msg es"
  shows "\<exists>pin \<in> set pinned. key_id pin = k \<and> (\<exists>sg. length sg = 64 \<and> verify_strict E (pk_key pin) msg sg)"
proof -
  from assms obtain p e where "signs E pinned msg e p" "k = key_id p" by (auto simp: accepted_keys_signs)
  then show ?thesis using signs_pinned [of E pinned msg e p] signs_verifies [of E pinned msg e p] by blast
qed

lemma finite_accepted_keys [simp]: "finite (accepted_keys E pinned msg es)"
proof (rule finite_subset)
  show "accepted_keys E pinned msg es \<subseteq> key_id ` set pinned"
    by (auto simp: accepted_keys_signs dest: signs_pinned)
qed simp

lemma sdiv_dvd: "0 < b \<Longrightarrow> b dvd (a :: int) \<Longrightarrow> a sdiv b * b = a"
  by (cases a "0 :: int" rule: linorder_cases) (simp_all add: signed_divide_int_def dvd_neg_div)

definition in_window :: "Document \<Rightarrow> int \<Rightarrow> bool" where
  "in_window d now \<longleftrightarrow> (case (parse_rfc3339 (valid_after d), parse_rfc3339 (valid_until d)) of
     (Inr after, Inr until) \<Rightarrow> after \<le> now + 60 \<and> now < until | _ \<Rightarrow> False)"

definition well_dated :: "Document \<Rightarrow> bool" where
  "well_dated d \<longleftrightarrow> (case (parse_rfc3339 (valid_after d), parse_rfc3339 (valid_until d)) of
     (Inr after, Inr until) \<Rightarrow> after < until \<and> after = version d * 3600 | _ \<Rightarrow> False)"

lemma check_validity_Inr:
  assumes "clock_ok now"
  shows "check_validity d now = Inr () \<longleftrightarrow> well_dated d \<and> in_window d now"
proof -
  have hour: "after smod 3600 = 0 \<and> v = after sdiv 3600 \<longleftrightarrow> after = v * 3600" for after v :: int
    using sdiv_dvd [of 3600 after] sdiv_dvd [of 3600 "v * 3600"] by (auto simp: smod_eq_0)
  show ?thesis
  proof (cases "parse_rfc3339 (valid_after d)"; cases "parse_rfc3339 (valid_until d)")
    fix after until
    assume "parse_rfc3339 (valid_after d) = Inr after" "parse_rfc3339 (valid_until d) = Inr until"
    then show ?thesis
      using hour [of after "version d"] assms
      by (auto simp: check_validity_def well_dated_def in_window_def Let_def i64_add_skew)
  qed (simp_all add: check_validity_def well_dated_def)
qed

lemma is_usable_at_Inr:
  assumes "clock_ok now" shows "is_usable_at d now = Inr True \<longleftrightarrow> in_window d now"
  using assms
  by (auto simp: is_usable_at_def valid_after_unix_def valid_until_unix_def in_window_def i64_add_skew
      result_simps split: sum.splits)

definition not_rolled_back :: "reg_env \<Rightarrow> RegistryState option \<Rightarrow> Verified \<Rightarrow> bool" where
  "not_rolled_back E previous v \<longleftrightarrow> (case previous of None \<Rightarrow> True | Some p \<Rightarrow>
     highest_version p < version (ver_document v)
     \<or> highest_version p = version (ver_document v) \<and> b64_decode E (document_b64 p) = Some (ver_bytes v))"

lemma check_rollback_Inr:
  "check_rollback E (ver_document v) (ver_bytes v) previous = Inr () \<longleftrightarrow> not_rolled_back E previous v"
  by (auto simp: check_rollback_def not_rolled_back_def result_simps split: option.splits)

definition endorsed :: "reg_env \<Rightarrow> bytes \<Rightarrow> PinnedKey list \<Rightarrow> nat \<Rightarrow> Verified \<Rightarrow> bool" where
  "endorsed E body pinned t v \<longleftrightarrow> 0 < t \<and>
     (case json_envelope E body of None \<Rightarrow> False | Some env \<Rightarrow>
        b64_decode E (env_document env) = Some (ver_bytes v)
        \<and> ver_key_ids v = sorted_list_of_set (accepted_keys E pinned (signed_message (ver_bytes v)) (signatures env))
        \<and> t \<le> length (ver_key_ids v) \<and> json_document E (ver_bytes v) = Some (ver_document v))"

lemma verify_Inr:
  assumes "clock_ok now"
  shows "verify E body pinned t now previous = Inr v \<longleftrightarrow>
    endorsed E body pinned t v \<and> well_dated (ver_document v) \<and> in_window (ver_document v) now
    \<and> not_rolled_back E previous v"
proof (cases "json_envelope E body")
  case None
  then show ?thesis by (simp add: verify_def endorsed_def)
next
  case env: (Some env)
  show ?thesis
  proof (cases "b64_decode E (env_document env)")
    case None
    with env show ?thesis by (simp add: verify_def endorsed_def)
  next
    case (Some bs)
    with env check_rollback_Inr [of E v previous] show ?thesis
      by (cases v) (auto simp: verify_def endorsed_def Let_def result_simps check_validity_Inr [OF assms] not_less)
  qed
qed

text \<open>Whatever the clock says, an accepted document is endorsed and not behind the state.\<close>

lemma verify_Inr_endorsed:
  assumes "verify E body pinned t now previous = Inr v"
  shows "endorsed E body pinned t v \<and> not_rolled_back E previous v"
proof -
  obtain env bs where "json_envelope E body = Some env" "b64_decode E (env_document env) = Some bs" "t \<noteq> 0"
    using assms by (auto simp: verify_def result_simps split: if_splits)
  then show ?thesis
    using assms check_rollback_Inr [of E v previous]
    by (cases v) (auto simp: verify_def endorsed_def Let_def result_simps not_less split: if_splits)
qed

lemma endorsed_unique: "endorsed E body pinned t v \<Longrightarrow> endorsed E body pinned t w \<Longrightarrow> v = w"
  by (cases v; cases w) (auto simp: endorsed_def split: option.splits)

section \<open>Hexadecimal round trips\<close>

lemma hex_pair_hex_byte: "hex_pair (as_bytes (hex_byte b)) = Some b"
proof -
  have "unat b div 16 < 16" using unat_byte_lt [of b] by (simp add: less_mult_imp_div_less)
  moreover have "word_of_nat (unat b div 16 * 16 + unat b mod 16) = b" by (simp only: div_mult_mod_eq) simp
  ultimately show ?thesis
    by (simp add: hex_byte_def as_bytes_def nibble_def hex_digit_hex_char del: of_nat_add of_nat_mult)
qed

lemma chunks_hex: "chunks 2 (as_bytes (concat (map hex_byte bs))) = map (\<lambda>b. as_bytes (hex_byte b)) bs"
proof (induction bs)
  case (Cons b bs)
  then show ?case using chunks_append [of "as_bytes (hex_byte b)" 2] by (simp add: as_bytes_def hex_byte_def)
qed (simp add: as_bytes_def)

lemma hex_pairs_hex: "hex_pairs (map (\<lambda>b. as_bytes (hex_byte b)) bs) = Some bs"
  by (induction bs) (simp_all add: hex_pair_hex_byte)

lemma length_hex: "length (concat (map hex_byte bs)) = 2 * length bs"
  by (induction bs) (simp_all add: hex_byte_def)

lemma decode_hex_print [simp]: "decode_hex (concat (map hex_byte bs)) = Some bs"
  by (simp add: decode_hex_def length_hex chunks_hex hex_pairs_hex)

lemma decode_hex32_print [simp]: "length bs = 32 \<Longrightarrow> decode_hex32 (concat (map hex_byte bs)) = Some bs"
  by (simp add: decode_hex32_def length_hex chunks_hex hex_pairs_hex)

lemma hex_pairs_length: "hex_pairs ps = Some bs \<Longrightarrow> length bs = length ps"
  by (induction ps arbitrary: bs) (auto simp: bind_eq_Some_conv)

section \<open>An instance of the libraries\<close>

text \<open>
  A small concrete instance, used to exhibit inputs on which the hypotheses of the properties
  hold: base64 is the identity on characters, one fixed envelope, document and state file exist,
  and every signature of the right length verifies.
\<close>

definition sample_doc :: Document where
  "sample_doc = \<lparr>version = 497606, valid_after = rfc3339 2026 10 7 14 0 0, fresh_until = rfc3339 2026 10 7 15 0 0,
     valid_until = rfc3339 2026 10 7 20 0 0, relays = []\<rparr>"

definition sample_sig :: string where
  "sample_sig = replicate 64 CHR ''s''"

definition sample_envelope :: Envelope where
  "sample_envelope = \<lparr>env_document = ''d'', signatures = [\<lparr>sig_key_id = ''k'', sig = sample_sig\<rparr>]\<rparr>"

definition sample_state :: RegistryState where
  "sample_state = \<lparr>highest_version = 497606, document_b64 = ''d'', state_key_ids = [''k''], envelope_b64 = Some ''e''\<rparr>"

definition sample_env :: reg_env where
  "sample_env = \<lparr>b64_decode = \<lambda>s. Some (as_bytes s), b64_encode = of_bytes,
     json_envelope = \<lambda>b. if b = as_bytes ''e'' then Some sample_envelope else None,
     json_document = \<lambda>b. if b = as_bytes ''d'' then Some sample_doc else None,
     json_state = \<lambda>b. if b = [1] then Some sample_state else None,
     json_of_state = \<lambda>s. if s = sample_state then Some [1] else None,
     sha256 = \<lambda>b. take 32 (b @ replicate 32 0), ed_key_ok = \<lambda>k. length k = 32,
     verify_strict = \<lambda>k m s. True\<rparr>"

definition sample_pin :: PinnedKey where
  "sample_pin = \<lparr>key_id = ''k'', pk_key = replicate 32 7\<rparr>"

definition sample_verified :: Verified where
  "sample_verified = \<lparr>ver_document = sample_doc, ver_bytes = as_bytes ''d'', ver_key_ids = [''k'']\<rparr>"

lemma sample_times:
  "parse_rfc3339 (valid_after sample_doc) = Inr 1791381600"
  "parse_rfc3339 (fresh_until sample_doc) = Inr 1791385200"
  "parse_rfc3339 (valid_until sample_doc) = Inr 1791403200"
  by (simp_all add: sample_doc_def parse_rfc3339_print date_eval)

lemma sample_accepted: "accepted_keys sample_env [sample_pin] msg (signatures sample_envelope) = {''k''}"
  by (simp add: accepted_keys_def accept_signature_def sample_envelope_def sample_pin_def sample_env_def
      sample_sig_def SIGNATURE_LENGTH_def)

lemma sample_accepts:
  "clock_ok 1791383400" "endorsed sample_env (as_bytes ''e'') [sample_pin] 1 sample_verified"
  "well_dated sample_doc" "in_window sample_doc 1791383400"
  "ver_document sample_verified = sample_doc"
proof -
  have env: "json_envelope sample_env (as_bytes ''e'') = Some sample_envelope"
    "b64_decode sample_env (env_document sample_envelope) = Some (as_bytes ''d'')"
    "json_document sample_env (as_bytes ''d'') = Some sample_doc"
    by (simp_all add: sample_env_def sample_envelope_def)
  show "endorsed sample_env (as_bytes ''e'') [sample_pin] 1 sample_verified"
    by (simp add: endorsed_def env sample_verified_def sample_accepted)
  show "clock_ok 1791383400" by (simp add: clock_ok_def)
  show "well_dated sample_doc" "in_window sample_doc 1791383400"
    by (simp_all add: well_dated_def in_window_def sample_times) (simp add: sample_doc_def)
qed (simp add: sample_verified_def)

section \<open>Properties\<close>

text \<open>
  C8: Everything \<^verbatim>\<open>verify\<close> accepts is endorsed and current. If it returns a document then at least
  \<open>threshold\<close> distinct pinned key ids, and at least one, each carry a 64-byte signature that
  verifies strictly under a pinned key over the domain label, a zero byte and exactly the bytes
  returned; the document is what those bytes parse to; the clock lies between \<open>valid_after\<close> less
  sixty seconds and \<open>valid_until\<close>; the version is the hour of \<open>valid_after\<close>; and against a stored
  state the version is higher, or equal with identical bytes.
\<close>

theorem registry_verify_sound:
  assumes "verify E body pinned t now previous = Inr v" "clock_ok now"
  shows "(\<exists>K \<subseteq> key_id ` set pinned. 0 < t \<and> t \<le> card K \<and>
      (\<forall>k \<in> K. \<exists>pin \<in> set pinned. key_id pin = k \<and>
        (\<exists>sg. length sg = 64 \<and> verify_strict E (pk_key pin) (DOMAIN @ [0] @ ver_bytes v) sg)))
    \<and> json_document E (ver_bytes v) = Some (ver_document v)
    \<and> (\<exists>after until. parse_rfc3339 (valid_after (ver_document v)) = Inr after
        \<and> parse_rfc3339 (valid_until (ver_document v)) = Inr until
        \<and> after - 60 \<le> now \<and> now < until \<and> after = 3600 * version (ver_document v))
    \<and> (\<forall>p. previous = Some p \<longrightarrow> highest_version p < version (ver_document v)
        \<or> highest_version p = version (ver_document v) \<and> b64_decode E (document_b64 p) = Some (ver_bytes v))"
proof -
  note v = assms(1) [unfolded verify_Inr [OF assms(2)]]
  then obtain env where "json_envelope E body = Some env" by (auto simp: endorsed_def split: option.splits)
  with v have env: "0 < t" "json_document E (ver_bytes v) = Some (ver_document v)"
    "t \<le> card (accepted_keys E pinned (signed_message (ver_bytes v)) (signatures env))"
    by (auto simp: endorsed_def)
  define K where "K = accepted_keys E pinned (signed_message (ver_bytes v)) (signatures env)"
  have "K \<subseteq> key_id ` set pinned" "\<forall>k \<in> K. \<exists>pin \<in> set pinned. key_id pin = k \<and>
      (\<exists>sg. length sg = 64 \<and> verify_strict E (pk_key pin) (DOMAIN @ [0] @ ver_bytes v) sg)"
    using accepted_key_signature unfolding K_def signed_message_def by blast+
  moreover have "t \<le> card K" using env by (simp add: K_def)
  ultimately have K: "\<exists>K \<subseteq> key_id ` set pinned. 0 < t \<and> t \<le> card K \<and>
      (\<forall>k \<in> K. \<exists>pin \<in> set pinned. key_id pin = k \<and>
        (\<exists>sg. length sg = 64 \<and> verify_strict E (pk_key pin) (DOMAIN @ [0] @ ver_bytes v) sg))"
    using env(1) by blast
  have "\<exists>after until. parse_rfc3339 (valid_after (ver_document v)) = Inr after
      \<and> parse_rfc3339 (valid_until (ver_document v)) = Inr until
      \<and> after - 60 \<le> now \<and> now < until \<and> after = 3600 * version (ver_document v)"
    using v by (auto simp: well_dated_def in_window_def split: sum.splits)
  with K v env(2) show ?thesis by (auto simp: not_rolled_back_def)
qed

theorem registry_verify_sound_witness:
  "verify sample_env (as_bytes ''e'') [sample_pin] 1 1791383400 None = Inr sample_verified
   \<and> (\<exists>K \<subseteq> {''k''}. 1 \<le> card K)"
proof -
  have v: "verify sample_env (as_bytes ''e'') [sample_pin] 1 1791383400 None = Inr sample_verified"
    using sample_accepts by (simp add: verify_Inr not_rolled_back_def)
  then show ?thesis
    using registry_verify_sound [OF v sample_accepts(1)] by (auto simp: sample_pin_def)
qed

text \<open>
  C9: Nothing unverified reaches the document parser. When fewer than \<open>threshold\<close> pinned keys have
  verified, the result is the signature error whatever the document decoder would do on the bytes:
  the verifier behaves the same with every decoder \<open>f\<close> in its place.
\<close>

theorem registry_verify_before_parse:
  assumes "json_envelope E body = Some env" "b64_decode E (env_document env) = Some bs" "0 < t"
    and few: "card (accepted_keys E pinned (signed_message bs) (signatures env)) < t"
  shows "verify (E\<lparr>json_document := f\<rparr>) body pinned t now previous =
    Inl (Registry (TooFewSignatures (card (accepted_keys E pinned (signed_message bs) (signatures env))) t))"
proof -
  have "accepted_keys (E\<lparr>json_document := f\<rparr>) = accepted_keys E" by (rule accepted_keys_cong) simp_all
  with assms show ?thesis by (simp add: verify_def Let_def)
qed

theorem registry_verify_before_parse_witness:
  "verify (sample_env\<lparr>json_document := \<lambda>_. None\<rparr>) (as_bytes ''e'') [sample_pin] 2 0 None =
     Inl (Registry (TooFewSignatures 1 2))"
  using registry_verify_before_parse [of sample_env "as_bytes ''e''" sample_envelope "as_bytes ''d''" 2 "[sample_pin]"]
  by (simp add: sample_accepted, simp add: sample_env_def sample_envelope_def)

lemma append_0_eq: "0 \<notin> set xs \<Longrightarrow> 0 \<notin> set ys \<Longrightarrow> xs @ [0 :: byte] @ us = ys @ [0] @ vs \<longleftrightarrow> xs = ys \<and> us = vs"
proof (induction xs arbitrary: ys)
  case Nil
  then show ?case by (cases ys) auto
next
  case (Cons x xs)
  then show ?case by (cases ys) auto
qed

text \<open>
  The signed message is unambiguous. Bytes of the form label, zero byte, message, for any label
  without a zero byte, are a registry message only if the label is the registry's domain and the
  message is the document; so a signature made in another context, or over another document, never
  covers the bytes that are checked here.
\<close>

lemma signed_message_unambiguous:
  assumes "0 \<notin> set label" "signed_message document = label @ [0] @ message"
  shows "label = DOMAIN \<and> message = document"
proof -
  have "0 \<notin> set DOMAIN" by (simp add: DOMAIN_def as_bytes_def of_char_def)
  from append_0_eq [OF this assms(1)] assms(2) show ?thesis by (simp add: signed_message_def)
qed

text \<open>
  C10: An honest document is accepted. An envelope whose document carries \<open>threshold\<close> verifying
  signatures of pinned keys, is dated by its hour, is inside its window and does not go back behind
  the stored state is returned with exactly the key ids that verified, sorted and distinct; unknown
  key ids and malformed or failing signatures beside them do not matter.
\<close>

theorem registry_verify_complete:
  assumes "clock_ok now" "0 < t" "json_envelope E body = Some env"
    and "b64_decode E (env_document env) = Some (ver_bytes v)"
    and "json_document E (ver_bytes v) = Some (ver_document v)"
    and "set (ver_key_ids v) = {key_id p | p e. e \<in> set (signatures env) \<and> signs E pinned (signed_message (ver_bytes v)) e p}"
    and "sorted (ver_key_ids v)" "distinct (ver_key_ids v)" "t \<le> length (ver_key_ids v)"
    and "well_dated (ver_document v)" "in_window (ver_document v) now" "not_rolled_back E previous v"
  shows "verify E body pinned t now previous = Inr v"
proof -
  let ?K = "accepted_keys E pinned (signed_message (ver_bytes v)) (signatures env)"
  have "set (ver_key_ids v) = ?K" using assms(6) by (simp add: accepted_keys_signs)
  then have "ver_key_ids v = sorted_list_of_set ?K"
    using assms(7,8) by (metis sorted_list_of_set.idem_if_sorted_distinct)
  with assms show ?thesis by (simp add: verify_Inr endorsed_def)
qed

theorem registry_verify_complete_witness:
  "verify sample_env (as_bytes ''e'') [sample_pin] 1 1791383400 (Some sample_state) = Inr sample_verified"
proof (rule registry_verify_complete [where env = sample_envelope])
  show "set (ver_key_ids sample_verified) = {key_id p | p e. e \<in> set (signatures sample_envelope)
    \<and> signs sample_env [sample_pin] (signed_message (ver_bytes sample_verified)) e p}"
    using sample_accepted by (simp add: accepted_keys_signs sample_verified_def)
  show "not_rolled_back sample_env (Some sample_state) sample_verified"
    by (simp add: not_rolled_back_def sample_state_def sample_verified_def sample_doc_def sample_env_def)
qed (use sample_accepts in \<open>simp_all add: sample_verified_def sample_env_def sample_envelope_def\<close>)

end
