(* ===== verification/Reg_State.thy ===== *)
theory Reg_State
  imports Registry
begin

text \<open>
  The registry state file (\<^verbatim>\<open>quiethop-crypto/src/state.rs\<close>, and \<^verbatim>\<open>remember\<close> of \<^verbatim>\<open>registry.rs\<close>). The
  file system is a map from paths to a mode and the contents. What the operating system may
  refuse is an argument: whether a read fails for another reason than a missing file, and the
  step at which a store fails. A process that dies between two steps leaves the files a failure
  of the next step leaves, so the faults also cover crashes.
\<close>

section \<open>Paths\<close>

type_synonym file_sys = "string \<Rightarrow> (nat \<times> bytes) option"

text \<open>\<^verbatim>\<open>Path::join\<close> with a relative component.\<close>

definition path_join :: "string \<Rightarrow> string \<Rightarrow> string" where
  "path_join d n = (if d = [] then n else if last d = CHR ''/'' then d @ n else d @ ''/'' @ n)"

definition state_dir :: "(string \<Rightarrow> string option) \<Rightarrow> RegistryError + string" where
  "state_dir env =
     (case env ''QUIETHOP_STATE_DIR'' of
        Some (c # cs) \<Rightarrow> Inr (c # cs)
      | _ \<Rightarrow>
          (case env ''XDG_STATE_HOME'' of
             Some (c # cs) \<Rightarrow> Inr (path_join (c # cs) ''quiethop'')
           | _ \<Rightarrow>
               and_then (ok_or (State NoStateDir) (env ''HOME'')) (\<lambda>home.
                 Inr (path_join home ''.local/state/quiethop''))))"

definition state_path :: "string \<Rightarrow> string" where
  "state_path dir = path_join dir ''registry.json''"

definition tmp_path :: "string \<Rightarrow> string" where
  "tmp_path dir = path_join dir ''registry.json.tmp''"

section \<open>Load and store\<close>

definition STATE_MODE :: nat where
  "STATE_MODE = 384"

definition load_state :: "reg_env \<Rightarrow> bool \<Rightarrow> string \<Rightarrow> file_sys \<Rightarrow> RegistryError + RegistryState option" where
  "load_state E read_fails dir fs =
     (let path = state_path dir in
      case fs path of
        None \<Rightarrow> Inr None
      | Some (mode, raw) \<Rightarrow>
          if read_fails then Inl (State (NotReadable path))
          else and_then (ok_or (State (Corrupt path)) (json_state E raw)) (\<lambda>state.
            if highest_version state \<le> 0 then Inl (State (NonPositive path)) else Inr (Some state)))"

datatype store_fault = NoFault | MkdirFails | OpenFails | WriteFails nat | SyncFails | RenameFails

definition store_state :: "reg_env \<Rightarrow> store_fault \<Rightarrow> string \<Rightarrow> RegistryState \<Rightarrow> file_sys \<Rightarrow> (RegistryError + unit) \<times> file_sys" where
  "store_state E fault dir state fs =
     (if fault = MkdirFails then (Inl (State (CannotCreate dir)), fs)
      else (let target = state_path dir; tmp = tmp_path dir in
        case json_of_state E state of
          None \<Rightarrow> (Inl (State CannotEncode), fs)
        | Some body \<Rightarrow>
            if fault = OpenFails then (Inl (State (CannotOpen tmp)), fs)
            else (let mode = (case fs tmp of None \<Rightarrow> STATE_MODE | Some (m, _) \<Rightarrow> m) in
              case fault of
                WriteFails n \<Rightarrow> (Inl (State (CannotWrite tmp)), fs(tmp \<mapsto> (mode, take n body)))
              | SyncFails \<Rightarrow> (Inl (State (CannotSync tmp)), fs(tmp \<mapsto> (mode, body)))
              | RenameFails \<Rightarrow> (Inl (State (CannotReplace target tmp)), fs(tmp \<mapsto> (mode, body)))
              | _ \<Rightarrow> (Inr (), (fs(target \<mapsto> (mode, body)))(tmp := None)))))"

definition remember :: "reg_env \<Rightarrow> bool \<Rightarrow> store_fault \<Rightarrow> string \<Rightarrow> Verified \<Rightarrow> bytes \<Rightarrow> file_sys \<Rightarrow> (RegistryError + unit) \<times> file_sys" where
  "remember E read_fails fault dir verified envelope fs =
     (let state = \<lparr>highest_version = version (ver_document verified),
                   document_b64 = b64_encode E (ver_bytes verified),
                   state_key_ids = ver_key_ids verified,
                   envelope_b64 = Some (b64_encode E envelope)\<rparr> in
      case load_state E read_fails dir fs of
        Inl e \<Rightarrow> (Inl e, fs)
      | Inr (Some prev) \<Rightarrow>
          if highest_version prev \<ge> highest_version state then (Inr (), fs)
          else store_state E fault dir state fs
      | Inr None \<Rightarrow> store_state E fault dir state fs)"

section \<open>Documented behaviour of the libraries\<close>

text \<open>
  Decoding what was encoded gives it back, for base64 and for the JSON form of the state.
\<close>

definition reg_env_laws :: "reg_env \<Rightarrow> bool" where
  "reg_env_laws E \<longleftrightarrow> (\<forall>b. b64_decode E (b64_encode E b) = Some b)
     \<and> (\<forall>s b. json_of_state E s = Some b \<longrightarrow> json_state E b = Some s)"

lemma sample_env_laws: "reg_env_laws sample_env"
  by (simp add: reg_env_laws_def sample_env_def)

section \<open>What a store leaves behind\<close>

lemma paths_differ [simp]: "state_path dir \<noteq> tmp_path dir" "tmp_path dir \<noteq> state_path dir"
  by (simp_all add: state_path_def tmp_path_def path_join_def)

text \<open>The state recorded in the file, whatever its version.\<close>

definition stored :: "reg_env \<Rightarrow> string \<Rightarrow> file_sys \<Rightarrow> RegistryState option option" where
  "stored E dir fs = map_option (\<lambda>(m, raw). json_state E raw) (fs (state_path dir))"

lemma load_state_Inr:
  "load_state E rf dir fs = Inr r \<longleftrightarrow>
     (case r of None \<Rightarrow> fs (state_path dir) = None
      | Some st \<Rightarrow> \<not> rf \<and> stored E dir fs = Some (Some st) \<and> 0 < highest_version st)"
proof (cases "fs (state_path dir)")
  case None
  then show ?thesis by (auto simp: load_state_def stored_def split: option.splits)
next
  case (Some mr)
  then show ?thesis
    by (cases mr; cases "json_state E (snd mr)"; cases r) (auto simp: load_state_def stored_def Let_def)
qed

lemma load_state_missing: "load_state E rf dir fs = Inr None \<longleftrightarrow> stored E dir fs = None"
  by (simp add: load_state_Inr stored_def)

lemma store_state_cases:
  assumes "store_state E fault dir st fs = (r, fs')" "reg_env_laws E"
  shows "r = Inr () \<and> stored E dir fs' = Some (Some st)
    \<or> (\<exists>e. r = Inl e) \<and> fs' (state_path dir) = fs (state_path dir)"
  using assms
  by (auto simp: store_state_def stored_def reg_env_laws_def Let_def
      split: option.splits store_fault.splits if_splits)

lemma stored_same: "fs' (state_path dir) = fs (state_path dir) \<Longrightarrow> stored E dir fs' = stored E dir fs"
  by (simp add: stored_def)

text \<open>The state \<^verbatim>\<open>remember\<close> writes for a verified document.\<close>

definition state_of :: "reg_env \<Rightarrow> Verified \<Rightarrow> bytes \<Rightarrow> RegistryState" where
  "state_of E v envelope = \<lparr>highest_version = version (ver_document v), document_b64 = b64_encode E (ver_bytes v),
     state_key_ids = ver_key_ids v, envelope_b64 = Some (b64_encode E envelope)\<rparr>"

lemma remember_cases:
  assumes rem: "remember E rf fault dir v body fs = (r, fs')" and laws: "reg_env_laws E"
  obtains (kept) st where "r = Inr ()" "stored E dir fs' = stored E dir fs" "stored E dir fs = Some (Some st)"
      "version (ver_document v) \<le> highest_version st"
    | (wrote) "r = Inr ()" "stored E dir fs' = Some (Some (state_of E v body))"
      "stored E dir fs = None \<or> (\<exists>st. stored E dir fs = Some (Some st) \<and> highest_version st < version (ver_document v))"
    | (failed) e where "r = Inl e" "stored E dir fs' = stored E dir fs"
proof (cases "load_state E rf dir fs")
  case (Inl e)
  with rem have "r = Inl e" "fs' = fs" by (simp_all add: remember_def)
  then show ?thesis by (intro failed) simp_all
next
  case (Inr p)
  define older where "older = (stored E dir fs = None
    \<or> (\<exists>st. stored E dir fs = Some (Some st) \<and> highest_version st < version (ver_document v)))"
  have store: thesis if "store_state E fault dir (state_of E v body) fs = (r, fs')" older
    using store_state_cases [OF that(1) laws] that(2) wrote failed stored_same [of fs' dir fs E]
    by (auto simp: older_def)
  show ?thesis
  proof (cases p)
    case None
    with Inr have older by (simp add: older_def load_state_missing)
    then show ?thesis using rem Inr None store by (simp add: remember_def Let_def state_of_def)
  next
    case (Some st)
    with Inr have st: "stored E dir fs = Some (Some st)" by (simp add: load_state_Inr)
    show ?thesis
    proof (cases "version (ver_document v) \<le> highest_version st")
      case True
      then show ?thesis using rem Inr Some st kept by (simp add: remember_def)
    next
      case False
      with st have older by (simp add: older_def)
      then show ?thesis using rem Inr Some False store by (simp add: remember_def Let_def state_of_def)
    qed
  qed
qed

section \<open>Properties\<close>

text \<open>
  C13: Storing the state is atomic. Whatever step of \<^verbatim>\<open>store\<close> fails, and wherever the process stops
  between two steps, a later \<^verbatim>\<open>load\<close> finds either exactly what it would have found before, with an
  error reported, or the complete new state, with success reported; a half-written state file is
  never read. (The version of a state that load accepts is positive.)
\<close>

theorem store_atomic:
  assumes "reg_env_laws E" "0 < highest_version state" "store_state E fault dir state fs = (r, fs')"
  shows "(r = Inr () \<and> load_state E False dir fs' = Inr (Some state))
    \<or> ((\<exists>e. r = Inl e) \<and> load_state E rf dir fs' = load_state E rf dir fs)"
proof -
  have "load_state E rf dir fs' = load_state E rf dir fs" if "fs' (state_path dir) = fs (state_path dir)"
    using that by (simp add: load_state_def)
  then show ?thesis using store_state_cases [OF assms(3,1)] assms(2) by (auto simp: load_state_Inr)
qed

theorem store_atomic_witness:
  "load_state sample_env False ''d'' (snd (store_state sample_env NoFault ''d'' sample_state Map.empty)) = Inr (Some sample_state)
   \<and> load_state sample_env False ''d'' (snd (store_state sample_env (WriteFails 0) ''d'' sample_state Map.empty)) = Inr None"
proof -
  have pos: "0 < highest_version sample_state" by (simp add: sample_state_def)
  have "fst (store_state sample_env NoFault ''d'' sample_state Map.empty) = Inr ()"
    "fst (store_state sample_env (WriteFails 0) ''d'' sample_state Map.empty) = Inl (State (CannotWrite (tmp_path ''d'')))"
    "load_state sample_env False ''d'' Map.empty = Inr None"
    by (simp_all add: store_state_def sample_env_def Let_def load_state_def)
  then show ?thesis
    using store_atomic [OF sample_env_laws pos prod.collapse [symmetric], of NoFault "''d''" Map.empty False]
      store_atomic [OF sample_env_laws pos prod.collapse [symmetric], of "WriteFails 0" "''d''" Map.empty False]
    by simp
qed

end
