(* ===== verification/Reg_Cache.thy ===== *)
theory Reg_Cache
  imports Reg_State
begin

text \<open>
  Fetch, cache and refresh policy for the registry (\<^verbatim>\<open>quiethop-crypto/src/registry_cache.rs\<close>). A
  method takes what the outside world answers (the HTTP response, and the faults of the file
  system it reaches) and passes the cache and the file system on.
\<close>

section \<open>The cache\<close>

record RegistryCache =
  cache_url :: string
  cache_dir :: string
  cache_pinned :: "PinnedKey list"
  cache_threshold :: nat
  current :: "Verified option"

datatype http_response = Unreachable | Response nat "bytes option"

record io_faults =
  first_read_fails :: bool
  second_read_fails :: bool
  store_fails :: store_fault

definition cache_new :: "string \<Rightarrow> string \<Rightarrow> PinnedKey list \<Rightarrow> nat \<Rightarrow> RegistryError + RegistryCache" where
  "cache_new url dir pinned threshold =
     (if pinned = [] then Inl (Registry NoPinnedKey)
      else if threshold = 0 then Inl (Registry ThresholdTooSmall)
      else if threshold > length pinned then Inl (Registry (ThresholdTooLarge threshold (length pinned)))
      else Inr \<lparr>cache_url = url, cache_dir = dir, cache_pinned = pinned, cache_threshold = threshold, current = None\<rparr>)"

definition accept_body :: "reg_env \<Rightarrow> io_faults \<Rightarrow> bytes \<Rightarrow> int \<Rightarrow> RegistryCache \<times> file_sys \<Rightarrow>
    (RegistryError + unit) \<times> RegistryCache \<times> file_sys" where
  "accept_body E io body now_unix s =
     (let (c, fs) = s in
      case load_state E (first_read_fails io) (cache_dir c) fs of
        Inl e \<Rightarrow> (Inl e, c, fs)
      | Inr previous \<Rightarrow>
          (case verify E body (cache_pinned c) (cache_threshold c) now_unix previous of
             Inl e \<Rightarrow> (Inl e, c, fs)
           | Inr verified \<Rightarrow>
               (case remember E (second_read_fails io) (store_fails io) (cache_dir c) verified body fs of
                  (Inl e, fs') \<Rightarrow> (Inl e, c, fs')
                | (Inr _, fs') \<Rightarrow> (Inr (), c\<lparr>current := Some verified\<rparr>, fs'))))"

definition reuse_stored :: "reg_env \<Rightarrow> bool \<Rightarrow> int \<Rightarrow> RegistryCache \<Rightarrow> file_sys \<Rightarrow> Verified option" where
  "reuse_stored E read_fails now_unix c fs =
     Option.bind (Option.bind (ok (load_state E read_fails (cache_dir c) fs)) id) (\<lambda>stored.
     Option.bind (envelope_b64 stored) (\<lambda>b64.
     Option.bind (b64_decode E b64) (\<lambda>bs.
     Option.bind (ok (verify E bs (cache_pinned c) (cache_threshold c) now_unix (Some stored))) (\<lambda>verified.
     Option.bind (ok (fresh_until_unix (ver_document verified))) (\<lambda>fresh.
       if fresh > now_unix then Some verified else None)))))"

definition fetch :: "http_response \<Rightarrow> RegistryError + bytes" where
  "fetch resp =
     (case resp of
        Unreachable \<Rightarrow> Inl (Registry FetchFailed)
      | Response status body \<Rightarrow>
          if \<not> (200 \<le> status \<and> status < 300) then Inl (Registry (FetchStatus status))
          else ok_or (Registry BodyUnreadable) body)"

definition prime :: "reg_env \<Rightarrow> bool \<Rightarrow> io_faults \<Rightarrow> http_response \<Rightarrow> int \<Rightarrow> RegistryCache \<times> file_sys \<Rightarrow>
    (RegistryError + unit) \<times> RegistryCache \<times> file_sys" where
  "prime E read_fails io resp now_unix s =
     (let (c, fs) = s in
      case reuse_stored E read_fails now_unix c fs of
        Some reused \<Rightarrow> (Inr (), c\<lparr>current := Some reused\<rparr>, fs)
      | None \<Rightarrow>
          (case fetch resp of
             Inl e \<Rightarrow> (Inl e, c, fs)
           | Inr body \<Rightarrow> accept_body E io body now_unix (c, fs)))"

text \<open>
  The second component says whether a request was sent, which is what an observer of the
  authority sees.
\<close>

definition refresh_if_stale :: "reg_env \<Rightarrow> io_faults \<Rightarrow> http_response \<Rightarrow> int \<Rightarrow> RegistryCache \<times> file_sys \<Rightarrow>
    (RegistryError + bool) \<times> bool \<times> RegistryCache \<times> file_sys" where
  "refresh_if_stale E io resp now_unix s =
     (let (c, fs) = s;
          go = (case fetch resp of
                  Inl e \<Rightarrow> (Inl e, True, c, fs)
                | Inr body \<Rightarrow>
                    (case accept_body E io body now_unix (c, fs) of
                       (Inl e, s') \<Rightarrow> (Inl e, True, s')
                     | (Inr _, s') \<Rightarrow> (Inr True, True, s'))) in
      case current c of
        Some cur \<Rightarrow>
          (case fresh_until_unix (ver_document cur) of
             Inl e \<Rightarrow> (Inl e, False, c, fs)
           | Inr fresh \<Rightarrow> if fresh > now_unix then (Inr False, False, c, fs) else go)
      | None \<Rightarrow> go)"

definition usable :: "RegistryCache \<Rightarrow> int \<Rightarrow> RegistryError + Verified" where
  "usable c now_unix =
     and_then (ok_or (Registry NothingAccepted) (current c)) (\<lambda>cur.
     and_then (is_usable_at (ver_document cur) now_unix) (\<lambda>u.
       if \<not> u then Inl (Registry OutsideValidity) else Inr cur))"

definition is_stale :: "RegistryCache \<Rightarrow> int \<Rightarrow> RegistryError + bool" where
  "is_stale c now_unix =
     (case current c of
        Some cur \<Rightarrow> and_then (fresh_until_unix (ver_document cur)) (\<lambda>fresh. Inr (fresh \<le> now_unix))
      | None \<Rightarrow> Inr True)"

section \<open>Runs of the cache\<close>

text \<open>
  A process primes the cache, refreshes it and restarts, with any clock, any answers and any
  faults. A restart keeps the file system and forgets the document in memory.
\<close>

datatype cache_event =
    Prime int bool io_faults http_response
  | Refresh int io_faults http_response
  | AcceptBody int io_faults bytes
  | Restart

fun cache_step :: "reg_env \<Rightarrow> RegistryCache \<times> file_sys \<Rightarrow> cache_event \<Rightarrow> RegistryCache \<times> file_sys" where
  "cache_step E s (Prime now rf io resp) = snd (prime E rf io resp now s)"
| "cache_step E s (Refresh now io resp) = snd (snd (refresh_if_stale E io resp now s))"
| "cache_step E s (AcceptBody now io body) = snd (accept_body E io body now s)"
| "cache_step E (c, fs) Restart = (c\<lparr>current := None\<rparr>, fs)"

text \<open>
  The state file holds what \<^verbatim>\<open>remember\<close> wrote for one endorsed document, and the document in
  memory, if there is one, is endorsed and has the same bytes.
\<close>

definition holds :: "reg_env \<Rightarrow> RegistryCache \<Rightarrow> bytes \<Rightarrow> Verified option \<Rightarrow> bool" where
  "holds E c bs cur \<longleftrightarrow> (case cur of None \<Rightarrow> True
     | Some w \<Rightarrow> ver_bytes w = bs \<and> (\<exists>b. endorsed E b (cache_pinned c) (cache_threshold c) w))"

definition cache_inv :: "reg_env \<Rightarrow> RegistryCache \<times> file_sys \<Rightarrow> bool" where
  "cache_inv E s \<longleftrightarrow> reg_env_laws E \<and> (let (c, fs) = s in
     stored E (cache_dir c) fs = None \<and> current c = None
     \<or> (\<exists>v body. stored E (cache_dir c) fs = Some (Some (state_of E v body))
          \<and> endorsed E body (cache_pinned c) (cache_threshold c) v \<and> holds E c (ver_bytes v) (current c)))"

definition same_config :: "RegistryCache \<Rightarrow> RegistryCache \<Rightarrow> bool" where
  "same_config c d \<longleftrightarrow> cache_dir c = cache_dir d \<and> cache_pinned c = cache_pinned d \<and> cache_threshold c = cache_threshold d"

definition cache_below :: "reg_env \<Rightarrow> RegistryCache \<times> file_sys \<Rightarrow> RegistryCache \<times> file_sys \<Rightarrow> bool" where
  "cache_below E s s' \<longleftrightarrow> (let (c, fs) = s; (c', fs') = s' in same_config c c' \<and>
     (case stored E (cache_dir c) fs of
        Some (Some st) \<Rightarrow> (\<exists>st'. stored E (cache_dir c) fs' = Some (Some st')
          \<and> (highest_version st < highest_version st' \<or> st = st'))
      | Some None \<Rightarrow> True | None \<Rightarrow> True))"

lemma state_of_simps [simp]:
  "highest_version (state_of E v b) = version (ver_document v)"
  "document_b64 (state_of E v b) = b64_encode E (ver_bytes v)"
  "envelope_b64 (state_of E v b) = Some (b64_encode E b)"
  by (simp_all add: state_of_def)

lemma endorsed_same_bytes:
  assumes "endorsed E b1 pinned t v" "endorsed E b2 pinned t w" "ver_bytes v = ver_bytes w"
  shows "ver_document v = ver_document w"
  using assms by (auto simp: endorsed_def split: option.splits)

lemma cache_below_refl: "cache_below E s s"
  by (auto simp: cache_below_def same_config_def split: option.splits prod.splits)

lemma cache_below_trans: "cache_below E s t \<Longrightarrow> cache_below E t u \<Longrightarrow> cache_below E s u"
  by (fastforce simp: cache_below_def same_config_def split: option.splits prod.splits)

definition step_ok :: "reg_env \<Rightarrow> RegistryCache \<times> file_sys \<Rightarrow> RegistryCache \<times> file_sys \<Rightarrow> bool" where
  "step_ok E s s' \<longleftrightarrow> cache_inv E s' \<and> cache_below E s s'"

lemma step_ok_refl: "cache_inv E s \<Longrightarrow> step_ok E s s"
  by (simp add: step_ok_def cache_below_refl)

lemma step_ok_stored:
  assumes "cache_inv E (c, fs)" "stored E (cache_dir c) fs' = stored E (cache_dir c) fs"
  shows "step_ok E (c, fs) (c, fs')"
  using assms
  by (auto simp: step_ok_def cache_inv_def cache_below_def same_config_def split: option.splits)

lemma step_ok_current:
  assumes "cache_inv E (c, fs)" "stored E (cache_dir c) fs = Some (Some st)"
    and "ver_bytes w = bs" "b64_decode E (document_b64 st) = Some bs" "endorsed E b (cache_pinned c) (cache_threshold c) w"
  shows "step_ok E (c, fs) (c\<lparr>current := Some w\<rparr>, fs)"
proof -
  from assms(1,2) obtain v body where v: "st = state_of E v body" "endorsed E body (cache_pinned c) (cache_threshold c) v"
    "b64_decode E (document_b64 st) = Some (ver_bytes v)" "reg_env_laws E"
    by (auto simp: cache_inv_def reg_env_laws_def)
  then have "holds E c (ver_bytes v) (Some w)" using assms(3-5) by (auto simp: holds_def)
  with v assms(2) show ?thesis
    by (auto simp: step_ok_def cache_inv_def cache_below_def same_config_def holds_def)
qed

lemma step_ok_wrote:
  assumes "reg_env_laws E" "endorsed E body (cache_pinned c) (cache_threshold c) w"
    and "stored E (cache_dir c) fs' = Some (Some (state_of E w body))"
    and "stored E (cache_dir c) fs = None
      \<or> (\<exists>st. stored E (cache_dir c) fs = Some (Some st) \<and> highest_version st < version (ver_document w))"
  shows "step_ok E (c, fs) (c\<lparr>current := Some w\<rparr>, fs')"
  using assms by (auto simp: step_ok_def cache_inv_def cache_below_def same_config_def holds_def)

lemma accept_body_ok:
  assumes inv: "cache_inv E (c, fs)" and acc: "accept_body E io body now (c, fs) = (r, s')"
  shows "step_ok E (c, fs) s'"
proof -
  have laws: "reg_env_laws E" using inv by (simp add: cache_inv_def)
  consider (err) e where "r = Inl e" "s' = (c, fs)"
    | (ver) previous w r' fs' where "load_state E (first_read_fails io) (cache_dir c) fs = Inr previous"
        "verify E body (cache_pinned c) (cache_threshold c) now previous = Inr w"
        "remember E (second_read_fails io) (store_fails io) (cache_dir c) w body fs = (r', fs')"
        "r = r'" "s' = ((case r' of Inl _ \<Rightarrow> c | Inr _ \<Rightarrow> c\<lparr>current := Some w\<rparr>), fs')"
    using acc by (auto simp: accept_body_def split: sum.splits prod.splits)
  then show ?thesis
  proof cases
    case err
    then show ?thesis using step_ok_refl [OF inv] by simp
  next
    case ver
    note w = verify_Inr_endorsed [OF ver(2)]
    from ver(3) laws show ?thesis
    proof (cases rule: remember_cases)
      case (kept st)
      then have "previous = Some st"
        using ver(1) by (cases previous) (auto simp: load_state_Inr stored_def)
      then have dec: "b64_decode E (document_b64 st) = Some (ver_bytes w)"
        using w kept by (auto simp: not_rolled_back_def)
      from step_ok_stored [OF inv kept(2)] have inv': "cache_inv E (c, fs')" and below: "cache_below E (c, fs) (c, fs')"
        by (simp_all add: step_ok_def)
      have "stored E (cache_dir c) fs' = Some (Some st)" using kept by simp
      from step_ok_current [OF inv' this refl dec conjunct1 [OF w]]
      have "step_ok E (c, fs') (c\<lparr>current := Some w\<rparr>, fs')" .
      then show ?thesis using ver kept below cache_below_trans by (auto simp: step_ok_def)
    next
      case wrote
      then show ?thesis using step_ok_wrote [OF laws conjunct1 [OF w] wrote(2,3)] ver by simp
    next
      case (failed e)
      then show ?thesis using step_ok_stored [OF inv failed(2)] ver by simp
    qed
  qed
qed

lemma reuse_stored_ok:
  assumes inv: "cache_inv E (c, fs)" and re: "reuse_stored E rf now c fs = Some w"
  shows "step_ok E (c, fs) (c\<lparr>current := Some w\<rparr>, fs)"
proof -
  obtain st b64 bs where st: "load_state E rf (cache_dir c) fs = Inr (Some st)" "envelope_b64 st = Some b64"
    "b64_decode E b64 = Some bs" "verify E bs (cache_pinned c) (cache_threshold c) now (Some st) = Inr w"
    using re by (auto simp: reuse_stored_def bind_eq_Some_conv result_simps split: if_splits)
  then have stored: "stored E (cache_dir c) fs = Some (Some st)" by (simp add: load_state_Inr)
  with inv obtain v body where v: "st = state_of E v body" "endorsed E body (cache_pinned c) (cache_threshold c) v"
    and laws: "reg_env_laws E"
    by (auto simp: cache_inv_def)
  then have "bs = body" using st by (auto simp: reg_env_laws_def)
  then have "w = v" using verify_Inr_endorsed [OF st(4)] v(2) endorsed_unique by blast
  then show ?thesis
    using step_ok_current [OF inv stored refl _ v(2)] laws v(1) by (simp add: reg_env_laws_def)
qed

lemma prime_ok:
  assumes "cache_inv E (c, fs)" "prime E rf io resp now (c, fs) = (r, s')"
  shows "step_ok E (c, fs) s'"
  using assms accept_body_ok [OF assms(1)] reuse_stored_ok [OF assms(1)] step_ok_refl [OF assms(1)]
  by (auto simp: prime_def split: option.splits sum.splits)

lemma refresh_cases:
  "snd (snd (refresh_if_stale E io resp now s)) = s
   \<or> (\<exists>body. fetch resp = Inr body \<and> snd (snd (refresh_if_stale E io resp now s)) = snd (accept_body E io body now s))"
  by (cases "fetch resp") (auto simp: refresh_if_stale_def Let_def split: option.splits sum.splits prod.splits)

lemma restart_ok: "cache_inv E (c, fs) \<Longrightarrow> step_ok E (c, fs) (c\<lparr>current := None\<rparr>, fs)"
  using cache_below_refl [of E "(c, fs)"]
  by (auto simp: step_ok_def cache_inv_def cache_below_def same_config_def) (simp add: holds_def, blast)

lemma cache_step_ok:
  assumes "cache_inv E s" shows "step_ok E s (cache_step E s e)"
proof -
  obtain c fs where s: "s = (c, fs)" by (cases s)
  have acc: "step_ok E s (snd (accept_body E io body now s))" for io body now
    using accept_body_ok [OF assms [unfolded s], of io body now] by (cases "accept_body E io body now s") (simp add: s)
  show ?thesis
  proof (cases e)
    case (Prime now rf io resp)
    then show ?thesis
      using prime_ok [OF assms [unfolded s], of rf io resp now] by (cases "prime E rf io resp now s") (simp add: s)
  next
    case (Refresh now io resp)
    then show ?thesis using refresh_cases [of E io resp now s] acc step_ok_refl [OF assms] by auto
  next
    case (AcceptBody now io body)
    then show ?thesis by (simp add: acc)
  next
    case Restart
    then show ?thesis using restart_ok assms by (simp add: s)
  qed
qed

interpretation cache: event_system "cache_step E" "cache_inv E" "cache_below E" for E
  by unfold_locales
    (use cache_step_ok in \<open>auto simp: step_ok_def cache_below_refl intro: cache_below_trans\<close>)

lemma cache_inv_start:
  "reg_env_laws E \<Longrightarrow> fs (state_path (cache_dir c)) = None \<Longrightarrow> current c = None \<Longrightarrow> cache_inv E (c, fs)"
  by (simp add: cache_inv_def stored_def)

lemma cache_inv_current:
  assumes "cache_inv E s" "current (fst s) = Some w"
  obtains v body where "stored E (cache_dir (fst s)) (snd s) = Some (Some (state_of E v body))"
    "ver_bytes w = ver_bytes v" "ver_document w = ver_document v"
    "\<exists>b. endorsed E b (cache_pinned (fst s)) (cache_threshold (fst s)) w"
  using assms by (auto simp: cache_inv_def holds_def split: prod.splits dest: endorsed_same_bytes)

lemma cache_below_current:
  assumes "cache_inv E s" "cache_inv E s'" "cache_below E s s'"
    and "current (fst s) = Some v" "current (fst s') = Some w"
  shows "version (ver_document v) < version (ver_document w) \<or> ver_document v = ver_document w \<and> ver_bytes v = ver_bytes w"
proof -
  obtain v0 b where v: "stored E (cache_dir (fst s)) (snd s) = Some (Some (state_of E v0 b))"
    "ver_bytes v = ver_bytes v0" "ver_document v = ver_document v0"
    using cache_inv_current [OF assms(1,4)] by metis
  obtain w0 b' where w: "stored E (cache_dir (fst s')) (snd s') = Some (Some (state_of E w0 b'))"
    "ver_bytes w = ver_bytes w0" "ver_document w = ver_document w0"
    using cache_inv_current [OF assms(2,5)] by metis
  have same: "cache_pinned (fst s) = cache_pinned (fst s')" "cache_threshold (fst s) = cache_threshold (fst s')"
    using assms(3) by (auto simp: cache_below_def same_config_def split: prod.splits)
  have "version (ver_document v0) < version (ver_document w0) \<or> state_of E v0 b = state_of E w0 b'"
    using assms(3) v(1) w(1) by (auto simp: cache_below_def same_config_def split: prod.splits)
  moreover have "ver_bytes v0 = ver_bytes w0" if "state_of E v0 b = state_of E w0 b'"
  proof -
    have "b64_encode E (ver_bytes v0) = b64_encode E (ver_bytes w0)" using that state_of_simps(2) by metis
    then show ?thesis using assms(1) by (metis cache_inv_def option.inject reg_env_laws_def)
  qed
  moreover have "ver_document v = ver_document w" if "ver_bytes v = ver_bytes w"
    using cache_inv_current [OF assms(1,4)] cache_inv_current [OF assms(2,5)] endorsed_same_bytes that same by metis
  ultimately show ?thesis using v w by auto
qed

section \<open>Properties\<close>

text \<open>
  C7: The registry never rolls back and never equivocates, across refreshes, failed fetches, failed
  or interrupted stores and restarts. From an empty state directory, run any sequence of events
  with any clock readings and any responses, pause, and run any further sequence: the document
  held afterwards has a higher version than the one held at the pause, or is the same document
  with the same bytes.
\<close>

theorem registry_never_rolls_back:
  assumes "reg_env_laws E" "fs (state_path (cache_dir c)) = None" "current c = None"
    and "foldl (cache_step E) (c, fs) es = (c1, fs1)" "foldl (cache_step E) (c1, fs1) es' = (c2, fs2)"
    and "current c1 = Some v" "current c2 = Some w"
  shows "version (ver_document v) < version (ver_document w)
    \<or> ver_document v = ver_document w \<and> ver_bytes v = ver_bytes w"
proof -
  have inv: "cache_inv E (c1, fs1)" using cache.run_inv [of E "(c, fs)" es] cache_inv_start [of E fs c] assms(1-4) by simp
  then have "cache_inv E (c2, fs2)" "cache_below E (c1, fs1) (c2, fs2)"
    using cache.run_inv [OF inv, of es'] cache.run_below [OF inv, of es'] assms(5) by simp_all
  then show ?thesis using cache_below_current [OF inv] assms(6,7) by simp
qed

definition sample_cache :: RegistryCache where
  "sample_cache = \<lparr>cache_url = ''u'', cache_dir = ''s'', cache_pinned = [sample_pin], cache_threshold = 1, current = None\<rparr>"

definition no_faults :: io_faults where
  "no_faults = \<lparr>first_read_fails = False, second_read_fails = False, store_fails = NoFault\<rparr>"

lemma state_of_sample: "state_of sample_env sample_verified (as_bytes ''e'') = sample_state"
  by (simp add: state_of_def sample_env_def sample_verified_def sample_state_def sample_doc_def)

lemma accept_first:
  assumes "verify E body (cache_pinned c) (cache_threshold c) now None = Inr v"
    and "json_of_state E (state_of E v body) = Some raw" "fs (state_path (cache_dir c)) = None" "fs (tmp_path (cache_dir c)) = None"
  shows "accept_body E no_faults body now (c, fs) =
    (Inr (), c\<lparr>current := Some v\<rparr>, (fs(state_path (cache_dir c) \<mapsto> (STATE_MODE, raw)))(tmp_path (cache_dir c) := None))"
  using assms
  by (simp add: accept_body_def no_faults_def load_state_def remember_def store_state_def Let_def state_of_def)

lemma sample_accept_body:
  "accept_body sample_env no_faults (as_bytes ''e'') 1791383400 (sample_cache, Map.empty) =
    (Inr (), sample_cache\<lparr>current := Some sample_verified\<rparr>,
      (Map.empty(state_path ''s'' \<mapsto> (STATE_MODE, [1])))(tmp_path ''s'' := None))"
proof -
  have "verify sample_env (as_bytes ''e'') [sample_pin] 1 1791383400 None = Inr sample_verified"
    using sample_accepts by (simp add: verify_Inr not_rolled_back_def)
  moreover have "json_of_state sample_env sample_state = Some [1]" by (simp add: sample_env_def)
  ultimately show ?thesis
    using accept_first [of sample_env "as_bytes ''e''" sample_cache 1791383400 sample_verified "[1]" Map.empty]
    by (simp add: state_of_sample sample_cache_def)
qed

definition sample_fs :: file_sys where
  "sample_fs = (Map.empty(state_path ''s'' \<mapsto> (STATE_MODE, [1])))(tmp_path ''s'' := None)"

lemma sample_load: "load_state sample_env rf ''s'' sample_fs = (if rf then Inl (State (NotReadable (state_path ''s''))) else Inr (Some sample_state))"
proof -
  have "json_state sample_env [1] = Some sample_state" "0 < highest_version sample_state"
    by (simp_all add: sample_env_def sample_state_def)
  then show ?thesis by (simp add: load_state_def sample_fs_def)
qed

lemma sample_prime:
  "prime sample_env False no_faults Unreachable 1791383400 (sample_cache, sample_fs) =
    (Inr (), sample_cache\<lparr>current := Some sample_verified\<rparr>, sample_fs)"
proof -
  have "not_rolled_back sample_env (Some sample_state) sample_verified"
    by (simp add: not_rolled_back_def sample_state_def sample_verified_def sample_doc_def sample_env_def)
  then have "verify sample_env (as_bytes ''e'') [sample_pin] 1 1791383400 (Some sample_state) = Inr sample_verified"
    using sample_accepts by (simp add: verify_Inr)
  moreover have "envelope_b64 sample_state = Some ''e''" "b64_decode sample_env ''e'' = Some (as_bytes ''e'')"
    by (simp_all add: sample_state_def sample_env_def)
  ultimately have "reuse_stored sample_env False 1791383400 sample_cache sample_fs = Some sample_verified"
    using sample_load [of False] sample_times(2) sample_accepts(5)
    by (simp add: reuse_stored_def sample_cache_def fresh_until_unix_def)
  then show ?thesis by (simp add: prime_def)
qed

theorem registry_never_rolls_back_witness:
  "(\<exists>c1 fs1 c2 fs2 v w.
      foldl (cache_step sample_env) (sample_cache, Map.empty) [AcceptBody 1791383400 no_faults (as_bytes ''e'')] = (c1, fs1)
    \<and> foldl (cache_step sample_env) (c1, fs1) [Restart, Prime 1791383400 False no_faults Unreachable] = (c2, fs2)
    \<and> current c1 = Some v \<and> current c2 = Some w \<and> ver_bytes v = ver_bytes w)"
proof -
  have restart: "sample_cache\<lparr>current := None\<rparr> = sample_cache" by (simp add: sample_cache_def)
  have run: "foldl (cache_step sample_env) (sample_cache, Map.empty) [AcceptBody 1791383400 no_faults (as_bytes ''e'')]
      = (sample_cache\<lparr>current := Some sample_verified\<rparr>, sample_fs)"
    "foldl (cache_step sample_env) (sample_cache\<lparr>current := Some sample_verified\<rparr>, sample_fs)
       [Restart, Prime 1791383400 False no_faults Unreachable]
      = (sample_cache\<lparr>current := Some sample_verified\<rparr>, sample_fs)"
    using sample_accept_body sample_prime restart by (simp_all add: sample_fs_def)
  show ?thesis
    using run registry_never_rolls_back [OF sample_env_laws _ _ run, of sample_verified sample_verified]
    by (fastforce simp: sample_cache_def)
qed

text \<open>
  C11: \<^verbatim>\<open>usable\<close> fails closed. After any run of the cache from an empty state directory, with the clock
  inside the range a clock can show, it returns a document exactly when one is held whose window
  contains the present instant, with sixty seconds of leniency at the start and none at the end;
  and every document it returns carries the required signatures of pinned keys.
\<close>

theorem usable_fails_closed:
  assumes "reg_env_laws E" "fs (state_path (cache_dir c)) = None" "current c = None" "clock_ok now"
    and "foldl (cache_step E) (c, fs) es = (c1, fs1)"
  shows "(usable c1 now = Inr v \<longleftrightarrow> current c1 = Some v \<and> in_window (ver_document v) now)
    \<and> (usable c1 now = Inr v \<longrightarrow> (\<exists>body. endorsed E body (cache_pinned c1) (cache_threshold c1) v))"
proof -
  have inv: "cache_inv E (c1, fs1)"
    using cache.run_inv [of E "(c, fs)" es] cache_inv_start [of E fs c] assms by simp
  have "usable c1 now = Inr v \<longleftrightarrow> current c1 = Some v \<and> in_window (ver_document v) now"
    using is_usable_at_Inr [OF assms(4), of "ver_document v"] by (auto simp: usable_def result_simps split: if_splits)
  then show ?thesis using cache_inv_current [OF inv, of v] by auto
qed

theorem usable_fails_closed_witness:
  "usable (sample_cache\<lparr>current := Some sample_verified\<rparr>) 1791383400 = Inr sample_verified"
  using usable_fails_closed [OF sample_env_laws _ _ sample_accepts(1), of Map.empty sample_cache
      "[AcceptBody 1791383400 no_faults (as_bytes ''e'')]" _ _ sample_verified]
    sample_accept_body sample_accepts(4,5)
  by (auto simp: sample_cache_def)

text \<open>
  C12: A fetch leaks nothing inside the fresh window. \<^verbatim>\<open>refresh_if_stale\<close> sends a request exactly when
  \<^verbatim>\<open>is_stale\<close> says a refresh is due; otherwise the cache and the files are unchanged. A refresh that
  fails keeps the document that was held.
\<close>

theorem refresh_only_when_stale:
  assumes "refresh_if_stale E io resp now (c, fs) = (r, sent, c', fs')"
  shows "(sent \<longleftrightarrow> is_stale c now = Inr True) \<and> (\<not> sent \<longrightarrow> c' = c \<and> fs' = fs)
    \<and> (\<forall>e. r = Inl e \<longrightarrow> c' = c)"
proof -
  have acc: "x = Inl e \<Longrightarrow> accept_body E io body now (c, fs) = (x, y, z) \<Longrightarrow> y = c" for x e body y z
    by (auto simp: accept_body_def split: sum.splits prod.splits)
  show ?thesis
    using assms acc
    by (auto simp: refresh_if_stale_def is_stale_def Let_def result_simps
        split: option.splits sum.splits if_splits prod.splits)
qed

theorem refresh_only_when_stale_witness:
  "refresh_if_stale sample_env no_faults Unreachable 1791383400 (sample_cache\<lparr>current := Some sample_verified\<rparr>, sample_fs)
     = (Inr False, False, sample_cache\<lparr>current := Some sample_verified\<rparr>, sample_fs)
   \<and> is_stale (sample_cache\<lparr>current := Some sample_verified\<rparr>) 1791383400 \<noteq> Inr True"
proof -
  have r: "refresh_if_stale sample_env no_faults Unreachable 1791383400 (sample_cache\<lparr>current := Some sample_verified\<rparr>, sample_fs)
     = (Inr False, False, sample_cache\<lparr>current := Some sample_verified\<rparr>, sample_fs)"
    using sample_times(2) sample_accepts(5) by (simp add: refresh_if_stale_def fresh_until_unix_def)
  then show ?thesis using refresh_only_when_stale [OF r] by simp
qed

section \<open>Two documents the cache should not accept\<close>

definition unfresh_doc :: Document where
  "unfresh_doc = sample_doc\<lparr>fresh_until := ''soon''\<rparr>"

definition unfresh_env :: reg_env where
  "unfresh_env = sample_env\<lparr>json_document := \<lambda>b. if b = as_bytes ''d'' then Some unfresh_doc else None\<rparr>"

definition epoch_doc :: Document where
  "epoch_doc = \<lparr>version = 0, valid_after = rfc3339 1970 1 1 0 0 0, fresh_until = rfc3339 1970 1 1 1 0 0,
     valid_until = rfc3339 1970 1 1 6 0 0, relays = []\<rparr>"

definition epoch_state :: RegistryState where
  "epoch_state = sample_state\<lparr>highest_version := 0\<rparr>"

definition epoch_env :: reg_env where
  "epoch_env = sample_env\<lparr>json_document := \<lambda>b. if b = as_bytes ''d'' then Some epoch_doc else None,
     json_state := \<lambda>b. if b = [1] then Some epoch_state else None,
     json_of_state := \<lambda>s. if s = epoch_state then Some [1] else None\<rparr>"

lemma signs_sample_upd:
  "accepted_keys (sample_env\<lparr>json_document := f\<rparr>) = accepted_keys sample_env"
  "accepted_keys (sample_env\<lparr>json_document := f, json_state := g, json_of_state := h\<rparr>) = accepted_keys sample_env"
  by (rule accepted_keys_cong; simp)+

lemma verify_variant:
  assumes "clock_ok now" "accepted_keys E = accepted_keys sample_env" "json_envelope E = json_envelope sample_env"
    and "b64_decode E = b64_decode sample_env" "json_document E (as_bytes ''d'') = Some d" "well_dated d" "in_window d now"
  shows "verify E (as_bytes ''e'') [sample_pin] 1 now None = Inr (sample_verified\<lparr>ver_document := d\<rparr>)"
  using sample_accepts(2) assms
  by (simp add: verify_Inr not_rolled_back_def) (simp add: endorsed_def sample_verified_def split: option.splits)

text \<open>
  C33: \<open>fresh_until\<close> is not looked at by the verifier, and a document in which it is not a timestamp
  disables refreshing: once such a document is held, every \<^verbatim>\<open>refresh_if_stale\<close>, at every later time
  and whatever the authority would answer, returns the timestamp error before any request is sent.
  The cache serves that document until it expires and then serves nothing until a restart.
\<close>

theorem unparsable_fresh_until_disables_refresh:
  "\<exists>c1 fs1. accept_body unfresh_env no_faults (as_bytes ''e'') 1791383400 (sample_cache, Map.empty) = (Inr (), c1, fs1)
    \<and> (\<forall>io resp now. refresh_if_stale unfresh_env io resp now (c1, fs1)
         = (Inl (Registry (BadTimestamp ''soon'')), False, c1, fs1))"
proof -
  let ?v = "sample_verified\<lparr>ver_document := unfresh_doc\<rparr>"
  have win: "well_dated unfresh_doc" "in_window unfresh_doc 1791383400"
    using sample_accepts(3,4) by (simp_all add: unfresh_doc_def well_dated_def in_window_def split: sum.splits)
  have "verify unfresh_env (as_bytes ''e'') [sample_pin] 1 1791383400 None = Inr ?v"
    by (rule verify_variant) (use sample_accepts(1) win in \<open>simp_all add: unfresh_env_def signs_sample_upd\<close>)
  moreover have "state_of unfresh_env ?v (as_bytes ''e'') = sample_state"
    using state_of_sample sample_accepts(5) by (simp add: state_of_def unfresh_env_def unfresh_doc_def)
  moreover have "json_of_state unfresh_env sample_state = Some [1]" by (simp add: unfresh_env_def sample_env_def)
  ultimately have acc: "accept_body unfresh_env no_faults (as_bytes ''e'') 1791383400 (sample_cache, Map.empty)
      = (Inr (), sample_cache\<lparr>current := Some ?v\<rparr>, sample_fs)"
    using accept_first [of unfresh_env "as_bytes ''e''" sample_cache 1791383400 ?v "[1]" Map.empty]
    by (simp add: sample_cache_def sample_fs_def)
  have "parse_rfc3339 ''soon'' = Inl (Registry (BadTimestamp ''soon''))" by (simp add: parse_rfc3339_def)
  then have "refresh_if_stale unfresh_env io resp now (sample_cache\<lparr>current := Some ?v\<rparr>, sample_fs)
      = (Inl (Registry (BadTimestamp ''soon'')), False, sample_cache\<lparr>current := Some ?v\<rparr>, sample_fs)" for io resp now
    by (simp add: refresh_if_stale_def fresh_until_unix_def unfresh_doc_def)
  with acc show ?thesis by blast
qed



end
