(* ===== verification/Path_Select.thy ===== *)
theory Path_Select
  imports Registry Layers Frames
begin

text \<open>
  The client's error type (\<^verbatim>\<open>client/src/error.rs\<close>) and path selection (\<^verbatim>\<open>client/src/path.rs\<close>). A draw
  of the random number generator, \<^verbatim>\<open>gen_range(0..total)\<close>, is an argument \<open>draw total\<close>; the crate
  documents that it lies below \<open>total\<close> and is uniform. Reaching \<^verbatim>\<open>unreachable!\<close> is the value
  \<open>None\<close>.
\<close>

section \<open>Errors\<close>

datatype NoPathReason =
  RegistryUnusable | RegistryTooLarge | InvalidRegistryEntry | InsufficientRelays | DiversityUnsatisfiable

datatype response_reason = UrlJoin string | HexLengthOdd | BadHexByte byte

datatype ClientError =
    NotLoggedIn | HttpClientBuild | Http | AuthorityStatus nat string | MissingField string
  | InvalidResponse response_reason | InvalidPubkey | BlindVerifyFailed | BlindOversized | CIo IoError
  | InvalidServerName string | InvalidEndpoint string string | CNoise NoiseError
  | CRegistry RegistryError | NoPath NoPathReason | CLayer LayerError | CCell CellError
  | UnexpectedCell CellType | NativeRoots

section \<open>Candidates and rules\<close>

definition MAX_RELAYS :: nat where
  "MAX_RELAYS = 256"

record PathRules =
  require_operator_diversity :: bool

definition path_rules_default :: PathRules where
  "path_rules_default = \<lparr>require_operator_diversity = False\<rparr>"

record SelectedPath =
  guard :: RelayEntry
  middle :: RelayEntry
  exit :: RelayEntry
  span :: nat

record Candidate =
  entry :: RelayEntry
  cand_ip :: IpAddr

definition no_path :: "NoPathReason \<Rightarrow> ClientError" where
  "no_path reason = NoPath reason"

definition well_formed_entry :: "RelayEntry \<Rightarrow> bool" where
  "well_formed_entry e \<longleftrightarrow> \<not> (relay_id e = [] \<or> operator_id e = [] \<or> host_id e = [] \<or> tls_name e = []
     \<or> relay_port e = 0 \<or> length (static_pubkey e) \<noteq> STATIC_KEY_LEN * 2
     \<or> \<not> list_all (\<lambda>b. hex_digit b \<noteq> None) (as_bytes (static_pubkey e))
     \<or> \<not> (relay_role e = ''guard'' \<or> relay_role e = ''middle'' \<or> relay_role e = ''exit''))"

fun candidates_of :: "RelayEntry list \<Rightarrow> ClientError + Candidate list" where
  "candidates_of [] = Inr []"
| "candidates_of (e # es) =
     (if \<not> well_formed_entry e then Inl (no_path InvalidRegistryEntry)
      else case ip_addr e of
        Inl _ \<Rightarrow> Inl (no_path InvalidRegistryEntry)
      | Inr ip \<Rightarrow> and_then (candidates_of es) (\<lambda>out. Inr (\<lparr>entry = e, cand_ip = ip\<rparr> # out)))"

definition candidates :: "Document \<Rightarrow> ClientError + Candidate list" where
  "candidates doc = candidates_of (relays doc)"

definition by_role :: "Candidate list \<Rightarrow> string \<Rightarrow> Candidate list" where
  "by_role all role = filter (\<lambda>c. relay_role (entry c) = role) all"

fun same_prefix :: "IpAddr \<Rightarrow> IpAddr \<Rightarrow> bool" where
  "same_prefix (V4 a) (V4 b) = (take 2 a = take 2 b)"
| "same_prefix (V6 a) (V6 b) = (take 4 a = take 4 b)"
| "same_prefix _ _ = False"

definition triple_is_valid :: "Candidate \<Rightarrow> Candidate \<Rightarrow> Candidate \<Rightarrow> PathRules \<Rightarrow> bool" where
  "triple_is_valid g m e rules =
     (if relay_id (entry g) = relay_id (entry m) \<or> relay_id (entry g) = relay_id (entry e)
         \<or> relay_id (entry m) = relay_id (entry e) then False
      else if require_operator_diversity rules
         \<and> (operator_id (entry g) = operator_id (entry m) \<or> operator_id (entry g) = operator_id (entry e)
            \<or> operator_id (entry m) = operator_id (entry e)) then False
      else if host_id (entry g) = host_id (entry m) \<or> host_id (entry g) = host_id (entry e)
         \<or> host_id (entry m) = host_id (entry e) then False
      else \<not> (same_prefix (cand_ip g) (cand_ip m) \<or> same_prefix (cand_ip g) (cand_ip e)
              \<or> same_prefix (cand_ip m) (cand_ip e)))"

text \<open>\<^verbatim>\<open>ids.windows(2)\<close>.\<close>

definition windows2 :: "'a list \<Rightarrow> ('a \<times> 'a) list" where
  "windows2 xs = zip xs (tl xs)"

definition operator_span :: "Candidate \<Rightarrow> Candidate \<Rightarrow> Candidate \<Rightarrow> nat" where
  "operator_span g m e =
     (let ids = sort [operator_id (entry g), operator_id (entry m), operator_id (entry e)]
      in 1 + length (filter (\<lambda>(a, b). a \<noteq> b) (windows2 ids)))"

section \<open>Selection\<close>

definition count_valid :: "Candidate list \<Rightarrow> Candidate list \<Rightarrow> Candidate list \<Rightarrow> PathRules \<Rightarrow> nat" where
  "count_valid guards middles exits rules =
     foldl (\<lambda>n g. foldl (\<lambda>n m. foldl (\<lambda>n e. if triple_is_valid g m e rules then n + 1 else n) n exits) n middles) 0 guards"

text \<open>
  The three nested loops of the walk: the path when the index is met, otherwise how many valid
  triples have been seen.
\<close>

fun walk_exits :: "PathRules \<Rightarrow> nat \<Rightarrow> Candidate \<Rightarrow> Candidate \<Rightarrow> nat \<Rightarrow> Candidate list \<Rightarrow> SelectedPath + nat" where
  "walk_exits rules wanted g m seen [] = Inr seen"
| "walk_exits rules wanted g m seen (e # es) =
     (if \<not> triple_is_valid g m e rules then walk_exits rules wanted g m seen es
      else if seen = wanted
      then Inl \<lparr>guard = entry g, middle = entry m, exit = entry e, span = operator_span g m e\<rparr>
      else walk_exits rules wanted g m (seen + 1) es)"

fun walk_middles :: "PathRules \<Rightarrow> nat \<Rightarrow> Candidate \<Rightarrow> Candidate list \<Rightarrow> nat \<Rightarrow> Candidate list \<Rightarrow> SelectedPath + nat" where
  "walk_middles rules wanted g exits seen [] = Inr seen"
| "walk_middles rules wanted g exits seen (m # ms) =
     and_then (walk_exits rules wanted g m seen exits) (\<lambda>seen. walk_middles rules wanted g exits seen ms)"

fun walk_guards :: "PathRules \<Rightarrow> nat \<Rightarrow> Candidate list \<Rightarrow> Candidate list \<Rightarrow> nat \<Rightarrow> Candidate list \<Rightarrow> SelectedPath + nat" where
  "walk_guards rules wanted middles exits seen [] = Inr seen"
| "walk_guards rules wanted middles exits seen (g # gs) =
     and_then (walk_middles rules wanted g exits seen middles) (\<lambda>seen. walk_guards rules wanted middles exits seen gs)"

definition select_with :: "Document \<Rightarrow> PathRules \<Rightarrow> int \<Rightarrow> (nat \<Rightarrow> nat) \<Rightarrow> (ClientError + SelectedPath) option" where
  "select_with doc rules now_unix draw =
     (case is_usable_at doc now_unix of
        Inl e \<Rightarrow> Some (Inl (CRegistry e))
      | Inr False \<Rightarrow> Some (Inl (no_path RegistryUnusable))
      | Inr True \<Rightarrow>
          if length (relays doc) > MAX_RELAYS then Some (Inl (no_path RegistryTooLarge))
          else (case candidates doc of
            Inl e \<Rightarrow> Some (Inl e)
          | Inr cs \<Rightarrow>
              (let guards = by_role cs ''guard''; middles = by_role cs ''middle''; exits = by_role cs ''exit'' in
               if guards = [] \<or> middles = [] \<or> exits = [] then Some (Inl (no_path InsufficientRelays))
               else (let total = count_valid guards middles exits rules in
                 if total = 0 then Some (Inl (no_path DiversityUnsatisfiable))
                 else (let wanted = draw total in
                   case walk_guards rules wanted middles exits 0 guards of
                     Inl path \<Rightarrow> Some (Inr path)
                   | Inr seen \<Rightarrow> None)))))"

section \<open>Reference definition\<close>

definition valid_triples :: "PathRules \<Rightarrow> Candidate list \<Rightarrow> Candidate list \<Rightarrow> Candidate list \<Rightarrow> (Candidate \<times> Candidate \<times> Candidate) list" where
  "valid_triples rules guards middles exits =
     filter (\<lambda>(g, m, e). triple_is_valid g m e rules)
       (concat (map (\<lambda>g. concat (map (\<lambda>m. map (\<lambda>e. (g, m, e)) exits) middles)) guards))"

fun path_of :: "Candidate \<times> Candidate \<times> Candidate \<Rightarrow> SelectedPath" where
  "path_of (g, m, e) = \<lparr>guard = entry g, middle = entry m, exit = entry e, span = operator_span g m e\<rparr>"

text \<open>Walking to an index of a list, and what is left to count when it is not there.\<close>

definition at_index :: "nat \<Rightarrow> nat \<Rightarrow> (Candidate \<times> Candidate \<times> Candidate) list \<Rightarrow> SelectedPath + nat" where
  "at_index wanted seen ts = (if wanted < seen + length ts \<and> seen \<le> wanted then Inl (path_of (ts ! (wanted - seen)))
     else Inr (seen + length ts))"

lemma at_index_append:
  assumes "seen \<le> wanted"
  shows "at_index wanted seen (xs @ ys) = and_then (at_index wanted seen xs) (\<lambda>seen. at_index wanted seen ys)"
  using assms by (auto simp: at_index_def nth_append)

lemma at_index_Inr: "at_index wanted seen xs = Inr n \<Longrightarrow> seen \<le> wanted \<Longrightarrow> n = seen + length xs \<and> n \<le> wanted"
  by (auto simp: at_index_def split: if_splits)

lemma walk_exits_index:
  "seen \<le> wanted \<Longrightarrow> walk_exits rules wanted g m seen es =
     at_index wanted seen (filter (\<lambda>(g, m, e). triple_is_valid g m e rules) (map (\<lambda>e. (g, m, e)) es))"
proof (induction es arbitrary: seen)
  case Nil
  then show ?case by (simp add: at_index_def)
next
  case (Cons e es)
  show ?case
  proof (cases "triple_is_valid g m e rules \<and> seen \<noteq> wanted")
    case True
    with Cons.IH [of "Suc seen"] Cons.prems show ?thesis by (auto simp: at_index_def nth_Cons')
  next
    case False
    with Cons.IH [of seen] Cons.prems show ?thesis by (auto simp: at_index_def)
  qed
qed

lemma and_then_cong_le:
  assumes "r = at_index wanted seen xs" "seen \<le> wanted" "\<And>n. n \<le> wanted \<Longrightarrow> f n = at_index wanted n ys"
  shows "and_then r f = at_index wanted seen (xs @ ys)"
proof (cases r)
  case (Inr n)
  then show ?thesis using assms at_index_Inr [of wanted seen xs n] by (simp add: at_index_append)
qed (use assms in \<open>simp add: at_index_append\<close>)

lemma walk_middles_index:
  "seen \<le> wanted \<Longrightarrow> walk_middles rules wanted g exits seen ms =
     at_index wanted seen (filter (\<lambda>(g, m, e). triple_is_valid g m e rules)
       (concat (map (\<lambda>m. map (\<lambda>e. (g, m, e)) exits) ms)))"
  by (induction ms arbitrary: seen)
    (simp_all add: at_index_def [of wanted _ "[]"] and_then_cong_le [OF walk_exits_index])

lemma walk_guards_index:
  "seen \<le> wanted \<Longrightarrow> walk_guards rules wanted middles exits seen gs =
     at_index wanted seen (valid_triples rules gs middles exits)"
  by (induction gs arbitrary: seen)
    (simp_all add: valid_triples_def at_index_def [of wanted _ "[]"] and_then_cong_le [OF walk_middles_index])

lemma foldl_count: "foldl (\<lambda>n x. if P x then n + 1 else n) k xs = k + length (filter P xs)"
  by (induction xs arbitrary: k) auto

lemma foldl_sum: "foldl (\<lambda>n x. n + h x) (k :: nat) xs = k + sum_list (map h xs)"
  by (induction xs arbitrary: k) simp_all

lemma count_valid_length: "count_valid guards middles exits rules = length (valid_triples rules guards middles exits)"
proof -
  have exits: "foldl (\<lambda>n e. if triple_is_valid g m e rules then n + 1 else n) n exits
      = n + length (filter (\<lambda>e. triple_is_valid g m e rules) exits)" for n g m
    by (rule foldl_count)
  have "length (filter (\<lambda>(g, m, e). triple_is_valid g m e rules) (map (\<lambda>e. (g, m, e)) exits))
      = length (filter (\<lambda>e. triple_is_valid g m e rules) exits)" for g m
    by (induction exits) auto
  then show ?thesis
    by (simp add: count_valid_def exits foldl_sum valid_triples_def filter_concat length_concat comp_def
        del: One_nat_def)
qed

section \<open>Candidates and operators\<close>

lemma candidates_of_Inr:
  "candidates_of es = Inr cs \<longleftrightarrow> map entry cs = es \<and> list_all (\<lambda>c. well_formed_entry (entry c) \<and> ip_addr (entry c) = Inr (cand_ip c)) cs"
proof (induction es arbitrary: cs)
  case (Cons e es)
  show ?case
  proof (cases cs)
    case Nil
    then show ?thesis by (auto simp: result_simps split: sum.splits)
  next
    case (Cons c cs')
    then show ?thesis using Cons.IH by (cases c) (auto simp: result_simps split: sum.splits)
  qed
qed auto

lemma candidates_Inr_mem:
  assumes "candidates doc = Inr cs" "c \<in> set (by_role cs role)"
  shows "entry c \<in> set (relays doc) \<and> relay_role (entry c) = role \<and> well_formed_entry (entry c)
    \<and> ip_addr (entry c) = Inr (cand_ip c)"
proof -
  have "relays doc = map entry cs" "c \<in> set cs"
    using assms by (simp_all add: candidates_def candidates_of_Inr by_role_def)
  then show ?thesis using assms by (simp add: candidates_def candidates_of_Inr by_role_def list_all_iff)
qed

lemma windows2_card:
  assumes "sorted xs" "xs \<noteq> []"
  shows "1 + length (filter (\<lambda>(a, b). a \<noteq> b) (windows2 xs)) = card (set xs)"
  using assms
proof (induction xs rule: induct_list012)
  case (3 x y zs)
  have "x \<notin> set (y # zs)" if "x \<noteq> y" using "3.prems"(1) that by auto
  then show ?case using 3 by (cases "x = y") (auto simp: windows2_def)
qed (simp_all add: windows2_def)

lemma operator_span_card:
  "operator_span g m e = card {operator_id (entry g), operator_id (entry m), operator_id (entry e)}"
proof -
  let ?ids = "[operator_id (entry g), operator_id (entry m), operator_id (entry e)]"
  have "sort ?ids \<noteq> []" by (metis length_sort list.size(3) list.distinct(1) length_0_conv)
  from windows2_card [OF sorted_sort this] have "operator_span g m e = card (set (sort ?ids))"
    unfolding operator_span_def Let_def .
  then show ?thesis by (simp only: set_sort) simp
qed

lemma select_with_spec:
  assumes "is_usable_at doc now = Inr True" "length (relays doc) \<le> MAX_RELAYS" "candidates doc = Inr cs"
  shows "select_with doc rules now draw =
    (let gs = by_role cs ''guard''; ms = by_role cs ''middle''; es = by_role cs ''exit'';
         ts = valid_triples rules gs ms es in
     if gs = [] \<or> ms = [] \<or> es = [] then Some (Inl (NoPath InsufficientRelays))
     else if ts = [] then Some (Inl (NoPath DiversityUnsatisfiable))
     else if draw (length ts) < length ts then Some (Inr (path_of (ts ! draw (length ts)))) else None)"
  using assms
  by (simp add: select_with_def Let_def no_path_def count_valid_length walk_guards_index) (simp add: at_index_def)

lemma select_with_Inr:
  assumes "select_with doc rules now draw = Some (Inr p)"
  obtains cs g m e where "is_usable_at doc now = Inr True" "candidates doc = Inr cs"
    "g \<in> set (by_role cs ''guard'')" "m \<in> set (by_role cs ''middle'')" "e \<in> set (by_role cs ''exit'')"
    "triple_is_valid g m e rules" "p = path_of (g, m, e)"
proof -
  obtain cs where cs: "is_usable_at doc now = Inr True" "length (relays doc) \<le> MAX_RELAYS" "candidates doc = Inr cs"
    using assms by (auto simp: select_with_def split: sum.splits bool.splits if_splits)
  let ?ts = "valid_triples rules (by_role cs ''guard'') (by_role cs ''middle'') (by_role cs ''exit'')"
  have "draw (length ?ts) < length ?ts" "p = path_of (?ts ! draw (length ?ts))"
    using assms unfolding select_with_spec [OF cs] Let_def by (auto split: if_splits)
  then obtain t where "t \<in> set ?ts" "p = path_of t" using nth_mem by blast
  moreover obtain g m e where "t = (g, m, e)" by (metis prod.exhaust)
  ultimately show thesis using that [OF cs(1,3), of g m e] by (auto simp: valid_triples_def)
qed

section \<open>A sample document\<close>

definition sample_relay :: "string \<Rightarrow> string \<Rightarrow> string \<Rightarrow> RelayEntry" where
  "sample_relay n role ip = \<lparr>relay_id = n, operator_id = n, host_id = n, relay_role = role, relay_ip = ip,
     relay_port = 443, tls_name = n, static_pubkey = replicate 64 CHR ''a''\<rparr>"

definition sample_relays :: "RelayEntry list" where
  "sample_relays = [sample_relay ''g'' ''guard'' ''10.1.0.1'', sample_relay ''m'' ''middle'' ''::ffff:10.2.0.1'',
     sample_relay ''e'' ''exit'' ''10.3.0.1'']"

definition sample_path_doc :: Document where
  "sample_path_doc = sample_doc\<lparr>relays := sample_relays\<rparr>"

definition sample_rules :: PathRules where
  "sample_rules = \<lparr>require_operator_diversity = True\<rparr>"

definition sample_cands :: "Candidate list" where
  "sample_cands = [\<lparr>entry = sample_relay ''g'' ''guard'' ''10.1.0.1'', cand_ip = V4 [10, 1, 0, 1]\<rparr>,
     \<lparr>entry = sample_relay ''m'' ''middle'' ''::ffff:10.2.0.1'', cand_ip = V4 [10, 2, 0, 1]\<rparr>,
     \<lparr>entry = sample_relay ''e'' ''exit'' ''10.3.0.1'', cand_ip = V4 [10, 3, 0, 1]\<rparr>]"

lemma sample_ips:
  "parse_ip ''10.1.0.1'' = Some (V4 [10, 1, 0, 1])"
  "parse_ip ''::ffff:10.2.0.1'' = Some (V6 (to_ipv6_mapped [10, 2, 0, 1]))"
  "parse_ip ''10.3.0.1'' = Some (V4 [10, 3, 0, 1])"
  by (simp_all add: parse_eval)

lemma sample_usable: "is_usable_at sample_path_doc 1791383400 = Inr True" "length (relays sample_path_doc) \<le> MAX_RELAYS"
proof -
  have "in_window sample_path_doc 1791383400" using sample_accepts(4) by (simp add: in_window_def sample_path_doc_def)
  then show "is_usable_at sample_path_doc 1791383400 = Inr True" using is_usable_at_Inr [OF sample_accepts(1)] by simp
qed (simp add: sample_path_doc_def sample_relays_def MAX_RELAYS_def)

lemma sample_candidates: "candidates sample_path_doc = Inr sample_cands"
proof -
  have "well_formed_entry (sample_relay n role ip)" if "n \<noteq> []" "role \<in> {''guard'', ''middle'', ''exit''}" for n role ip
    using that
    by (auto simp: well_formed_entry_def sample_relay_def STATIC_KEY_LEN_def as_bytes_def hex_digit_def of_char_def list_all_iff)
  moreover have "relay_ip (sample_relay n role ip) = ip" for n role ip by (simp add: sample_relay_def)
  ultimately show ?thesis
    by (simp add: candidates_def candidates_of_Inr sample_path_doc_def sample_relays_def sample_cands_def
        ip_addr_def sample_ips canonical_ip_def)
qed

lemma sample_triples:
  "by_role sample_cands ''guard'' = [sample_cands ! 0]" "by_role sample_cands ''middle'' = [sample_cands ! 1]"
  "by_role sample_cands ''exit'' = [sample_cands ! 2]"
  "triple_is_valid (sample_cands ! 0) (sample_cands ! 1) (sample_cands ! 2) sample_rules"
  "valid_triples sample_rules [sample_cands ! 0] [sample_cands ! 1] [sample_cands ! 2]
     = [(sample_cands ! 0, sample_cands ! 1, sample_cands ! 2)]"
  by (simp_all add: by_role_def sample_cands_def sample_relay_def triple_is_valid_def sample_rules_def valid_triples_def)

section \<open>Properties\<close>

text \<open>
  C35: Every selected path obeys the rules. Its three relays are well-formed entries of the document
  for the guard, middle and exit roles; their ids are distinct, their hosts are distinct, no two
  share an IPv4 /16 or an IPv6 /32, compared on addresses in which an IPv4-mapped IPv6 address has
  been reduced to its IPv4 form; the document's window contains the present instant; the reported
  span is the number of distinct operators; and under operator diversity that number is three.
\<close>

theorem selected_path_obeys_rules:
  assumes "select_with doc rules now draw = Some (Inr p)" "clock_ok now"
  shows "{guard p, middle p, exit p} \<subseteq> set (relays doc)
    \<and> list_all well_formed_entry [guard p, middle p, exit p]
    \<and> relay_role (guard p) = ''guard'' \<and> relay_role (middle p) = ''middle'' \<and> relay_role (exit p) = ''exit''
    \<and> distinct [relay_id (guard p), relay_id (middle p), relay_id (exit p)]
    \<and> distinct [host_id (guard p), host_id (middle p), host_id (exit p)]
    \<and> (\<exists>g m e. ip_addr (guard p) = Inr g \<and> ip_addr (middle p) = Inr m \<and> ip_addr (exit p) = Inr e
        \<and> \<not> same_prefix g m \<and> \<not> same_prefix g e \<and> \<not> same_prefix m e
        \<and> to_canonical g = g \<and> to_canonical m = m \<and> to_canonical e = e)
    \<and> in_window doc now
    \<and> span p = card {operator_id (guard p), operator_id (middle p), operator_id (exit p)}
    \<and> (require_operator_diversity rules \<longrightarrow> span p = 3)"
proof -
  obtain cs g m e where us: "is_usable_at doc now = Inr True" and cs: "candidates doc = Inr cs"
    and mem: "g \<in> set (by_role cs ''guard'')" "m \<in> set (by_role cs ''middle'')" "e \<in> set (by_role cs ''exit'')"
    and valid: "triple_is_valid g m e rules" and p: "p = path_of (g, m, e)"
    using assms(1) by (rule select_with_Inr)
  have "to_canonical ip = ip" if "ip_addr x = Inr ip" for x ip
    using that by (auto simp: ip_addr_def canonical_ip_def result_simps)
  moreover have "in_window doc now" using us is_usable_at_Inr [OF assms(2)] by simp
  ultimately show ?thesis
    using mem [THEN candidates_Inr_mem [OF cs]] valid
    by (auto simp: p operator_span_card triple_is_valid_def split: if_splits)
qed

theorem selected_path_obeys_rules_witness:
  "\<exists>p. select_with sample_path_doc sample_rules 1791383400 (\<lambda>_. 0) = Some (Inr p) \<and> span p = 3"
proof -
  have "select_with sample_path_doc sample_rules 1791383400 (\<lambda>_. 0)
      = Some (Inr (path_of (sample_cands ! 0, sample_cands ! 1, sample_cands ! 2)))"
    unfolding select_with_spec [OF sample_usable sample_candidates] Let_def sample_triples by simp
  moreover have "require_operator_diversity sample_rules" by (simp add: sample_rules_def)
  ultimately show ?thesis
    using selected_path_obeys_rules [of sample_path_doc sample_rules 1791383400 "\<lambda>_. 0", OF _ sample_accepts(1)] by blast
qed

text \<open>
  C36: Selection is total and uniform. On a usable document of well-formed entries with every role
  present, the results for the draws 0 to \<open>total - 1\<close> are exactly the valid triples, each once and
  in the order of the document; there is no other draw, so a uniform draw gives a uniform path, the
  walk never runs past the counted triples, and no path is reported exactly when no triple of the
  document satisfies the rules.
\<close>

theorem selection_uniform_over_valid_triples:
  assumes "is_usable_at doc now = Inr True" "length (relays doc) \<le> MAX_RELAYS" "candidates doc = Inr cs"
    and "by_role cs ''guard'' = gs" "by_role cs ''middle'' = ms" "by_role cs ''exit'' = es"
    and "gs \<noteq> []" "ms \<noteq> []" "es \<noteq> []"
  shows "map (\<lambda>k. select_with doc rules now (\<lambda>_. k)) [0..<count_valid gs ms es rules]
      = map (\<lambda>t. Some (Inr (path_of t))) (valid_triples rules gs ms es)
    \<and> (select_with doc rules now draw = Some (Inl (NoPath DiversityUnsatisfiable))
        \<longleftrightarrow> \<not> (\<exists>g \<in> set gs. \<exists>m \<in> set ms. \<exists>e \<in> set es. triple_is_valid g m e rules))
    \<and> (draw (count_valid gs ms es rules) < count_valid gs ms es rules \<longrightarrow> (\<exists>p. select_with doc rules now draw = Some (Inr p)))"
proof -
  let ?ts = "valid_triples rules gs ms es"
  have spec: "select_with doc rules now d = (if ?ts = [] then Some (Inl (NoPath DiversityUnsatisfiable))
      else if d (length ?ts) < length ?ts then Some (Inr (path_of (?ts ! d (length ?ts)))) else None)" for d
    using assms(7-9) unfolding select_with_spec [OF assms(1-3)] assms(4-6) Let_def by simp
  have "?ts = [] \<longleftrightarrow> \<not> (\<exists>g \<in> set gs. \<exists>m \<in> set ms. \<exists>e \<in> set es. triple_is_valid g m e rules)"
    by (auto simp: valid_triples_def filter_empty_conv)
  moreover have "map (\<lambda>k. select_with doc rules now (\<lambda>_. k)) [0..<length ?ts] = map (\<lambda>t. Some (Inr (path_of t))) ?ts"
    by (rule nth_equalityI) (auto simp: spec)
  ultimately show ?thesis by (auto simp: count_valid_length spec)
qed

theorem selection_uniform_over_valid_triples_witness:
  "\<exists>p. select_with sample_path_doc sample_rules 1791383400 (\<lambda>_. 0) = Some (Inr p)"
  using selection_uniform_over_valid_triples [OF sample_usable sample_candidates sample_triples(1-3), of sample_rules "\<lambda>_. 0"]
  by (simp add: count_valid_length sample_triples(5) del: One_nat_def)

end
