(* ===== verification/Big_Ints.thy ===== *)
theory Big_Ints
  imports Prelude
begin

text \<open>
  The arbitrary-precision integers of the crates \<^verbatim>\<open>num-bigint\<close> (relay) and \<^verbatim>\<open>num-bigint-dig\<close> (client).
  A value is a \<open>nat\<close>, on which \<^verbatim>\<open>*\<close>, \<^verbatim>\<open>%\<close> and the comparisons are HOL's; the operations with an
  algorithm behind them are fields of a record, with what the crates document of them as
  \<open>big_laws\<close>. \<open>big_model\<close> is an instance, which shows that the laws can hold.
\<close>

record big_ops =
  big_bits :: "nat \<Rightarrow> nat"
  from_bytes_be :: "bytes \<Rightarrow> nat"
  to_bytes_be :: "nat \<Rightarrow> bytes"
  modpow :: "nat \<Rightarrow> nat \<Rightarrow> nat \<Rightarrow> nat"
  mod_inverse :: "nat \<Rightarrow> nat \<Rightarrow> int option"

definition be_value :: "bytes \<Rightarrow> nat" where
  "be_value bs = foldl (\<lambda>acc b. 256 * acc + unat b) 0 bs"

definition big_laws :: "big_ops \<Rightarrow> bool" where
  "big_laws B \<longleftrightarrow> (\<forall>n. n < 2 ^ big_bits B n) \<and> (\<forall>n k. n < 2 ^ k \<longrightarrow> big_bits B n \<le> k)
     \<and> (\<forall>bs. from_bytes_be B bs = be_value bs)
     \<and> (\<forall>n. be_value (to_bytes_be B n) = n) \<and> (\<forall>n. 8 * length (to_bytes_be B n) < big_bits B n + 8 \<or> n = 0 \<and> length (to_bytes_be B n) = 1)
     \<and> (\<forall>b e n. 0 < n \<longrightarrow> modpow B b e n = b ^ e mod n)
     \<and> (\<forall>r n i. mod_inverse B r n = Some i \<longrightarrow> int r * i mod int n = 1 mod int n)"

text \<open>\<^verbatim>\<open>bits().div_ceil(8)\<close>.\<close>

definition div_ceil :: "nat \<Rightarrow> nat \<Rightarrow> nat" where
  "div_ceil a b = (a + b - 1) div b"

section \<open>Byte strings as numbers\<close>

lemma be_value_Nil [simp]: "be_value [] = 0"
  by (simp add: be_value_def)

lemma be_value_snoc [simp]: "be_value (bs @ [b]) = 256 * be_value bs + unat b"
  by (simp add: be_value_def)

lemma be_value_append: "be_value (xs @ ys) = be_value xs * 256 ^ length ys + be_value ys"
  by (induction ys rule: rev_induct) (simp_all flip: append_assoc add: algebra_simps)

lemma be_value_zeros [simp]: "be_value (replicate k 0 @ bs) = be_value bs"
proof -
  have "be_value (replicate k 0) = 0" by (induction k) (simp_all add: replicate_append_same [symmetric])
  then show ?thesis by (simp add: be_value_append)
qed

lemma be_value_lt: "be_value bs < 256 ^ length bs"
proof (induction bs rule: rev_induct)
  case (snoc b bs)
  then have "be_value bs + 1 \<le> 256 ^ length bs" by simp
  have "256 * be_value bs + unat b < 256 * be_value bs + 256" by (rule add_strict_left_mono) simp
  also have "\<dots> = 256 * (be_value bs + 1)" by simp
  also have "\<dots> \<le> 256 * 256 ^ length bs" using \<open>be_value bs + 1 \<le> 256 ^ length bs\<close> by (rule mult_le_mono2)
  finally show ?case by simp
qed simp

lemma be_value_inj: "length xs = length ys \<Longrightarrow> be_value xs = be_value ys \<Longrightarrow> xs = ys"
proof (induction xs arbitrary: ys rule: rev_induct)
  case (snoc x xs)
  then obtain zs z where ys: "ys = zs @ [z]" by (cases ys rule: rev_cases) auto
  have "256 * be_value xs + unat x = 256 * be_value zs + unat z" using snoc.prems ys by simp
  moreover have "(256 * a + unat b) div 256 = a" "(256 * a + unat b) mod 256 = unat b" for a and b :: byte
    by (simp_all add: div_add1_eq)
  ultimately have "be_value xs = be_value zs \<and> unat x = unat z" by metis
  then show ?case using snoc ys by (simp add: word_unat_eq_iff)
qed simp

section \<open>An instance\<close>

fun nat_bits :: "nat \<Rightarrow> nat" where
  "nat_bits n = (if n = 0 then 0 else Suc (nat_bits (n div 2)))"

declare nat_bits.simps [simp del]

fun nat_bytes :: "nat \<Rightarrow> bytes" where
  "nat_bytes n = (if n < 256 then [word_of_nat n] else nat_bytes (n div 256) @ [word_of_nat (n mod 256)])"

declare nat_bytes.simps [simp del]

definition find_inverse :: "nat \<Rightarrow> nat \<Rightarrow> int option" where
  "find_inverse r n = map_option int (find (\<lambda>i. r * i mod n = 1 mod n) [0..<n])"

definition big_model :: big_ops where
  "big_model = \<lparr>big_bits = nat_bits, from_bytes_be = be_value, to_bytes_be = nat_bytes,
     modpow = \<lambda>b e n. b ^ e mod n, mod_inverse = find_inverse\<rparr>"

lemma nat_bits_upper: "n < 2 ^ nat_bits n"
proof (induction n rule: nat_bits.induct)
  case (1 n)
  then show ?case by (subst nat_bits.simps) (auto simp: not_le)
qed

lemma nat_bits_least: "n < 2 ^ k \<Longrightarrow> nat_bits n \<le> k"
proof (induction n arbitrary: k rule: nat_bits.induct)
  case (1 n)
  show ?case
  proof (cases "n = 0")
    case False
    then obtain j where k: "k = Suc j" using "1.prems" by (cases k) auto
    then have "n div 2 < 2 ^ j" using "1.prems" by (simp add: less_mult_imp_div_less mult.commute)
    then show ?thesis using "1.IH" [OF False, of j] False k by (subst nat_bits.simps) simp
  qed (simp add: nat_bits.simps)
qed

lemma be_value_nat_bytes: "be_value (nat_bytes n) = n"
proof (induction n rule: nat_bytes.induct)
  case (1 n)
  then show ?case
  proof (cases "n < 256")
    case True
    then show ?thesis using be_value_snoc [of "[]" "word_of_nat n"] by (subst nat_bytes.simps) (simp add: unat_byte_of_nat)
  next
    case False
    then show ?thesis using 1 by (subst nat_bytes.simps) (simp add: unat_byte_of_nat)
  qed
qed

lemma nat_bits_div: "256 \<le> n \<Longrightarrow> nat_bits n = 8 + nat_bits (n div 256)"
proof -
  have step: "n \<noteq> 0 \<Longrightarrow> nat_bits n = Suc (nat_bits (n div 2))" for n by (subst nat_bits.simps) simp
  assume n: "256 \<le> n"
  have "n div k \<noteq> 0" if "0 < k" "k \<le> 256" for k using that n by (simp add: div_eq_0_iff)
  from this [of 2] this [of 4] this [of 8] this [of 16] this [of 32] this [of 64] this [of 128] n
  show ?thesis by (simp add: step div_mult2_eq [symmetric])
qed

lemma nat_bytes_length: "8 * length (nat_bytes n) < nat_bits n + 8 \<or> n = 0 \<and> length (nat_bytes n) = 1"
proof (induction n rule: nat_bytes.induct)
  case (1 n)
  show ?case
  proof (cases "n < 256")
    case True
    then have "length (nat_bytes n) = 1" "n \<noteq> 0 \<longrightarrow> 0 < nat_bits n"
      by (subst nat_bytes.simps, simp, subst nat_bits.simps, simp)
    then show ?thesis by (cases "n = 0") simp_all
  next
    case False
    have "n div 256 \<noteq> 0" using False by (simp add: div_eq_0_iff)
    moreover have "length (nat_bytes n) = Suc (length (nat_bytes (n div 256)))" using False by (subst nat_bytes.simps) simp
    ultimately show ?thesis using 1 False nat_bits_div [of n] by simp
  qed
qed

lemma find_inverse_law:
  assumes "find_inverse r n = Some i" shows "int r * i mod int n = 1 mod int n"
proof -
  obtain j where "find (\<lambda>i. r * i mod n = 1 mod n) [0..<n] = Some j" "i = int j"
    using assms by (auto simp: find_inverse_def)
  then have "r * j mod n = 1 mod n" by (auto simp: find_Some_iff)
  then show ?thesis using \<open>i = int j\<close> by (metis of_nat_1 of_nat_mod of_nat_mult)
qed

lemma big_model_laws: "big_laws big_model"
  using nat_bytes_length
  by (simp add: big_laws_def big_model_def nat_bits_upper nat_bits_least be_value_nat_bytes find_inverse_law)

end
