(* ===== verification/Token.thy ===== *)
theory Token
  imports Big_Ints
begin

text \<open>
  Blind-RSA token verification at the guard (\<^verbatim>\<open>relay/src/token.rs\<close>). The replay window is a map from
  token hashes to the instant, in nanoseconds of the monotonic clock, at which they were accepted.
  SHA-256 is a parameter.
\<close>

section \<open>Definitions\<close>

datatype TokenError = TokenTooShort | InvalidSignature | Replayed

record ReplayWindow =
  ttl :: nat
  seen :: "bytes \<Rightarrow> nat option"

record RsaPublicKey =
  rsa_n :: nat
  rsa_e :: nat

definition window_new :: "nat \<Rightarrow> ReplayWindow" where
  "window_new t = \<lparr>ttl = t, seen = Map.empty\<rparr>"

text \<open>\<^verbatim>\<open>map.retain(|_, t| now.duration_since( *t) < ttl)\<close>; \<^verbatim>\<open>duration_since\<close> is zero for a later instant.\<close>

definition retain_recent :: "nat \<Rightarrow> nat \<Rightarrow> (bytes \<Rightarrow> nat option) \<Rightarrow> bytes \<Rightarrow> nat option" where
  "retain_recent now life m = (\<lambda>h. case m h of None \<Rightarrow> None | Some t \<Rightarrow> if now - t < life then Some t else None)"

definition token_verify :: "big_ops \<Rightarrow> (bytes \<Rightarrow> bytes) \<Rightarrow> nat \<Rightarrow> bytes \<Rightarrow> bytes \<Rightarrow> RsaPublicKey \<Rightarrow> ReplayWindow \<Rightarrow>
    (TokenError + unit) \<times> ReplayWindow" where
  "token_verify B sha now m_raw token pubkey window =
     (let modulus_bytes = div_ceil (big_bits B (rsa_n pubkey)) 8 in
      if length token < modulus_bytes then (Inl TokenTooShort, window)
      else
      (let m_int = from_bytes_be B (sha m_raw);
           token_int = from_bytes_be B token;
           n = from_bytes_be B (to_bytes_be B (rsa_n pubkey));
           e = from_bytes_be B (to_bytes_be B (rsa_e pubkey)) in
       if token_int \<ge> n then (Inl InvalidSignature, window)
       else if modpow B token_int e n \<noteq> m_int then (Inl InvalidSignature, window)
       else
       (let token_hash = sha token;
            m = retain_recent now (ttl window) (seen window) in
        if m token_hash \<noteq> None then (Inl Replayed, window\<lparr>seen := m\<rparr>)
        else (Inr (), window\<lparr>seen := m(token_hash \<mapsto> now)\<rparr>))))"

section \<open>What a call does\<close>

text \<open>A token that is a signature: long enough, a residue, and its \<open>e\<close>-th power is the digest.\<close>

definition signed_token :: "big_ops \<Rightarrow> (bytes \<Rightarrow> bytes) \<Rightarrow> RsaPublicKey \<Rightarrow> bytes \<Rightarrow> bytes \<Rightarrow> bool" where
  "signed_token B sha pk m_raw token \<longleftrightarrow> div_ceil (big_bits B (rsa_n pk)) 8 \<le> length token
     \<and> be_value token < rsa_n pk \<and> be_value token ^ rsa_e pk mod rsa_n pk = be_value (sha m_raw)"

definition fresh_token :: "(bytes \<Rightarrow> bytes) \<Rightarrow> nat \<Rightarrow> bytes \<Rightarrow> ReplayWindow \<Rightarrow> bool" where
  "fresh_token sha now token w \<longleftrightarrow> (case seen w (sha token) of None \<Rightarrow> True | Some t \<Rightarrow> ttl w \<le> now - t)"

lemma token_verify_cases:
  assumes "big_laws B"
  shows "token_verify B sha now m_raw token pk w =
    (if \<not> signed_token B sha pk m_raw token
     then (Inl (if length token < div_ceil (big_bits B (rsa_n pk)) 8 then TokenTooShort else InvalidSignature), w)
     else if fresh_token sha now token w
     then (Inr (), w\<lparr>seen := (retain_recent now (ttl w) (seen w))(sha token \<mapsto> now)\<rparr>)
     else (Inl Replayed, w\<lparr>seen := retain_recent now (ttl w) (seen w)\<rparr>))"
proof -
  have modpow: "modpow B b e n = b ^ e mod n" if "b < n" for b e n using assms that by (simp add: big_laws_def)
  have "retain_recent now (ttl w) (seen w) (sha token) \<noteq> None \<longleftrightarrow> \<not> fresh_token sha now token w"
    by (auto simp: retain_recent_def fresh_token_def split: option.splits)
  then show ?thesis
    using assms by (auto simp: token_verify_def signed_token_def Let_def big_laws_def modpow)
qed

section \<open>Runs\<close>

text \<open>Presentations of tokens at instants of the clock; \<open>accepted_at\<close> lists those accepted.\<close>

type_synonym presentation = "nat \<times> bytes \<times> bytes"

fun accepted_at :: "big_ops \<Rightarrow> (bytes \<Rightarrow> bytes) \<Rightarrow> RsaPublicKey \<Rightarrow> ReplayWindow \<Rightarrow> presentation list \<Rightarrow> presentation list" where
  "accepted_at B sha pk w [] = []"
| "accepted_at B sha pk w ((now, m_raw, token) # ps) =
     (case token_verify B sha now m_raw token pk w of
        (Inr _, w') \<Rightarrow> (now, m_raw, token) # accepted_at B sha pk w' ps
      | (Inl _, w') \<Rightarrow> accepted_at B sha pk w' ps)"

text \<open>The window remembers an acceptance for its whole life.\<close>

definition remembers :: "ReplayWindow \<Rightarrow> bytes \<Rightarrow> nat \<Rightarrow> bool" where
  "remembers w h t \<longleftrightarrow> seen w h = Some t"

lemma token_verify_ttl: "big_laws B \<Longrightarrow> ttl (snd (token_verify B sha now m token pk w)) = ttl w"
  by (simp add: token_verify_cases)

lemma token_verify_remembers:
  assumes "big_laws B" "remembers w h t" "t \<le> now" "now < t + ttl w"
  shows "remembers (snd (token_verify B sha now m token pk w)) h t"
  using assms by (auto simp: token_verify_cases remembers_def fresh_token_def retain_recent_def)

lemma token_verify_inserts:
  assumes "big_laws B" "token_verify B sha now m token pk w = (Inr (), w')"
  shows "remembers w' (sha token) now"
  using assms by (auto simp: token_verify_cases remembers_def split: if_splits)

lemma remembered_not_accepted:
  assumes "big_laws B" "remembers w (sha token) t" "t \<le> now" "now < t + ttl w"
  shows "fst (token_verify B sha now m token pk w) \<noteq> Inr ()"
  using assms by (auto simp: token_verify_cases remembers_def fresh_token_def)

lemma accepted_at_subset: "set (accepted_at B sha pk w ps) \<subseteq> set ps"
proof (induction ps arbitrary: w)
  case (Cons p ps)
  obtain n m tok where p: "p = (n, m, tok)" by (cases p)
  obtain r w' where v: "token_verify B sha n m tok pk w = (r, w')" by (cases "token_verify B sha n m tok pk w")
  show ?case using Cons.IH [of w'] by (cases r) (auto simp: p v)
qed simp

lemma accepted_after_remembered:
  assumes "big_laws B" "remembers w (sha token) t" "sorted (map fst ps)" "\<forall>p \<in> set ps. t \<le> fst p"
    and "(now, m, token) \<in> set (accepted_at B sha pk w ps)"
  shows "t + ttl w \<le> now"
  using assms(2-5)
proof (induction ps arbitrary: w)
  case (Cons p ps)
  obtain n m' tok where p: "p = (n, m', tok)" by (cases p)
  obtain r w' where v: "token_verify B sha n m' tok pk w = (r, w')" by (cases "token_verify B sha n m' tok pk w")
  show ?case
  proof (cases "n < t + ttl w")
    case True
    have rem: "remembers w' (sha token) t" "ttl w' = ttl w"
      using token_verify_remembers [OF assms(1) Cons.prems(1), of n sha m' tok pk] token_verify_ttl [OF assms(1), of sha n m' tok pk w]
        Cons.prems(3) True v p by simp_all
    have "r = Inr () \<Longrightarrow> tok \<noteq> token"
      using remembered_not_accepted [where sha = sha and token = token and m = m' and pk = pk, OF assms(1) Cons.prems(1), of n] Cons.prems(3) True v p by auto
    then have "(now, m, token) \<in> set (accepted_at B sha pk w' ps)"
      using Cons.prems(4) v p by (cases r) auto
    then show ?thesis using Cons.IH [OF rem(1)] Cons.prems rem(2) by simp
  next
    case False
    have "now \<in> set (map fst (p # ps))"
      using Cons.prems(4) accepted_at_subset [of B sha pk w "p # ps"] by force
    then show ?thesis using Cons.prems(2) False p by auto
  qed
qed simp

section \<open>Properties\<close>

text \<open>
  C37: \<^verbatim>\<open>verify\<close> accepts exactly the unspent signatures. With the documented arithmetic it returns
  \<^verbatim>\<open>Ok\<close> if and only if the token is at least as long as the modulus, is a residue whose \<open>e\<close>-th power
  is the SHA-256 digest of the preimage, and its hash has not been accepted within the window's
  life; the RSA check comes first, so a token that is no signature gives the same error whatever the
  window holds; and such a token leaves the window exactly as it was, expired entries included.
\<close>

theorem token_verify_exact:
  assumes "big_laws B" "token_verify B sha now m_raw token pk w = (r, w')"
  shows "(r = Inr () \<longleftrightarrow> div_ceil (big_bits B (rsa_n pk)) 8 \<le> length token \<and> be_value token < rsa_n pk
      \<and> be_value token ^ rsa_e pk mod rsa_n pk = be_value (sha m_raw)
      \<and> (\<forall>t. seen w (sha token) = Some t \<longrightarrow> ttl w \<le> now - t))
    \<and> (\<not> signed_token B sha pk m_raw token \<longrightarrow> r \<noteq> Inl Replayed \<and> w' = w)
    \<and> (signed_token B sha pk m_raw token \<longrightarrow> r \<in> {Inr (), Inl Replayed})"
  using assms
  by (auto simp: token_verify_cases signed_token_def fresh_token_def split: if_splits option.splits)

text \<open>A toy key for examples: modulus 33, exponents 3 and 7.\<close>

definition toy_key :: RsaPublicKey where
  "toy_key = \<lparr>rsa_n = 33, rsa_e = 3\<rparr>"

definition toy_sha :: "bytes \<Rightarrow> bytes" where
  "toy_sha bs = (if bs = [] then [5] else [word_of_nat (be_value bs mod 33)])"

lemma toy_signed: "signed_token big_model toy_sha toy_key [5] [14]"
  by (simp add: signed_token_def toy_key_def toy_sha_def be_value_def big_model_def nat_bits.simps div_ceil_def)

theorem token_verify_exact_witness:
  "fst (token_verify big_model toy_sha 9 [5] [14] toy_key (window_new 60)) = Inr ()
   \<and> fst (token_verify big_model toy_sha 9 [5] [15] toy_key (window_new 60)) \<noteq> Inr ()"
proof -
  have "be_value [14] < rsa_n toy_key" "be_value [14] ^ rsa_e toy_key mod rsa_n toy_key = be_value (toy_sha [5])"
    "div_ceil (big_bits big_model (rsa_n toy_key)) 8 \<le> length [14 :: byte]"
    using toy_signed by (simp_all add: signed_token_def)
  moreover have "be_value [15] ^ rsa_e toy_key mod rsa_n toy_key \<noteq> be_value (toy_sha [5])"
    by (simp add: toy_key_def toy_sha_def be_value_def)
  ultimately show ?thesis
    using token_verify_exact [OF big_model_laws prod.collapse [symmetric], of toy_sha 9 "[5]" "[14]" toy_key "window_new 60"]
      token_verify_exact [OF big_model_laws prod.collapse [symmetric], of toy_sha 9 "[5]" "[15]" toy_key "window_new 60"]
    by (simp add: window_new_def)
qed

text \<open>
  C38: No token is spent twice within the window's life. In every sequence of presentations at
  non-decreasing instants, starting from any window, if the same token is accepted at one instant
  and again later in the sequence, at least the whole \<open>ttl\<close> lies between the two, whatever was
  presented in between, invalid tokens and hash collisions included.
\<close>

theorem token_not_replayed:
  assumes "big_laws B" "sorted (map fst (ps @ (t1, m1, token) # qs))"
    and "token_verify B sha t1 m1 token pk w = (Inr (), w')"
    and "(t2, m2, token) \<in> set (accepted_at B sha pk w' qs)"
  shows "t1 + ttl w \<le> t2"
proof -
  have "ttl w' = ttl w" using token_verify_ttl [OF assms(1), of sha t1 m1 token pk w] assms(3) by simp
  moreover have "t1 + ttl w' \<le> t2"
    by (rule accepted_after_remembered [OF assms(1) token_verify_inserts [OF assms(1,3)] _ _ assms(4)])
      (use assms(2) in \<open>auto simp: sorted_append\<close>)
  ultimately show ?thesis by simp
qed

theorem token_not_replayed_witness:
  "\<exists>w'. token_verify big_model toy_sha 0 [5] [14] toy_key (window_new 60) = (Inr (), w')
     \<and> (70, [5], [14]) \<in> set (accepted_at big_model toy_sha toy_key w' [(10, [5], [14]), (70, [5], [14])])
     \<and> (10, [5], [14]) \<notin> set (accepted_at big_model toy_sha toy_key w' [(10, [5], [14]), (70, [5], [14])])"
proof -
  let ?w = "(window_new 60)\<lparr>seen := [toy_sha [14] \<mapsto> 0]\<rparr>"
  have w: "token_verify big_model toy_sha 0 [5] [14] toy_key (window_new 60) = (Inr (), ?w)"
    using toy_signed
    by (simp add: token_verify_cases [OF big_model_laws] fresh_token_def window_new_def retain_recent_def)
  moreover have "accepted_at big_model toy_sha toy_key ?w [(10, [5], [14]), (70, [5], [14])] = [(70, [5], [14])]"
    using toy_signed
    by (simp add: token_verify_cases [OF big_model_laws] fresh_token_def window_new_def retain_recent_def)
  moreover have "(10, [5], [14]) \<notin> set (accepted_at big_model toy_sha toy_key ?w [(10, [5], [14]), (70, [5], [14])])"
    using token_not_replayed [OF big_model_laws _ w, of "[]" "[(10, [5], [14]), (70, [5], [14])]" 10 "[5]"]
    by (auto simp: window_new_def)
  ultimately show ?thesis by (intro exI [of _ ?w]) (metis list.set_intros(1))
qed

end
