(* ===== verification/Client_Tokens.thy ===== *)
theory Client_Tokens
  imports Path_Select Token
begin

text \<open>
  Login and token issuance at the client (\<^verbatim>\<open>client/src/auth.rs\<close>, \<^verbatim>\<open>blind.rs\<close>, \<^verbatim>\<open>tokens.rs\<close>). The HTTP
  client and the authority are an argument: what comes back for a request. Whether a path can be
  joined to the authority's URL, the JSON decoders and the PEM decoder are arguments too. The draws
  of the operating system's generator in the blinding loop are a list; a draw that is refused moves
  on to the next one, and \<open>None\<close> is a list that ran out.
\<close>

unbundle bit_operations_syntax

section \<open>Requests\<close>

datatype api_reply = NoConnection | Reply nat "string option"

definition is_success :: "nat \<Rightarrow> bool" where
  "is_success status \<longleftrightarrow> 200 \<le> status \<and> status < 300"

text \<open>A reply with a success status, or the error the status maps to.\<close>

definition success_body :: "api_reply \<Rightarrow> ClientError + string option" where
  "success_body reply =
     (case reply of
        NoConnection \<Rightarrow> Inl Http
      | Reply status body \<Rightarrow>
          if \<not> is_success status
          then Inl (AuthorityStatus status (case body of None \<Rightarrow> [] | Some b \<Rightarrow> b))
          else Inr body)"

definition join_url :: "(string \<Rightarrow> bool) \<Rightarrow> string \<Rightarrow> ClientError + unit" where
  "join_url joins path = (if joins path then Inr () else Inl (InvalidResponse (UrlJoin path)))"

record Session =
  jwt :: string

definition login :: "(string \<Rightarrow> bool) \<Rightarrow> (string \<Rightarrow> string option) \<Rightarrow> (string \<Rightarrow> string \<Rightarrow> api_reply) \<Rightarrow>
    string \<Rightarrow> string \<Rightarrow> ClientError + Session" where
  "login joins json_token post email password =
     and_then (join_url joins ''/api/v1/auth/login'') (\<lambda>_.
     and_then (success_body (post email password)) (\<lambda>body.
     and_then (ok_or Http (Option.bind body json_token)) (\<lambda>token.
       if token = [] then Inl (MissingField ''token'') else Inr \<lparr>jwt = token\<rparr>)))"

definition fetch_pubkey :: "(string \<Rightarrow> bool) \<Rightarrow> (string \<Rightarrow> RsaPublicKey option) \<Rightarrow> api_reply \<Rightarrow> ClientError + RsaPublicKey" where
  "fetch_pubkey joins from_pem reply =
     and_then (join_url joins ''/api/v1/authority/pubkey'') (\<lambda>_.
     and_then (success_body reply) (\<lambda>body.
     and_then (ok_or Http body) (\<lambda>pem.
       ok_or InvalidPubkey (from_pem pem))))"

section \<open>Blinding\<close>

record BlindedRequest =
  blinded :: nat
  r_inv :: nat
  msg :: nat

text \<open>One turn of the loop: the request, or nothing when the draw is refused.\<close>

definition blind_with :: "big_ops \<Rightarrow> RsaPublicKey \<Rightarrow> nat \<Rightarrow> nat \<Rightarrow> BlindedRequest option" where
  "blind_with B pk m r =
     (if r < 2 then None
      else case mod_inverse B r (rsa_n pk) of
        None \<Rightarrow> None
      | Some i \<Rightarrow>
          if i < 0 then None
          else if nat i = 1 then None
          else Some \<lparr>blinded = m * modpow B r (rsa_e pk) (rsa_n pk) mod rsa_n pk, r_inv = nat i, msg = m\<rparr>)"

fun blind_loop :: "big_ops \<Rightarrow> RsaPublicKey \<Rightarrow> nat \<Rightarrow> nat list \<Rightarrow> BlindedRequest option" where
  "blind_loop B pk m [] = None"
| "blind_loop B pk m (r # rs) = (case blind_with B pk m r of None \<Rightarrow> blind_loop B pk m rs | Some req \<Rightarrow> Some req)"

definition blind :: "big_ops \<Rightarrow> (bytes \<Rightarrow> bytes) \<Rightarrow> RsaPublicKey \<Rightarrow> bytes \<Rightarrow> nat list \<Rightarrow> BlindedRequest option" where
  "blind B sha pk m_raw draws = blind_loop B pk (from_bytes_be B (sha m_raw) mod rsa_n pk) draws"

definition unblind_and_verify :: "big_ops \<Rightarrow> RsaPublicKey \<Rightarrow> BlindedRequest \<Rightarrow> nat \<Rightarrow> ClientError + nat" where
  "unblind_and_verify B pk req s_blind =
     (if s_blind \<ge> rsa_n pk then Inl BlindOversized
      else (let token = s_blind * r_inv req mod rsa_n pk in
        if modpow B token (rsa_e pk) (rsa_n pk) \<noteq> msg req then Inl BlindVerifyFailed else Inr token))"

definition token_to_wire :: "big_ops \<Rightarrow> nat \<Rightarrow> nat \<Rightarrow> bytes" where
  "token_to_wire B token modulus_bytes =
     (let raw = to_bytes_be B token in
      if length raw \<ge> modulus_bytes then raw else replicate (modulus_bytes - length raw) 0 @ raw)"

section \<open>Hexadecimal\<close>

definition token_nibble :: "nat \<Rightarrow> char" where
  "token_nibble n = (if n \<le> 9 then char_of (48 + n) else if n \<le> 15 then char_of (97 + n - 10) else CHR ''?'')"

definition hex_lower :: "bytes \<Rightarrow> string" where
  "hex_lower bs = concat (map (\<lambda>b. [token_nibble (unat b div 16), token_nibble (unat b mod 16)]) bs)"

definition hex_nibble :: "byte \<Rightarrow> ClientError + byte" where
  "hex_nibble c =
     (if 48 \<le> c \<and> c \<le> 57 then Inr (c - 48)
      else if 97 \<le> c \<and> c \<le> 102 then Inr (c - 97 + 10)
      else if 65 \<le> c \<and> c \<le> 70 then Inr (c - 65 + 10)
      else Inl (InvalidResponse (BadHexByte c)))"

fun hex_decode_bytes :: "bytes \<Rightarrow> ClientError + bytes" where
  "hex_decode_bytes (a # b # bs) =
     and_then (hex_nibble a) (\<lambda>hi. and_then (hex_nibble b) (\<lambda>lo.
     and_then (hex_decode_bytes bs) (\<lambda>out. Inr ((push_bit 4 hi OR lo) # out))))"
| "hex_decode_bytes _ = Inr []"

definition hex_decode :: "string \<Rightarrow> ClientError + bytes" where
  "hex_decode s = (if length s mod 2 \<noteq> 0 then Inl (InvalidResponse HexLengthOdd) else hex_decode_bytes (as_bytes s))"

section \<open>Issuance\<close>

definition issue :: "big_ops \<Rightarrow> (bytes \<Rightarrow> bytes) \<Rightarrow> (string \<Rightarrow> bool) \<Rightarrow> (string \<Rightarrow> string option) \<Rightarrow>
    (string \<Rightarrow> string \<Rightarrow> api_reply) \<Rightarrow> Session \<Rightarrow> RsaPublicKey \<Rightarrow> bytes \<Rightarrow> nat list \<Rightarrow>
    (ClientError + (bytes \<times> bytes)) option" where
  "issue B sha joins json_signed post session pk m_raw draws =
     (case blind B sha pk m_raw draws of
        None \<Rightarrow> None
      | Some req \<Rightarrow>
          Some (and_then (join_url joins ''/api/v1/tokens/issue'') (\<lambda>_.
            and_then (success_body (post (jwt session) (hex_lower (to_bytes_be B (blinded req))))) (\<lambda>body.
            and_then (ok_or Http (Option.bind body json_signed)) (\<lambda>signed.
            and_then (hex_decode signed) (\<lambda>signed_bytes.
            and_then (unblind_and_verify B pk req (from_bytes_be B signed_bytes)) (\<lambda>token_int.
              Inr (m_raw, token_to_wire B token_int (div_ceil (big_bits B (rsa_n pk)) 8)))))))))"

section \<open>The unblinded token is a signature\<close>

text \<open>
  The authority's key: raising to \<open>e * d\<close> is the identity modulo \<open>n\<close>. This is what makes \<open>d\<close> the
  private exponent of \<open>(n, e)\<close>.
\<close>

definition rsa_pair :: "RsaPublicKey \<Rightarrow> nat \<Rightarrow> bool" where
  "rsa_pair pk d \<longleftrightarrow> 1 < rsa_n pk \<and> (\<forall>x. x ^ (rsa_e pk * d) mod rsa_n pk = x mod rsa_n pk)"

lemma mod_inverse_nat:
  assumes "big_laws B" "mod_inverse B r n = Some i" "0 \<le> i" "1 < n"
  shows "r * nat i mod n = 1"
proof -
  have "int (r * nat i mod n) = int r * i mod int n" using assms(3) by (simp add: zmod_int)
  also have "\<dots> = 1" using assms by (simp add: big_laws_def)
  finally show ?thesis by simp
qed

lemma unblinded_power:
  fixes n :: nat
  assumes "1 < n" "\<And>x. x ^ (e * d) mod n = x mod n" "r * i mod n = 1"
  shows "((m * (r ^ e mod n) mod n) ^ d mod n * i mod n) = m ^ d mod n"
proof -
  have "(m * (r ^ e mod n) mod n) ^ d mod n = (m * r ^ e) ^ d mod n"
    by (simp add: power_mod mod_mult_right_eq)
  also have "\<dots> = m ^ d * (r ^ (e * d) mod n) mod n"
    by (simp add: power_mult_distrib power_mult mod_mult_right_eq)
  also have "\<dots> = m ^ d * r mod n" by (simp add: assms(2) mod_mult_right_eq)
  finally have "(m * (r ^ e mod n) mod n) ^ d mod n * i mod n = m ^ d * r * i mod n"
    by (simp add: mod_mult_left_eq)
  also have "\<dots> = m ^ d * (r * i mod n) mod n" by (simp add: mod_mult_right_eq mult.assoc)
  finally show ?thesis by (simp add: assms(3))
qed

lemma blind_loop_Some:
  assumes "blind_loop B pk m draws = Some req"
  obtains r i where "r \<in> set draws" "mod_inverse B r (rsa_n pk) = Some i" "0 \<le> i" "r_inv req = nat i" "msg req = m"
    "blinded req = m * modpow B r (rsa_e pk) (rsa_n pk) mod rsa_n pk"
proof -
  have "\<exists>r \<in> set draws. blind_with B pk m r = Some req"
    using assms by (induction draws) (auto split: option.splits)
  then show thesis using that by (auto simp: blind_with_def split: option.splits if_splits)
qed

lemma blind_loop_total:
  "blind_loop B pk m draws \<noteq> None \<longleftrightarrow> (\<exists>r \<in> set draws. blind_with B pk m r \<noteq> None)"
  by (induction draws) (auto split: option.splits)

lemma unblind_signature:
  assumes laws: "big_laws B" and key: "rsa_pair pk d" and b: "blind_loop B pk m draws = Some req" and m: "m < rsa_n pk"
  shows "\<exists>token < rsa_n pk. unblind_and_verify B pk req (blinded req ^ d mod rsa_n pk) = Inr token
    \<and> token ^ rsa_e pk mod rsa_n pk = m"
proof -
  let ?n = "rsa_n pk" and ?e = "rsa_e pk"
  obtain r i where r: "mod_inverse B r ?n = Some i" "0 \<le> i" "r_inv req = nat i" "msg req = m"
    "blinded req = m * modpow B r ?e ?n mod ?n"
    using b by (rule blind_loop_Some)
  have n: "1 < ?n" and rsa: "\<And>x. x ^ (?e * d) mod ?n = x mod ?n" using key by (simp_all add: rsa_pair_def)
  have pow: "modpow B a k ?n = a ^ k mod ?n" for a k using laws n by (simp add: big_laws_def)
  have tok: "blinded req ^ d mod ?n * r_inv req mod ?n = m ^ d mod ?n"
    using unblinded_power [OF n rsa mod_inverse_nat [OF laws r(1,2) n], of m] r by (simp add: pow)
  have "(m ^ d mod ?n) ^ ?e mod ?n = m ^ (?e * d) mod ?n"
    by (simp add: power_mod mult.commute flip: power_mult)
  then have "(m ^ d mod ?n) ^ ?e mod ?n = m" using rsa m by simp
  then show ?thesis
    using n r(4) by (intro exI [of _ "m ^ d mod ?n"]) (simp add: unblind_and_verify_def Let_def tok pow not_le)
qed

section \<open>Hexadecimal round trip\<close>

lemma hex_nibble_digit: "v < 16 \<Longrightarrow> hex_nibble (word_of_nat (of_char (token_nibble v))) = Inr (word_of_nat v)"
proof -
  assume "v < 16"
  then have "v = 0 \<or> v = 1 \<or> v = 2 \<or> v = 3 \<or> v = 4 \<or> v = 5 \<or> v = 6 \<or> v = 7 \<or> v = 8 \<or> v = 9 \<or> v = 10
    \<or> v = 11 \<or> v = 12 \<or> v = 13 \<or> v = 14 \<or> v = 15" by presburger
  then show ?thesis by (elim disjE) (simp_all add: token_nibble_def hex_nibble_def of_char_char_of_lt)
qed

lemma nibbles_byte: "push_bit 4 (word_of_nat (unat b div 16)) OR word_of_nat (unat b mod 16) = (b :: byte)"
proof -
  have "unat b div 16 < 256" by (rule le_less_trans [OF div_le_dividend]) simp
  then have "word_of_nat (unat b div 16) = drop_bit 4 b"
    by (simp add: word_unat_eq_iff drop_bit_eq_div unat_div_distrib unat_of_nat)
  moreover have "word_of_nat (unat b mod 16) = take_bit 4 b"
    by (simp add: word_unat_eq_iff take_bit_eq_mod unat_mod_distrib unat_of_nat)
  moreover have "push_bit 4 (drop_bit 4 b) OR take_bit 4 b = b" by (rule bit_eqI) (auto simp: bit_simps)
  ultimately show ?thesis by simp
qed

lemma hex_decode_lower: "hex_decode (hex_lower bs) = Inr bs"
proof -
  have "hex_decode_bytes (as_bytes (hex_lower bs)) = Inr bs"
  proof (induction bs)
    case (Cons b bs)
    have "unat b div 16 < 16" using unat_byte_lt [of b] by (simp add: less_mult_imp_div_less)
    then show ?case using Cons by (simp add: hex_lower_def as_bytes_def hex_nibble_digit nibbles_byte)
  qed (simp add: hex_lower_def as_bytes_def)
  moreover have "length (hex_lower bs) = 2 * length bs" by (induction bs) (simp_all add: hex_lower_def)
  ultimately show ?thesis by (simp add: hex_decode_def)
qed

section \<open>Wire form\<close>

lemma big_bits_unique: "big_laws B \<Longrightarrow> big_laws C \<Longrightarrow> big_bits B n = big_bits C n"
  by (meson big_laws_def le_antisym)

lemma token_to_wire_value: "big_laws B \<Longrightarrow> be_value (token_to_wire B token k) = token"
  by (simp add: token_to_wire_def Let_def big_laws_def)

lemma token_to_wire_length:
  assumes "big_laws B" "token < n" "1 < n"
  shows "length (token_to_wire B token (div_ceil (big_bits B n) 8)) = div_ceil (big_bits B n) 8"
proof -
  have "n < 2 ^ big_bits B n" using assms(1) by (simp add: big_laws_def)
  then have "token < 2 ^ big_bits B n" "big_bits B n \<noteq> 0" using assms(2,3) by (simp, metis less_one not_less_iff_gr_or_eq order_less_trans power_0)
  then have "big_bits B token \<le> big_bits B n" using assms(1) by (simp add: big_laws_def)
  moreover have "8 * length (to_bytes_be B token) < big_bits B token + 8 \<or> length (to_bytes_be B token) = 1"
    using assms(1) by (auto simp: big_laws_def)
  ultimately have "length (to_bytes_be B token) \<le> div_ceil (big_bits B n) 8"
    using \<open>big_bits B n \<noteq> 0\<close> unfolding div_ceil_def by linarith
  then show ?thesis by (simp add: token_to_wire_def Let_def)
qed

lemma issue_Inr:
  assumes "issue B sha joins json_signed post session pk m_raw draws = Some (Inr (m, wire))"
  obtains req token s where "blind B sha pk m_raw draws = Some req" "m = m_raw"
    "unblind_and_verify B pk req s = Inr token" "wire = token_to_wire B token (div_ceil (big_bits B (rsa_n pk)) 8)"
  using assms by (auto simp: issue_def result_simps split: option.splits)

section \<open>Issuance with an honest authority\<close>

lemma blinded_value:
  assumes "big_laws B" "1 < rsa_n pk" "blind_loop B pk m draws = Some req" "m mod rsa_n pk \<noteq> 0"
  shows "0 < blinded req \<and> blinded req < rsa_n pk"
proof -
  let ?n = "rsa_n pk" and ?e = "rsa_e pk"
  obtain r i where r: "mod_inverse B r ?n = Some i" "0 \<le> i" "blinded req = m * modpow B r ?e ?n mod ?n"
    using assms(3) by (rule blind_loop_Some)
  have "modpow B r ?e ?n = r ^ ?e mod ?n" using assms(1,2) by (simp add: big_laws_def)
  then have eq: "blinded req = m * r ^ ?e mod ?n" using r(3) by (simp add: mod_mult_right_eq)
  have "m * r ^ ?e * nat i ^ ?e mod ?n = m * ((r * nat i) ^ ?e mod ?n) mod ?n"
    by (simp add: mod_mult_right_eq power_mult_distrib mult.assoc)
  also have "(r * nat i) ^ ?e mod ?n = 1"
    using mod_inverse_nat [OF assms(1) r(1,2) assms(2)] power_mod [of "r * nat i" ?n ?e] assms(2) by simp
  finally have "blinded req * nat i ^ ?e mod ?n = m mod ?n" by (simp add: eq mod_mult_left_eq)
  then have "blinded req \<noteq> 0" using assms(4) by (metis mod_0 mult_0)
  then show ?thesis using assms(2) by (simp add: eq)
qed

lemma honest_issue:
  assumes "big_laws B" "rsa_pair pk d" "joins ''/api/v1/tokens/issue''"
    and "blind B sha pk m_raw draws = Some req" "be_value (sha m_raw) mod rsa_n pk \<noteq> 0"
    and "\<And>x. 0 < x \<Longrightarrow> x < rsa_n pk \<Longrightarrow> \<exists>body signed. post (jwt session) (hex_lower (to_bytes_be B x)) = Reply 200 (Some body)
      \<and> json_signed body = Some (hex_lower signed) \<and> be_value signed = x ^ d mod rsa_n pk"
  shows "\<exists>wire. issue B sha joins json_signed post session pk m_raw draws = Some (Inr (m_raw, wire))"
proof -
  let ?m = "be_value (sha m_raw) mod rsa_n pk"
  have laws: "from_bytes_be B x = be_value x" for x using assms(1) by (simp add: big_laws_def)
  have n: "1 < rsa_n pk" using assms(2) by (simp add: rsa_pair_def)
  have req: "blind_loop B pk ?m draws = Some req" using assms(4) by (simp add: blind_def laws)
  have "?m < rsa_n pk" using n by simp
  then obtain token where token: "unblind_and_verify B pk req (blinded req ^ d mod rsa_n pk) = Inr token"
    using unblind_signature [OF assms(1,2) req] by auto
  obtain body signed where "post (jwt session) (hex_lower (to_bytes_be B (blinded req))) = Reply 200 (Some body)"
    "json_signed body = Some (hex_lower signed)" "be_value signed = blinded req ^ d mod rsa_n pk"
    using assms(6) [of "blinded req"] blinded_value [OF assms(1) n req] assms(5) by auto
  then show ?thesis
    using assms(3,4) token
    by (simp add: issue_def join_url_def success_body_def is_success_def hex_decode_lower laws)
qed

text \<open>
  An instance for examples: the modulus \<open>2\<^sup>2\<^sup>5\<^sup>6 + 1\<close> with both exponents 1, the draw \<open>2\<^sup>2\<^sup>5\<^sup>5 + 1\<close> whose
  inverse is 2, and an authority that signs with the exponent 1, which is to echo.
\<close>

definition sample_key :: RsaPublicKey where
  "sample_key = \<lparr>rsa_n = 2 ^ 256 + 1, rsa_e = 1\<rparr>"

definition sample_big :: big_ops where
  "sample_big = big_model\<lparr>mod_inverse := \<lambda>r n. if r * 2 mod n = 1 mod n then Some 2 else None\<rparr>"

definition sample_sha :: "bytes \<Rightarrow> bytes" where
  "sample_sha b = replicate 31 0 @ [5]"

definition echo_post :: "string \<Rightarrow> string \<Rightarrow> api_reply" where
  "echo_post session h = Reply 200 (Some h)"

lemma sample_big_laws: "big_laws sample_big"
proof -
  have "int r * 2 mod int n = 1 mod int n" if "r * 2 mod n = 1 mod n" for r n
    using that by (metis of_nat_1 of_nat_mod of_nat_mult of_nat_numeral)
  then show ?thesis using big_model_laws by (auto simp: big_laws_def sample_big_def)
qed

lemma sample_blind: "\<exists>req. blind sample_big sample_sha sample_key m_raw [2 ^ 255 + 1] = Some req"
  by (simp add: blind_def blind_with_def sample_big_def sample_key_def)

lemma sample_rsa_pair: "rsa_pair sample_key 1"
  by (simp add: rsa_pair_def sample_key_def)

definition sample_json_signed :: "string \<Rightarrow> string option" where
  "sample_json_signed body = (case hex_decode body of Inl e \<Rightarrow> None
     | Inr b \<Rightarrow> Some (hex_lower (to_bytes_be sample_big (be_value b mod rsa_n sample_key))))"

lemma sample_digest: "be_value (sample_sha b) = 5"
proof -
  have "be_value (sample_sha b) = be_value [5]" unfolding sample_sha_def by (rule be_value_zeros)
  then show ?thesis by (simp add: be_value_def)
qed

lemma sample_issues:
  "\<exists>wire. issue sample_big sample_sha (\<lambda>_. True) sample_json_signed echo_post \<lparr>jwt = ''j''\<rparr> sample_key [7] [0, 2 ^ 255 + 1]
     = Some (Inr ([7], wire))"
proof -
  obtain req where req: "blind sample_big sample_sha sample_key [7] [0, 2 ^ 255 + 1] = Some req"
    by (simp add: blind_def blind_with_def sample_big_def sample_key_def)
  show ?thesis
  proof (rule honest_issue [OF sample_big_laws sample_rsa_pair _ req])
    show "be_value (sample_sha [7]) mod rsa_n sample_key \<noteq> 0" by (simp add: sample_digest sample_key_def)
    fix x assume "0 < x" "x < rsa_n sample_key"
    moreover have "be_value (to_bytes_be sample_big k) = k" for k using sample_big_laws by (simp add: big_laws_def)
    ultimately show "\<exists>body signed. echo_post (jwt \<lparr>jwt = ''j''\<rparr>) (hex_lower (to_bytes_be sample_big x)) = Reply 200 (Some body)
        \<and> sample_json_signed body = Some (hex_lower signed) \<and> be_value signed = x ^ 1 mod rsa_n sample_key"
      by (auto simp: echo_post_def sample_json_signed_def hex_decode_lower)
  qed simp
qed

section \<open>Acceptance by the guard\<close>

lemma kept_token_accepted:
  assumes "big_laws B" "big_laws R" "2 ^ 256 \<le> rsa_n pk" "length (sha m_raw) = 32"
    and "issue B sha joins json_signed post session pk m_raw draws = Some (Inr (m, wire))"
    and "fresh_token sha now wire w"
  shows "m = m_raw \<and> length wire = div_ceil (big_bits R (rsa_n pk)) 8
    \<and> fst (token_verify R sha now m wire pk w) = Inr ()"
proof -
  obtain req token s where b: "blind B sha pk m_raw draws = Some req" and m: "m = m_raw"
    and u: "unblind_and_verify B pk req s = Inr token"
    and wire: "wire = token_to_wire B token (div_ceil (big_bits B (rsa_n pk)) 8)"
    using assms(5) by (rule issue_Inr)
  have "be_value (sha m_raw) < 256 ^ 32" using be_value_lt [of "sha m_raw"] assms(4) by simp
  also have "(256 :: nat) ^ 32 = 2 ^ 256" by simp
  also have "\<dots> \<le> rsa_n pk" by (rule assms(3))
  finally have digest: "be_value (sha m_raw) mod rsa_n pk = be_value (sha m_raw)" by simp
  have n: "1 < rsa_n pk" using assms(3) by (rule less_le_trans [rotated]) simp
  have "msg req = be_value (sha m_raw)"
    using b assms(1) digest by (auto simp: blind_def big_laws_def elim: blind_loop_Some)
  moreover have "modpow B token (rsa_e pk) (rsa_n pk) = token ^ rsa_e pk mod rsa_n pk"
    using assms(1) n by (simp add: big_laws_def)
  ultimately have tok: "token < rsa_n pk" "token ^ rsa_e pk mod rsa_n pk = be_value (sha m_raw)"
    using u n by (auto simp: unblind_and_verify_def Let_def split: if_splits)
  have "length wire = div_ceil (big_bits R (rsa_n pk)) 8"
    using token_to_wire_length [OF assms(1) tok(1) n] wire big_bits_unique [OF assms(1,2)] by simp
  moreover have "be_value wire = token" by (simp add: wire token_to_wire_value [OF assms(1)])
  ultimately have "signed_token R sha pk m wire" using tok m by (simp add: signed_token_def)
  then show ?thesis
    using assms(6) m \<open>length wire = _\<close> by (simp add: token_verify_cases [OF assms(2)])
qed

section \<open>Properties\<close>

text \<open>
  C39: A token the client keeps is one the guard accepts, whatever the authority answered. If \<^verbatim>\<open>issue\<close>
  returns a preimage and a token then, for a modulus above 256 bits and a 32-byte digest, the token
  has exactly the length of the modulus and the guard's \<^verbatim>\<open>verify\<close>, with the same public key and its
  own big-integer library, accepts the pair unless the token's hash is in the replay window. A
  malformed, oversized or wrong signature never leaves the client.
\<close>

theorem issued_token_accepted_by_guard:
  assumes "big_laws B" "big_laws R" "2 ^ 256 \<le> rsa_n pk" "length (sha m_raw) = 32"
    and "issue B sha joins json_signed post session pk m_raw draws = Some (Inr (m, wire))"
    and "fresh_token sha now wire w"
  shows "m = m_raw \<and> length wire = div_ceil (big_bits R (rsa_n pk)) 8
    \<and> fst (token_verify R sha now m wire pk w) = Inr ()"
  using assms by (rule kept_token_accepted)

theorem issued_token_accepted_by_guard_witness:
  "\<exists>wire. issue sample_big sample_sha (\<lambda>_. True) sample_json_signed echo_post \<lparr>jwt = ''j''\<rparr> sample_key [7] [0, 2 ^ 255 + 1]
      = Some (Inr ([7], wire))
    \<and> fst (token_verify big_model sample_sha 9 [7] wire sample_key (window_new 60)) = Inr ()"
proof -
  obtain wire where wire: "issue sample_big sample_sha (\<lambda>_. True) sample_json_signed echo_post \<lparr>jwt = ''j''\<rparr> sample_key [7]
      [0, 2 ^ 255 + 1] = Some (Inr ([7], wire))"
    using sample_issues by blast
  moreover have "2 ^ 256 \<le> rsa_n sample_key" "length (sample_sha [7]) = 32" "fresh_token sample_sha 9 wire (window_new 60)"
    by (simp_all add: sample_key_def sample_sha_def fresh_token_def window_new_def)
  ultimately show ?thesis
    using issued_token_accepted_by_guard [OF sample_big_laws big_model_laws] by blast
qed



end
