(* ===== verification/Effects.thy ===== *)
theory Effects
  imports Frames
begin

text \<open>
  The input and output that the connection handlers perform. A handler is a procedure from an
  I/O state to a result and the next I/O state. The state holds how the coming writes and flushes
  will end (an exhausted list means that they succeed) and the trace of what the handler has
  done. A write is in the trace once it has been attempted, so a property of the trace also
  covers the bytes of a write that fails half way.
\<close>

section \<open>Procedures\<close>

record 'a io =
  io_outcomes :: "IoError option list"
  io_trace :: "'a list"

type_synonym ('a, 'e, 'v) proc = "'a io \<Rightarrow> ('e + 'v) \<times> 'a io"

definition lift :: "('e + 'v) \<Rightarrow> ('a, 'e, 'v) proc" where
  "lift r s = (r, s)"

definition bind :: "('a, 'e, 'v) proc \<Rightarrow> ('v \<Rightarrow> ('a, 'e, 'w) proc) \<Rightarrow> ('a, 'e, 'w) proc" where
  "bind p f s = (case p s of (Inl e, s') \<Rightarrow> (Inl e, s') | (Inr v, s') \<Rightarrow> f v s')"

definition note_io :: "'a \<Rightarrow> ('a, 'e, unit) proc" where
  "note_io a s = (Inr (), s\<lparr>io_trace := io_trace s @ [a]\<rparr>)"

text \<open>The next write or flush ends as the state says.\<close>

definition next_outcome :: "(IoError \<Rightarrow> 'e) \<Rightarrow> ('a, 'e, unit) proc" where
  "next_outcome err s =
     (case io_outcomes s of
        [] \<Rightarrow> (Inr (), s)
      | None # rest \<Rightarrow> (Inr (), s\<lparr>io_outcomes := rest\<rparr>)
      | Some e # rest \<Rightarrow> (Inl (err e), s\<lparr>io_outcomes := rest\<rparr>))"

definition write_all :: "(IoError \<Rightarrow> 'e) \<Rightarrow> 'a \<Rightarrow> ('a, 'e, unit) proc" where
  "write_all err a = bind (note_io a) (\<lambda>_. next_outcome err)"

definition flush :: "(IoError \<Rightarrow> 'e) \<Rightarrow> ('a, 'e, unit) proc" where
  "flush err = next_outcome err"

definition map_err_io :: "('e \<Rightarrow> 'f) \<Rightarrow> ('a, 'e, 'v) proc \<Rightarrow> ('a, 'f, 'v) proc" where
  "map_err_io h p s = (case p s of (r, s') \<Rightarrow> (map_err h r, s'))"

text \<open>
  \<open>emits P Q p\<close>: whatever the outcomes, \<open>p\<close> only appends actions that satisfy \<open>P\<close> to the trace,
  and a value it returns satisfies \<open>Q\<close>.
\<close>

definition emits :: "('a \<Rightarrow> bool) \<Rightarrow> ('v \<Rightarrow> bool) \<Rightarrow> ('a, 'e, 'v) proc \<Rightarrow> bool" where
  "emits P Q p \<longleftrightarrow> (\<forall>s r s'. p s = (r, s') \<longrightarrow>
     (\<exists>new. io_trace s' = io_trace s @ new \<and> list_all P new) \<and> (\<forall>v. r = Inr v \<longrightarrow> Q v))"

lemma emitsD:
  assumes "emits P Q p" "p s = (r, s')"
  shows "\<exists>new. io_trace s' = io_trace s @ new \<and> list_all P new" "r = Inr v \<Longrightarrow> Q v"
  using assms by (auto simp: emits_def)

lemma emits_lift: "(\<And>v. r = Inr v \<Longrightarrow> Q v) \<Longrightarrow> emits P Q (lift r)"
  by (auto simp: emits_def lift_def)

lemma emits_bind:
  assumes "emits P Q p" "\<And>v. Q v \<Longrightarrow> emits P R (f v)"
  shows "emits P R (bind p f)"
  unfolding emits_def
proof (intro allI impI)
  fix s r s' assume run: "bind p f s = (r, s')"
  obtain x s1 where p: "p s = (x, s1)" by (cases "p s")
  obtain new where new: "io_trace s1 = io_trace s @ new" "list_all P new"
    using emitsD(1) [OF assms(1) p] by blast
  show "(\<exists>new. io_trace s' = io_trace s @ new \<and> list_all P new) \<and> (\<forall>v. r = Inr v \<longrightarrow> R v)"
  proof (cases x)
    case (Inl e)
    with run p new show ?thesis by (auto simp: bind_def)
  next
    case (Inr v)
    then have f: "f v s1 = (r, s')" using run p by (simp add: bind_def)
    have "emits P R (f v)" using assms(2) emitsD(2) [OF assms(1) p Inr] .
    from emitsD [OF this f] new show ?thesis
      by (metis append_assoc list_all_append)
  qed
qed

lemma emits_note: "P a \<Longrightarrow> emits P (\<lambda>_. True) (note_io a)"
  by (auto simp: emits_def note_io_def)

lemma emits_next_outcome: "emits P (\<lambda>_. True) (next_outcome err)"
  by (auto simp: emits_def next_outcome_def split: list.splits option.splits)

lemma emits_write_all: "P a \<Longrightarrow> emits P (\<lambda>_. True) (write_all err a)"
  unfolding write_all_def by (rule emits_bind [OF emits_note]) (simp_all add: emits_next_outcome)

lemma emits_flush: "emits P (\<lambda>_. True) (flush err)"
  unfolding flush_def by (rule emits_next_outcome)

lemma emits_map_err: "emits P Q p \<Longrightarrow> emits P Q (map_err_io h p)"
  by (fastforce simp: emits_def map_err_io_def result_simps split: prod.splits)

lemma emits_weaken:
  assumes "emits P Q p" "\<And>a. P a \<Longrightarrow> P' a" "\<And>v. Q v \<Longrightarrow> Q' v"
  shows "emits P' Q' p"
  using assms unfolding emits_def by (metis (mono_tags, lifting) list_all_iff)

lemma emits_if: "(c \<Longrightarrow> emits P Q p) \<Longrightarrow> (\<not> c \<Longrightarrow> emits P Q q) \<Longrightarrow> emits P Q (if c then p else q)"
  by simp

lemma emits_if_fun:
  "(c \<Longrightarrow> emits P Q p) \<Longrightarrow> (\<not> c \<Longrightarrow> emits P Q q) \<Longrightarrow> emits P Q (\<lambda>s. if c then p s else q s)"
  by (cases c) simp_all

lemma emits_bind_lift: "(\<And>v. r = Inr v \<Longrightarrow> emits P R (f v)) \<Longrightarrow> emits P R (bind (lift r) f)"
  by (rule emits_bind [where Q = "\<lambda>v. r = Inr v"]) (auto intro: emits_lift)

lemma emits_bind_any:
  "emits P (\<lambda>_. True) p \<Longrightarrow> (\<And>v. emits P R (f v)) \<Longrightarrow> emits P R (bind p f)"
  by (rule emits_bind [where Q = "\<lambda>_. True"])

text \<open>The rules in the order in which they are to be tried.\<close>

lemmas emit_rules = emits_bind_lift emits_bind_any emits_lift emits_write_all emits_flush emits_note
  emits_map_err emits_if emits_if_fun

text \<open>When no write fails, the procedures run through.\<close>

definition quiet :: "'a list \<Rightarrow> 'a io" where
  "quiet tr = \<lparr>io_outcomes = [], io_trace = tr\<rparr>"

lemma quiet_runs [simp]:
  "write_all err a (quiet tr) = (Inr (), quiet (tr @ [a]))"
  "flush err (quiet tr) = (Inr (), quiet tr)"
  "note_io a (quiet tr) = (Inr (), quiet (tr @ [a]))"
  by (simp_all add: write_all_def flush_def bind_def note_io_def next_outcome_def quiet_def)

lemma bind_lift [simp]:
  "bind (lift (Inr v)) f = f v" "bind (lift (Inl e)) f = lift (Inl e)"
  by (simp_all add: bind_def lift_def fun_eq_iff)

lemma io_trace_quiet [simp]: "io_trace (quiet tr) = tr"
  by (simp add: quiet_def)

section \<open>Reading an exact number of bytes\<close>

text \<open>
  \<^verbatim>\<open>read_exact\<close> on a stream of arrivals. It stays pending when the arrivals run out before the
  buffer is full; under a timeout that is where the timer fires.
\<close>

function read_exact :: "nat \<Rightarrow> arrival list \<Rightarrow> bytes poll \<times> arrival list" where
  "read_exact n inner =
     (if n = 0 then (Ready [], inner)
      else case read_some n inner of
        (Pending, inner') \<Rightarrow> (Pending, inner')
      | (Failed e, inner') \<Rightarrow> (Failed e, inner')
      | (Ready got, inner') \<Rightarrow>
          if got = [] then (Failed UnexpectedEof, inner')
          else (case read_exact (n - length got) inner' of
                  (Ready tail, inner'') \<Rightarrow> (Ready (got @ tail), inner'')
                | (Failed e, inner'') \<Rightarrow> (Failed e, inner'')
                | (Pending, inner'') \<Rightarrow> (Pending, inner'')))"
  by pat_completeness auto
termination
  by (relation "measure fst") auto

declare read_exact.simps [simp del]

lemma read_exact_Ready:
  "read_exact n inner = (Ready bs, inner') \<Longrightarrow> length bs = n \<and> inner_bytes inner = bs @ inner_bytes inner'"
proof (induction n inner arbitrary: bs inner' rule: read_exact.induct)
  case (1 n inner)
  show ?case
  proof (cases "n = 0")
    case True
    with "1.prems" show ?thesis by (simp add: read_exact.simps)
  next
    case False
    with "1.prems" obtain got inner1 tail where
      got: "read_some n inner = (Ready got, inner1)" "got \<noteq> []" and
      tail: "read_exact (n - length got) inner1 = (Ready tail, inner')" "bs = got @ tail"
      by (subst (asm) read_exact.simps) (auto split: prod.splits poll.splits if_splits)
    from "1.IH" [OF False got(1) [symmetric] refl got(2) tail(1)] read_some_Ready [OF got(1)] tail(2)
    show ?thesis by auto
  qed
qed

lemma read_exact_chunk [simp]:
  assumes "length bs = n" "0 < n"
  shows "read_exact n (Chunk (bs @ xs) # rest) = (Ready bs, if xs = [] then rest else Chunk xs # rest)"
  using assms by (subst read_exact.simps) (auto simp: read_exact.simps [of 0])

end
