(* ===== verification/Dialer.thy ===== *)
theory Dialer
  imports Path_Select Effects
begin

text \<open>
  The client's circuit dialer (\<^verbatim>\<open>client/src/dial.rs\<close>) and its TLS dial (\<^verbatim>\<open>client/src/tls.rs\<close>): three
  telescoping handshakes, the CONNECT cell, and the task that carries bytes between the user and
  the guard. None of the dialer's reads has a timeout, so one whose bytes never come waits for
  ever, which is the outcome \<open>Hangs\<close>.
\<close>

section \<open>Layers\<close>

definition CLIENT_LAYERS :: nat where [wire_defs]: "CLIENT_LAYERS = 3"

definition USER_READ_BUF :: nat where
  "USER_READ_BUF = CELL_PAYLOAD_LEN * 32"

record 't HopLayers =
  ly_guard :: 't
  ly_middle :: 't
  ly_exit :: 't

definition seal_for_exit :: "('t, 'm) transport_ops_scheme \<Rightarrow> 't HopLayers \<Rightarrow> Cell \<Rightarrow> (ClientError + bytes) \<times> 't HopLayers" where
  "seal_for_exit S L cell =
     (case seal_to_me S (ly_exit L) cell 1 of
        (Inl e, x) \<Rightarrow> (Inl (CLayer e), L\<lparr>ly_exit := x\<rparr>)
      | (Inr inner, x) \<Rightarrow>
          (case seal_forward S (ly_middle L) inner (CLIENT_LAYERS - 1) of
             (Inl e, m) \<Rightarrow> (Inl (CLayer e), L\<lparr>ly_exit := x, ly_middle := m\<rparr>)
           | (Inr mid, m) \<Rightarrow>
               (case seal_forward S (ly_guard L) mid CLIENT_LAYERS of
                  (r, g) \<Rightarrow> (map_err CLayer r, L\<lparr>ly_exit := x, ly_middle := m, ly_guard := g\<rparr>))))"

definition peel_inbound :: "('t, 'm) transport_ops_scheme \<Rightarrow> 't HopLayers \<Rightarrow> bytes \<Rightarrow> (ClientError + Cell) \<times> 't HopLayers" where
  "peel_inbound S L wire =
     (case peel S (ly_guard L) wire CLIENT_LAYERS of
        (Inl e, g) \<Rightarrow> (Inl (CLayer e), L\<lparr>ly_guard := g\<rparr>)
      | (Inr (ToMe cell), g) \<Rightarrow> (Inr cell, L\<lparr>ly_guard := g\<rparr>)
      | (Inr (Forward blob), g) \<Rightarrow>
          (case peel S (ly_middle L) blob (CLIENT_LAYERS - 1) of
             (Inl e, m) \<Rightarrow> (Inl (CLayer e), L\<lparr>ly_guard := g, ly_middle := m\<rparr>)
           | (Inr (ToMe cell), m) \<Rightarrow> (Inr cell, L\<lparr>ly_guard := g, ly_middle := m\<rparr>)
           | (Inr (Forward blob), m) \<Rightarrow>
               (case peel S (ly_exit L) blob 1 of
                  (Inl e, x) \<Rightarrow> (Inl (CLayer e), L\<lparr>ly_guard := g, ly_middle := m, ly_exit := x\<rparr>)
                | (Inr (ToMe cell), x) \<Rightarrow> (Inr cell, L\<lparr>ly_guard := g, ly_middle := m, ly_exit := x\<rparr>)
                | (Inr (Forward _), x) \<Rightarrow>
                    (Inl (UnexpectedCell Data), L\<lparr>ly_guard := g, ly_middle := m, ly_exit := x\<rparr>))))"

section \<open>Dialing\<close>

datatype client_action =
    ToGuard bytes
  | ToUser bytes
  | GuardTcp SocketAddr
  | GuardHello SocketAddr string
  | ShutdownGuard
  | ShutdownUser

datatype stop = Fails ClientError | Hangs

record client_net =
  cn_tcp_connect :: "SocketAddr \<Rightarrow> IoError option"
  cn_nodelay :: "SocketAddr \<Rightarrow> IoError option"
  cn_server_name :: "string \<Rightarrow> bool"
  cn_tls :: "SocketAddr \<Rightarrow> string \<Rightarrow> IoError + arrival list"

definition io_fails :: "IoError option \<Rightarrow> stop + unit" where
  "io_fails x = (case x of None \<Rightarrow> Inr () | Some e \<Rightarrow> Inl (Fails (CIo e)))"

definition client_dial_tls :: "client_net \<Rightarrow> SocketAddr \<Rightarrow> string \<Rightarrow> (client_action, stop, arrival list) proc" where
  "client_dial_tls N addr sni =
     bind (note_io (GuardTcp addr)) (\<lambda>_.
     bind (lift (io_fails (cn_tcp_connect N addr))) (\<lambda>_.
     bind (lift (io_fails (cn_nodelay N addr))) (\<lambda>_.
     bind (lift (if cn_server_name N sni then Inr () else Inl (Fails (InvalidServerName sni)))) (\<lambda>_.
     bind (note_io (GuardHello addr sni)) (\<lambda>_.
       lift (map_err (\<lambda>e. Fails (CIo e)) (cn_tls N addr sni)))))))"

definition await_exact :: "nat \<Rightarrow> arrival list \<Rightarrow> stop + bytes \<times> arrival list" where
  "await_exact n inn =
     (case read_exact n inn of
        (Ready bs, rest) \<Rightarrow> Inr (bs, rest)
      | (Failed e, _) \<Rightarrow> Inl (Fails (CIo e))
      | (Pending, _) \<Rightarrow> Inl Hangs)"

text \<open>\<open>extend_hop\<close> in two halves: the request it sends and what it makes of the reply.\<close>

definition extend_request :: "('b, 'h, 't) snow \<Rightarrow> nat \<Rightarrow> 't \<Rightarrow> 't option \<Rightarrow> RelayEntry \<Rightarrow>
    ClientError + 'h \<times> bytes \<times> 't \<times> 't option" where
  "extend_request S seed g mid nxt =
     and_then (map_err CRegistry (static_key nxt)) (\<lambda>key.
     and_then (map_err CNoise (initiator_start S seed key)) (\<lambda>(init, msg1).
     and_then (map_err CRegistry (entry_addr nxt)) (\<lambda>addr.
     and_then (map_err CCell (cell_new Extend (extend_encode \<lparr>next_hop = addr, noise_msg1 = msg1\<rparr>))) (\<lambda>cell.
       case mid of
         None \<Rightarrow>
           (case seal_to_me S g cell CLIENT_LAYERS of
              (r, g') \<Rightarrow> and_then (map_err CLayer r) (\<lambda>wire. Inr (init, wire, g', None)))
       | Some m \<Rightarrow>
           (case seal_to_me S m cell (CLIENT_LAYERS - 1) of
              (r, m') \<Rightarrow>
                and_then (map_err CLayer r) (\<lambda>inner.
                  case seal_forward S g inner CLIENT_LAYERS of
                    (r, g') \<Rightarrow> and_then (map_err CLayer r) (\<lambda>wire. Inr (init, wire, g', Some m'))))))))"

definition extend_reply :: "('b, 'h, 't) snow \<Rightarrow> 'h \<Rightarrow> 't \<Rightarrow> 't option \<Rightarrow> bytes \<Rightarrow> ClientError + 't \<times> 't \<times> 't option" where
  "extend_reply S init g mid back =
     (case peel S g back CLIENT_LAYERS of
        (r, g') \<Rightarrow>
          and_then (map_err CLayer r) (\<lambda>peeled.
          and_then
            (case (peeled, mid) of
               (ToMe c, None) \<Rightarrow> Inr (c, None)
             | (Forward blob, Some m) \<Rightarrow>
                 (case peel S m blob (CLIENT_LAYERS - 1) of
                    (r, m') \<Rightarrow>
                      and_then (map_err CLayer r) (\<lambda>peeled.
                        case peeled of ToMe c \<Rightarrow> Inr (c, Some m') | Forward _ \<Rightarrow> Inl (UnexpectedCell Extend)))
             | (ToMe c, Some _) \<Rightarrow> Inl (UnexpectedCell (cell_type c))
             | (Forward _, None) \<Rightarrow> Inl (UnexpectedCell Extend)) (\<lambda>(reply, mid').
          if cell_type reply \<noteq> Extend then Inl (UnexpectedCell (cell_type reply))
          else
            and_then (map_err CCell (parse_extend_backward (payload reply))) (\<lambda>msg2.
            and_then (map_err CNoise (initiator_finish S init msg2)) (\<lambda>t. Inr (t, g', mid'))))))"

definition extend_hop :: "('b, 'h, 't) snow \<Rightarrow> nat \<Rightarrow> 't \<Rightarrow> 't option \<Rightarrow> RelayEntry \<Rightarrow> arrival list \<Rightarrow>
    (client_action, stop, 't \<times> 't \<times> 't option \<times> arrival list) proc" where
  "extend_hop S seed g mid nxt inn =
     bind (lift (map_err Fails (extend_request S seed g mid nxt))) (\<lambda>(init, wire, g, mid).
     bind (write_all (\<lambda>e. Fails (CIo e)) (ToGuard wire)) (\<lambda>_.
     bind (flush (\<lambda>e. Fails (CIo e))) (\<lambda>_.
     bind (lift (await_exact (link_cell_len CLIENT_LAYERS) inn)) (\<lambda>(back, inn).
     bind (lift (map_err Fails (extend_reply S init g mid back))) (\<lambda>(t, g, mid).
       lift (Inr (t, g, mid, inn)))))))"

record 't circuit_task_state =
  ct_layers :: "'t HopLayers"
  ct_inbound :: FrameReader
  ct_user :: "arrival list"

definition dial :: "('b, 'h, 't) snow \<Rightarrow> nat \<times> nat \<times> nat \<Rightarrow> client_net \<Rightarrow> SelectedPath \<Rightarrow> bytes \<Rightarrow> bytes \<Rightarrow> string \<Rightarrow> u16 \<Rightarrow>
    (client_action, stop, 't circuit_task_state) proc" where
  "dial S seeds N route m_raw token dest_host dest_port =
     (let (seed1, seed2, seed3) = seeds; io_err = (\<lambda>e. Fails (CIo e)) in
      bind (lift (map_err (\<lambda>e. Fails (CRegistry e)) (entry_addr (guard route)))) (\<lambda>guard_addr.
      bind (lift (map_err (\<lambda>e. Fails (CRegistry e)) (static_key (guard route)))) (\<lambda>guard_key.
      bind (client_dial_tls N guard_addr (tls_name (guard route))) (\<lambda>inn.
      bind (write_all io_err (ToGuard [PROTO_CLIENT])) (\<lambda>_.
      bind (write_all io_err (ToGuard m_raw)) (\<lambda>_.
      bind (write_all io_err (ToGuard token)) (\<lambda>_.
      bind (lift (map_err (\<lambda>e. Fails (CNoise e)) (initiator_start S seed1 guard_key))) (\<lambda>(init, msg1).
      bind (write_all io_err (ToGuard msg1)) (\<lambda>_.
      bind (flush io_err) (\<lambda>_.
      bind (lift (await_exact NOISE_MSG_LEN inn)) (\<lambda>(msg2, inn).
      bind (lift (map_err (\<lambda>e. Fails (CNoise e)) (initiator_finish S init msg2))) (\<lambda>g.
      bind (extend_hop S seed2 g None (middle route) inn) (\<lambda>(m, g, _, inn).
      bind (extend_hop S seed3 g (Some m) (exit route) inn) (\<lambda>(x, g, mid, inn).
      let L = \<lparr>ly_guard = g, ly_middle = the mid, ly_exit = x\<rparr> in
      bind (lift (map_err (\<lambda>e. Fails (CCell e)) (connect_encode \<lparr>connect_host = dest_host, connect_port = dest_port\<rparr>))) (\<lambda>body.
      bind (lift (map_err (\<lambda>e. Fails (CCell e)) (cell_new Connect body))) (\<lambda>cell.
      case seal_for_exit S L cell of
        (r, L) \<Rightarrow>
          bind (lift (map_err Fails r)) (\<lambda>wire.
          bind (write_all io_err (ToGuard wire)) (\<lambda>_.
          bind (flush io_err) (\<lambda>_.
            lift (Inr \<lparr>ct_layers = L, ct_inbound = reader_new inn (link_cell_len CLIENT_LAYERS), ct_user = []\<rparr>))))))))))))))))))))"

section \<open>The circuit task\<close>

text \<open>
  Both branches of the loop and the teardown. Leaving the loop is the error side of a branch and
  carries the layers, which the teardown still seals with. A write or flush that fails leaves the
  loop; in the teardown it is ignored.
\<close>

fun send_user_chunks :: "('t, 'm) transport_ops_scheme \<Rightarrow> 't HopLayers \<Rightarrow> bytes list \<Rightarrow>
    (client_action, 't HopLayers, 't HopLayers) proc" where
  "send_user_chunks S L [] = lift (Inr L)"
| "send_user_chunks S L (chunk # rest) =
     bind (lift (map_err (\<lambda>_. L) (cell_new Data chunk))) (\<lambda>cell.
       case seal_for_exit S L cell of
         (r, L') \<Rightarrow>
           bind (lift (map_err (\<lambda>_. L') r)) (\<lambda>wire.
           bind (write_all (\<lambda>_. L') (ToGuard wire)) (\<lambda>_. send_user_chunks S L' rest)))"

definition user_turn :: "('t, 'm) transport_ops_scheme \<Rightarrow> 't circuit_task_state \<Rightarrow>
    (client_action, 't HopLayers, 't circuit_task_state) proc" where
  "user_turn S c =
     (case read_some USER_READ_BUF (ct_user c) of
        (Pending, _) \<Rightarrow> lift (Inr c)
      | (Failed _, _) \<Rightarrow> lift (Inl (ct_layers c))
      | (Ready bs, rest) \<Rightarrow>
          if bs = [] then lift (Inl (ct_layers c))
          else
            bind (send_user_chunks S (ct_layers c) (chunks CELL_PAYLOAD_LEN bs)) (\<lambda>L.
            bind (flush (\<lambda>_. L)) (\<lambda>_. lift (Inr (c\<lparr>ct_layers := L, ct_user := rest\<rparr>)))))"

definition frame_turn :: "('t, 'm) transport_ops_scheme \<Rightarrow> 't circuit_task_state \<Rightarrow>
    (client_action, 't HopLayers, 't circuit_task_state) proc" where
  "frame_turn S c =
     (case reader_next (ct_inbound c) of
        (Pending, r) \<Rightarrow> lift (Inr (c\<lparr>ct_inbound := r\<rparr>))
      | (Failed _, _) \<Rightarrow> lift (Inl (ct_layers c))
      | (Ready frame, r) \<Rightarrow>
          (case peel_inbound S (ct_layers c) frame of
             (Inl _, L) \<Rightarrow> lift (Inl L)
           | (Inr cell, L) \<Rightarrow>
               (case cell_type cell of
                  Data \<Rightarrow>
                    if payload cell = [] then lift (Inr (c\<lparr>ct_inbound := r, ct_layers := L\<rparr>))
                    else bind (write_all (\<lambda>_. L) (ToUser (payload cell))) (\<lambda>_.
                      lift (Inr (c\<lparr>ct_inbound := r, ct_layers := L\<rparr>)))
                | _ \<Rightarrow> lift (Inl L))))"

definition attempt :: "('a, 'e, unit) proc \<Rightarrow> 'a io \<Rightarrow> 'a io" where
  "attempt p s = snd (p s)"

definition teardown :: "('t, 'm) transport_ops_scheme \<Rightarrow> 't HopLayers \<Rightarrow> client_action io \<Rightarrow> client_action io" where
  "teardown S L s =
     (let s = (case cell_new CloseRequest [] of
                 Inl _ \<Rightarrow> s
               | Inr cell \<Rightarrow>
                   (case seal_for_exit S L cell of
                      (Inl _, _) \<Rightarrow> s
                    | (Inr wire, _) \<Rightarrow>
                        attempt (flush id) (attempt (write_all id (ToGuard wire)) s)));
          s = attempt (write_all id ShutdownGuard) s
      in attempt (write_all id ShutdownUser) s)"

datatype task_event = GuardSends arrival | UserSends arrival | UserTurn | FrameTurn

fun circuit_task :: "('t, 'm) transport_ops_scheme \<Rightarrow> task_event list \<Rightarrow> 't circuit_task_state \<Rightarrow> client_action io \<Rightarrow>
    't circuit_task_state option \<times> client_action io" where
  "circuit_task S [] c s = (Some c, s)"
| "circuit_task S (GuardSends a # es) c s =
     circuit_task S es (c\<lparr>ct_inbound := (ct_inbound c)\<lparr>fr_inner := fr_inner (ct_inbound c) @ [a]\<rparr>\<rparr>) s"
| "circuit_task S (UserSends a # es) c s = circuit_task S es (c\<lparr>ct_user := ct_user c @ [a]\<rparr>) s"
| "circuit_task S (UserTurn # es) c s =
     (case user_turn S c s of (Inl L, s') \<Rightarrow> (None, teardown S L s') | (Inr c', s') \<Rightarrow> circuit_task S es c' s')"
| "circuit_task S (FrameTurn # es) c s =
     (case frame_turn S c s of (Inl L, s') \<Rightarrow> (None, teardown S L s') | (Inr c', s') \<Rightarrow> circuit_task S es c' s')"

end
