(* ===== verification/Rust_Text.thy ===== *)
theory Rust_Text
  imports Prelude
begin

text \<open>
  The operations of \<^verbatim>\<open>str\<close> that the configuration and protocol parsers use: trimming Unicode
  white space, splitting at separator characters, ASCII case folding and decimal printing. A
  string is its UTF-8 byte sequence, so a white-space character is one to three bytes.
\<close>

section \<open>White space\<close>

definition white_chars :: "string list" where
  "white_chars = map (map char_of :: nat list \<Rightarrow> string)
     ([[9], [10], [11], [12], [13], [32], [0xC2, 0x85], [0xC2, 0xA0], [0xE1, 0x9A, 0x80]]
      @ map (\<lambda>b. [0xE2, 0x80, b]) [0x80..<0x8B]
      @ [[0xE2, 0x80, 0xA8], [0xE2, 0x80, 0xA9], [0xE2, 0x80, 0xAF], [0xE2, 0x81, 0x9F], [0xE3, 0x80, 0x80]])"

definition leading :: "'a list list \<Rightarrow> 'a list \<Rightarrow> 'a list option" where
  "leading ws s = find (\<lambda>w. w \<noteq> [] \<and> take (length w) s = w) ws"

lemma leading_Some: "leading ws s = Some w \<Longrightarrow> w \<in> set ws \<and> w \<noteq> [] \<and> s = w @ drop (length w) s"
  by (auto simp: leading_def find_Some_iff) (metis append_take_drop_id)

function strip_leading :: "'a list list \<Rightarrow> 'a list \<Rightarrow> 'a list" where
  "strip_leading ws s =
     (case leading ws s of None \<Rightarrow> s | Some w \<Rightarrow> strip_leading ws (drop (length w) s))"
  by pat_completeness auto
termination
proof (relation "measure (\<lambda>(ws, s). length s)")
  fix ws :: "'a list list" and s w assume "leading ws s = Some w"
  then have w: "w \<noteq> []" "s = w @ drop (length w) s"
    using leading_Some by blast+
  from w(1) have "0 < length w" by simp
  moreover have "length w \<le> length s"
    using w(2) by (metis length_append le_add1)
  ultimately have "length s - length w < length s" by linarith
  then show "((ws, drop (length w) s), ws, s) \<in> measure (\<lambda>(ws, s). length s)"
    by simp
qed simp

declare strip_leading.simps [simp del]

definition trim_start :: "string \<Rightarrow> string" where
  "trim_start s = strip_leading white_chars s"

definition trim_end :: "string \<Rightarrow> string" where
  "trim_end s = rev (strip_leading (map rev white_chars) (rev s))"

definition trim :: "string \<Rightarrow> string" where
  "trim s = trim_end (trim_start s)"

lemma strip_leading_suffix: "\<exists>ws'. s = concat ws' @ strip_leading ws s \<and> set ws' \<subseteq> set ws"
proof (induction ws s rule: strip_leading.induct)
  case (1 ws s)
  show ?case
  proof (cases "leading ws s")
    case None
    then show ?thesis by (intro exI [of _ "[]"]) (simp add: strip_leading.simps)
  next
    case (Some w)
    obtain ws' where ws': "drop (length w) s = concat ws' @ strip_leading ws (drop (length w) s)" "set ws' \<subseteq> set ws"
      using 1 [OF Some] by blast
    note w = leading_Some [OF Some]
    have "s = concat (w # ws') @ strip_leading ws s"
      using w ws'(1) Some by (simp add: strip_leading.simps [of ws s])
    with w ws'(2) show ?thesis by (intro exI [of _ "w # ws'"]) auto
  qed
qed

lemma strip_leading_done: "leading ws (strip_leading ws s) = None"
proof (induction ws s rule: strip_leading.induct)
  case (1 ws s)
  then show ?case by (cases "leading ws s") (simp_all add: strip_leading.simps [of ws s])
qed

lemma strip_leading_id: "leading ws s = None \<Longrightarrow> strip_leading ws s = s"
  by (simp add: strip_leading.simps)

text \<open>Graphic ASCII characters are never trimmed.\<close>

definition graphic :: "char \<Rightarrow> bool" where
  "graphic c \<longleftrightarrow> 32 < (of_char c :: nat) \<and> (of_char c :: nat) < 128"

lemma white_chars_not_graphic: "list_all (\<lambda>w. w = [] \<or> \<not> graphic (hd w) \<and> \<not> graphic (last w)) white_chars"
  by (simp add: white_chars_def graphic_def of_char_char_of_lt upt_rec)

lemma leading_graphic:
  assumes "list_all (\<lambda>w. w = [] \<or> \<not> graphic (hd w)) ws" "list_all graphic s"
  shows "leading ws s = None"
proof (cases "leading ws s")
  case (Some w)
  then have w: "w \<in> set ws" "w \<noteq> []" "s = w @ drop (length w) s"
    using leading_Some by blast+
  then have "hd w \<in> set s" by (metis UnI1 hd_in_set set_append)
  with w assms show ?thesis by (auto simp: list_all_iff)
qed

lemma trim_graphic [simp]:
  assumes "list_all graphic s" shows "trim s = s"
proof -
  have "leading white_chars s = None"
    using white_chars_not_graphic assms by (intro leading_graphic) (auto simp: list_all_iff)
  moreover have "leading (map rev white_chars) (rev s) = None"
    using white_chars_not_graphic assms by (intro leading_graphic) (auto simp: list_all_iff hd_rev)
  ultimately show ?thesis by (simp add: trim_def trim_start_def trim_end_def strip_leading_id)
qed

section \<open>Splitting\<close>

text \<open>\<^verbatim>\<open>s.split(p)\<close>: at least one piece, and the pieces hold no separator.\<close>

fun split_at :: "('a \<Rightarrow> bool) \<Rightarrow> 'a list \<Rightarrow> 'a list list" where
  "split_at p [] = [[]]"
| "split_at p (c # cs) =
     (if p c then [] # split_at p cs
      else case split_at p cs of [] \<Rightarrow> [[c]] | q # qs \<Rightarrow> (c # q) # qs)"

lemma split_at_not_Nil [simp]: "split_at p s \<noteq> []"
  by (induction s) (auto split: list.splits)

lemma split_at_pieces: "q \<in> set (split_at p s) \<Longrightarrow> c \<in> set q \<Longrightarrow> c \<in> set s \<and> \<not> p c"
  by (induction s arbitrary: q) (fastforce split: if_splits list.splits)+

lemma split_at_append: "list_all (\<lambda>c. \<not> p c) a \<Longrightarrow> p c \<Longrightarrow> split_at p (a @ c # rest) = a # split_at p rest"
  by (induction a) auto

lemma split_at_none: "list_all (\<lambda>c. \<not> p c) s \<Longrightarrow> split_at p s = [s]"
  by (induction s) auto

section \<open>ASCII case and decimal printing\<close>

definition to_lower :: "char \<Rightarrow> char" where
  "to_lower c = (let v = of_char c :: nat in if 65 \<le> v \<and> v \<le> 90 then char_of (v + 32) else c)"

definition to_ascii_lowercase :: "string \<Rightarrow> string" where
  "to_ascii_lowercase s = map to_lower s"

definition eq_ignore_ascii_case :: "string \<Rightarrow> string \<Rightarrow> bool" where
  "eq_ignore_ascii_case s t \<longleftrightarrow> to_ascii_lowercase s = to_ascii_lowercase t"

definition is_ascii_hexdigit :: "char \<Rightarrow> bool" where
  "is_ascii_hexdigit c \<longleftrightarrow> hex_digit (word_of_nat (of_char c)) \<noteq> None"

fun show_nat :: "nat \<Rightarrow> string" where
  "show_nat n = (if n < 10 then [char_of (48 + n)] else show_nat (n div 10) @ [char_of (48 + n mod 10)])"

declare show_nat.simps [simp del]

lemma show_nat_not_Nil [simp]: "show_nat n \<noteq> []"
  by (simp add: show_nat.simps)

lemma dec_digit_char: "d < 10 \<Longrightarrow> dec_digit (char_of (48 + d)) = Some d"
  by (simp add: dec_digit_def of_char_char_of_lt)

lemma parse_digits_append:
  "parse_digits a (s @ t) = (case parse_digits a s of None \<Rightarrow> None | Some b \<Rightarrow> parse_digits b t)"
  by (induction s arbitrary: a) (auto split: option.split)

lemma parse_digits_show_nat: "parse_digits 0 (show_nat n) = Some n"
proof (induction n rule: show_nat.induct)
  case (1 n)
  show ?case
  proof (cases "n < 10")
    case True
    then show ?thesis by (simp add: show_nat.simps dec_digit_char)
  next
    case False
    then have "parse_digits 0 (show_nat (n div 10)) = Some (n div 10)" using 1 by simp
    with False show ?thesis
      by (simp add: show_nat.simps [of n] parse_digits_append dec_digit_char)
  qed
qed

lemma parse_nat_show_nat [simp]: "parse_nat (show_nat n) = Some n"
  by (simp add: parse_nat_def parse_digits_show_nat)

end
