(* ===== verification/Relay_Config.thy ===== *)
theory Relay_Config
  imports Rust_Text Registry
begin

text \<open>
  The relay's configuration (\<^verbatim>\<open>relay/src/config.rs\<close>): roles, the environment variables and
  their parsers, and the checks that make a relay refuse to start. The environment is a function
  from names to values, \<^verbatim>\<open>read_to_string\<close> a function from paths to contents, and the
  \<^verbatim>\<open>url\<close> crate's parser a function whose result is the parts that the code reads.
\<close>

section \<open>Roles, errors and the record\<close>

datatype Role = Guard | Middle | Exit

record Url =
  url_scheme :: string
  url_host :: "string option"
  url_port :: "u16 option"
  url_username :: string
  url_password :: "string option"

datatype config_reason =
    NotANumber | NotABoolean string | NotASocketAddr | NoPorts
  | UnreadableKeyFile string | BadPinnedKey RegistryError | NoKeyFound
  | NotAUrl | BadScheme string | MissingHost | MissingPort

datatype ConfigError =
    Missing string
  | Invalid string config_reason
  | InvalidRole string
  | ExitRequiresDecodoProxy

record RelayConfig =
  cfg_role :: Role
  authority_pubkey_url :: string
  authority_heartbeat_url :: string
  relay_api_key :: string
  cfg_relay_port :: u16
  metrics_bind :: SocketAddr
  replay_window_ttl :: nat
  max_circuits :: nat
  cfg_node_id :: string
  decodo_proxy_url :: "string option"
  allowed_exit_ports :: "u16 list"
  relay_hostname :: string
  acme_contact_email :: string
  acme_dir :: string
  acme_staging :: bool
  static_key_path :: string
  registry_signing_pubkeys :: "PinnedKey list"
  cfg_registry_url :: string
  registry_state_dir :: string

definition role_parse :: "string \<Rightarrow> ConfigError + Role" where
  "role_parse s =
     (if s = ''guard'' then Inr Guard
      else if s = ''middle'' then Inr Middle
      else if s = ''exit'' then Inr Exit
      else Inl (InvalidRole s))"

fun role_display :: "Role \<Rightarrow> string" where
  "role_display Guard = ''guard''"
| "role_display Middle = ''middle''"
| "role_display Exit = ''exit''"

section \<open>Parsers of single variables\<close>

type_synonym env_source = "string \<Rightarrow> string option"

definition parse_u16 :: "string \<Rightarrow> u16 option" where
  "parse_u16 s = map_option word_of_nat (parse_uint 16 s)"

definition required :: "env_source \<Rightarrow> string \<Rightarrow> ConfigError + string" where
  "required get key =
     (case get key of Some v \<Rightarrow> if v \<noteq> [] then Inr v else Inl (Missing key) | None \<Rightarrow> Inl (Missing key))"

definition parse_bool :: "env_source \<Rightarrow> string \<Rightarrow> bool \<Rightarrow> ConfigError + bool" where
  "parse_bool get key dflt =
     (case get key of
        None \<Rightarrow> Inr dflt
      | Some s \<Rightarrow>
          if s = [] then Inr dflt
          else let v = to_ascii_lowercase s in
            if v \<in> {''1'', ''true'', ''yes'', ''on''} then Inr True
            else if v \<in> {''0'', ''false'', ''no'', ''off''} then Inr False
            else Inl (Invalid key (NotABoolean v)))"

definition parse_port :: "env_source \<Rightarrow> string \<Rightarrow> u16 \<Rightarrow> ConfigError + u16" where
  "parse_port get key dflt =
     (case get key of
        None \<Rightarrow> Inr dflt
      | Some s \<Rightarrow> if s = [] then Inr dflt else ok_or (Invalid key NotANumber) (parse_u16 s))"

definition parse_u64 :: "env_source \<Rightarrow> string \<Rightarrow> nat \<Rightarrow> ConfigError + nat" where
  "parse_u64 get key dflt =
     (case get key of
        None \<Rightarrow> Inr dflt
      | Some s \<Rightarrow> if s = [] then Inr dflt else ok_or (Invalid key NotANumber) (parse_uint 64 s))"

definition parse_u32_required :: "env_source \<Rightarrow> string \<Rightarrow> ConfigError + nat" where
  "parse_u32_required get key =
     and_then (required get key) (\<lambda>raw. ok_or (Invalid key NotANumber) (parse_uint 32 raw))"

definition parse_socket_addr :: "env_source \<Rightarrow> string \<Rightarrow> string \<Rightarrow> ConfigError + SocketAddr" where
  "parse_socket_addr get key dflt =
     (let raw = (case get key of Some s \<Rightarrow> if s \<noteq> [] then s else dflt | None \<Rightarrow> dflt)
      in ok_or (Invalid key NotASocketAddr) (parse_socket raw))"

text \<open>The loops over the pieces of a comma separated list; empty pieces are skipped.\<close>

fun port_pieces :: "string list \<Rightarrow> u16 list \<Rightarrow> ConfigError + u16 list" where
  "port_pieces [] out = Inr out"
| "port_pieces (piece # rest) out =
     (let t = trim piece in
      if t = [] then port_pieces rest out
      else and_then (ok_or (Invalid ''ALLOWED_EXIT_PORTS'' NotANumber) (parse_u16 t)) (\<lambda>p.
        port_pieces rest (out @ [p])))"

definition parse_port_list :: "string \<Rightarrow> ConfigError + u16 list" where
  "parse_port_list raw =
     and_then (port_pieces (split_at (\<lambda>c. c = CHR '','') raw) []) (\<lambda>out.
       if out = [] then Inl (Invalid ''ALLOWED_EXIT_PORTS'' NoPorts) else Inr out)"

fun key_pieces :: "reg_env \<Rightarrow> string list \<Rightarrow> PinnedKey list \<Rightarrow> ConfigError + PinnedKey list" where
  "key_pieces E [] out = Inr out"
| "key_pieces E (piece # rest) out =
     (let t = trim piece in
      if t = [] then key_pieces E rest out
      else and_then (map_err (\<lambda>e. Invalid ''REGISTRY_SIGNING_PUBKEY'' (BadPinnedKey e)) (pinned_from_hex E t)) (\<lambda>k.
        key_pieces E rest (out @ [k])))"

definition HEX_LEN :: nat where
  "HEX_LEN = 64"

definition parse_pinned_keys :: "reg_env \<Rightarrow> (string \<Rightarrow> string option) \<Rightarrow> string \<Rightarrow> ConfigError + PinnedKey list" where
  "parse_pinned_keys E read_to_string raw =
     (let trimmed = trim raw in
      and_then
        (if length trimmed = HEX_LEN \<and> list_all is_ascii_hexdigit trimmed then Inr trimmed
         else ok_or (Invalid ''REGISTRY_SIGNING_PUBKEY'' (UnreadableKeyFile trimmed)) (read_to_string trimmed)) (\<lambda>body.
      and_then (key_pieces E (split_at (\<lambda>c. c = CHR '','' \<or> c = CHR 0x0A) body) []) (\<lambda>out.
        if out = [] then Inl (Invalid ''REGISTRY_SIGNING_PUBKEY'' NoKeyFound) else Inr out)))"

section \<open>The configuration\<close>

text \<open>A path variable with a default: an unset or empty value takes it.\<close>

definition path_or :: "env_source \<Rightarrow> string \<Rightarrow> string \<Rightarrow> string" where
  "path_or get key dflt = (case get key of Some s \<Rightarrow> if s \<noteq> [] then s else dflt | None \<Rightarrow> dflt)"

definition is_socks_scheme :: "string \<Rightarrow> bool" where
  "is_socks_scheme s \<longleftrightarrow> eq_ignore_ascii_case s ''socks5'' \<or> eq_ignore_ascii_case s ''socks5h''"

definition check_exit_proxy :: "(string \<Rightarrow> Url option) \<Rightarrow> string option \<Rightarrow> ConfigError + unit" where
  "check_exit_proxy parse_url proxy =
     (let raw = (case proxy of Some s \<Rightarrow> s | None \<Rightarrow> []); var = ''DECODO_PROXY_URL'' in
      if raw = [] then Inl ExitRequiresDecodoProxy
      else and_then (ok_or (Invalid var NotAUrl) (parse_url raw)) (\<lambda>parsed.
        if \<not> is_socks_scheme (url_scheme parsed) then Inl (Invalid var (BadScheme (url_scheme parsed)))
        else if url_host parsed = None \<or> url_host parsed = Some [] then Inl (Invalid var MissingHost)
        else if url_port parsed = None then Inl (Invalid var MissingPort)
        else Inr ()))"

definition from_source :: "reg_env \<Rightarrow> (string \<Rightarrow> string option) \<Rightarrow> (string \<Rightarrow> Url option) \<Rightarrow> env_source \<Rightarrow>
    ConfigError + RelayConfig" where
  "from_source E read_to_string parse_url get =
     and_then (required get ''RELAY_ROLE'') (\<lambda>role_raw.
     and_then (role_parse role_raw) (\<lambda>role.
     and_then (required get ''AUTHORITY_PUBKEY_URL'') (\<lambda>pubkey_url.
     and_then (required get ''AUTHORITY_HEARTBEAT_URL'') (\<lambda>heartbeat_url.
     and_then (required get ''RELAY_API_KEY'') (\<lambda>api_key.
     and_then (parse_port get ''RELAY_PORT'' 9001) (\<lambda>port.
     and_then (parse_socket_addr get ''METRICS_BIND'' ''127.0.0.1:9091'') (\<lambda>metrics.
     and_then (parse_u64 get ''REPLAY_WINDOW_TTL'' 86400) (\<lambda>ttl.
     and_then (parse_u32_required get ''MAX_CIRCUITS'') (\<lambda>max.
     and_then (required get ''NODE_ID'') (\<lambda>node.
     let proxy = get ''DECODO_PROXY_URL'' in
     and_then (case get ''ALLOWED_EXIT_PORTS'' of None \<Rightarrow> Inr [80, 443] | Some s \<Rightarrow> parse_port_list s) (\<lambda>ports.
     and_then (required get ''RELAY_HOSTNAME'') (\<lambda>hostname.
     and_then (required get ''ACME_CONTACT_EMAIL'') (\<lambda>email.
     let acme = path_or get ''ACME_DIR'' ''/opt/quiethop/secrets/acme-cache'' in
     and_then (parse_bool get ''ACME_STAGING'' False) (\<lambda>staging.
     let key_path = path_or get ''RELAY_STATIC_KEY_PATH'' ''/opt/quiethop/secrets/static.key'' in
     and_then (and_then (required get ''REGISTRY_SIGNING_PUBKEY'') (parse_pinned_keys E read_to_string)) (\<lambda>keys.
     and_then (required get ''REGISTRY_URL'') (\<lambda>reg_url.
     let state = path_or get ''REGISTRY_STATE_DIR'' ''/opt/quiethop/state'' in
     and_then (if role = Exit then check_exit_proxy parse_url proxy else Inr ()) (\<lambda>_.
       Inr \<lparr>cfg_role = role, authority_pubkey_url = pubkey_url, authority_heartbeat_url = heartbeat_url,
            relay_api_key = api_key, cfg_relay_port = port, metrics_bind = metrics,
            replay_window_ttl = ttl, max_circuits = max, cfg_node_id = node,
            decodo_proxy_url = proxy, allowed_exit_ports = ports, relay_hostname = hostname,
            acme_contact_email = email, acme_dir = acme, acme_staging = staging,
            static_key_path = key_path, registry_signing_pubkeys = keys, cfg_registry_url = reg_url,
            registry_state_dir = state\<rparr>)))))))))))))))))"

section \<open>What an accepted configuration guarantees\<close>

lemma role_parse_iff: "role_parse s = Inr r \<longleftrightarrow> s = role_display r"
  by (cases r) (auto simp: role_parse_def)

lemma required_Inr [result_simps]: "required get key = Inr v \<longleftrightarrow> get key = Some v \<and> v \<noteq> []"
  by (auto simp: required_def split: option.splits)

lemma parse_uint_lt: "parse_uint bits s = Some v \<Longrightarrow> v < 2 ^ bits"
  by (auto simp: parse_uint_def split: option.splits if_splits)

lemma length_chunks_2: "length xs = 2 * n \<Longrightarrow> length (chunks 2 xs) = n"
proof (induction n arbitrary: xs)
  case (Suc n)
  then have "length (drop 2 xs) = 2 * n" "xs \<noteq> []" by auto
  with Suc.IH [of "drop 2 xs"] show ?case by (subst chunks.simps) simp
qed simp

text \<open>A pinned key comes from 64 hexadecimal characters and is a valid point under its own id.\<close>

definition good_key :: "reg_env \<Rightarrow> PinnedKey \<Rightarrow> bool" where
  "good_key E k \<longleftrightarrow> length (pk_key k) = STATIC_KEY_LEN \<and> ed_key_ok E (pk_key k) \<and> key_id k = key_id_for E (pk_key k)"

lemma pinned_from_hex_good:
  assumes "pinned_from_hex E s = Inr k" shows "good_key E k"
proof -
  obtain raw where raw: "length s = 64" "hex_pairs (chunks 2 (as_bytes s)) = Some raw"
    "ed_key_ok E raw" "k = \<lparr>key_id = key_id_for E raw, pk_key = raw\<rparr>"
    using assms by (auto simp: pinned_from_hex_def pinned_from_bytes_def decode_hex32_def result_simps split: if_splits)
  then have "length raw = 32"
    using hex_pairs_length length_chunks_2 [of "as_bytes s" 32] by simp
  with raw show ?thesis by (simp add: good_key_def STATIC_KEY_LEN_def)
qed

lemma key_pieces_good:
  "key_pieces E ps out = Inr ks \<Longrightarrow> list_all (good_key E) out \<Longrightarrow> list_all (good_key E) ks"
  by (induction E ps out rule: key_pieces.induct)
    (auto simp: Let_def result_simps pinned_from_hex_good split: if_splits)

lemma parse_pinned_keys_good:
  "parse_pinned_keys E rd raw = Inr ks \<Longrightarrow> ks \<noteq> [] \<and> list_all (good_key E) ks"
  by (auto simp: parse_pinned_keys_def Let_def result_simps split: if_splits dest: key_pieces_good)

definition dialable_proxy :: "(string \<Rightarrow> Url option) \<Rightarrow> string option \<Rightarrow> bool" where
  "dialable_proxy parse_url proxy \<longleftrightarrow>
     (\<exists>raw u host port. proxy = Some raw \<and> raw \<noteq> [] \<and> parse_url raw = Some u \<and> is_socks_scheme (url_scheme u)
        \<and> url_host u = Some host \<and> host \<noteq> [] \<and> url_port u = Some port)"

lemma check_exit_proxy_iff: "check_exit_proxy parse_url proxy = Inr () \<longleftrightarrow> dialable_proxy parse_url proxy"
  by (cases proxy) (auto simp: check_exit_proxy_def dialable_proxy_def Let_def result_simps)

definition REQUIRED_VARS :: "(string \<times> (RelayConfig \<Rightarrow> string)) list" where
  "REQUIRED_VARS =
     [(''AUTHORITY_PUBKEY_URL'', authority_pubkey_url), (''AUTHORITY_HEARTBEAT_URL'', authority_heartbeat_url),
      (''RELAY_API_KEY'', relay_api_key), (''NODE_ID'', cfg_node_id), (''RELAY_HOSTNAME'', relay_hostname),
      (''ACME_CONTACT_EMAIL'', acme_contact_email), (''REGISTRY_URL'', cfg_registry_url)]"

lemma from_source_cases:
  assumes "from_source E rd parse_url get = Inr cfg"
  obtains role pubkey_url heartbeat_url api_key port metrics ttl max node ports hostname email staging raw keys reg_url
  where "required get ''RELAY_ROLE'' = Inr (role_display role)"
    "required get ''AUTHORITY_PUBKEY_URL'' = Inr pubkey_url" "required get ''AUTHORITY_HEARTBEAT_URL'' = Inr heartbeat_url"
    "required get ''RELAY_API_KEY'' = Inr api_key" "parse_port get ''RELAY_PORT'' 9001 = Inr port"
    "parse_socket_addr get ''METRICS_BIND'' ''127.0.0.1:9091'' = Inr metrics"
    "parse_u64 get ''REPLAY_WINDOW_TTL'' 86400 = Inr ttl" "parse_u32_required get ''MAX_CIRCUITS'' = Inr max"
    "required get ''NODE_ID'' = Inr node"
    "(case get ''ALLOWED_EXIT_PORTS'' of None \<Rightarrow> Inr [80, 443] | Some s \<Rightarrow> parse_port_list s) = Inr ports"
    "required get ''RELAY_HOSTNAME'' = Inr hostname" "required get ''ACME_CONTACT_EMAIL'' = Inr email"
    "parse_bool get ''ACME_STAGING'' False = Inr staging" "required get ''REGISTRY_SIGNING_PUBKEY'' = Inr raw"
    "parse_pinned_keys E rd raw = Inr keys" "required get ''REGISTRY_URL'' = Inr reg_url"
    "role = Exit \<longrightarrow> dialable_proxy parse_url (get ''DECODO_PROXY_URL'')"
    "cfg = \<lparr>cfg_role = role, authority_pubkey_url = pubkey_url, authority_heartbeat_url = heartbeat_url,
            relay_api_key = api_key, cfg_relay_port = port, metrics_bind = metrics,
            replay_window_ttl = ttl, max_circuits = max, cfg_node_id = node,
            decodo_proxy_url = get ''DECODO_PROXY_URL'', allowed_exit_ports = ports, relay_hostname = hostname,
            acme_contact_email = email, acme_dir = path_or get ''ACME_DIR'' ''/opt/quiethop/secrets/acme-cache'',
            acme_staging = staging,
            static_key_path = path_or get ''RELAY_STATIC_KEY_PATH'' ''/opt/quiethop/secrets/static.key'',
            registry_signing_pubkeys = keys, cfg_registry_url = reg_url,
            registry_state_dir = path_or get ''REGISTRY_STATE_DIR'' ''/opt/quiethop/state''\<rparr>"
proof -
  have exit: "role = Exit \<longrightarrow> dialable_proxy parse_url proxy"
    if "(if role = Exit then check_exit_proxy parse_url proxy else Inr ()) = Inr u" for role proxy and u :: unit
    using that check_exit_proxy_iff [of parse_url proxy] by (cases role) simp_all
  from assms show thesis
    unfolding from_source_def Let_def and_then_Inr_iff role_parse_iff sum.inject
    by (elim exE conjE) (rule that; (assumption | rule exit, assumption | rule sym, assumption | simp only:))
qed

lemma parse_ports_not_Nil: "parse_port_list s = Inr ports \<Longrightarrow> ports \<noteq> []"
  by (auto simp: parse_port_list_def result_simps split: if_splits)

lemma parse_u64_lt: "parse_u64 get key d = Inr v \<Longrightarrow> d < 2 ^ 64 \<Longrightarrow> v < 2 ^ 64"
  by (auto simp: parse_u64_def result_simps split: option.splits if_splits dest: parse_uint_lt)

lemma parse_u32_lt: "parse_u32_required get key = Inr v \<Longrightarrow> v < 2 ^ 32"
  by (auto simp: parse_u32_required_def result_simps dest: parse_uint_lt)

definition complete_config :: "reg_env \<Rightarrow> (string \<Rightarrow> Url option) \<Rightarrow> env_source \<Rightarrow> RelayConfig \<Rightarrow> bool" where
  "complete_config E parse_url get cfg \<longleftrightarrow>
     get ''RELAY_ROLE'' = Some (role_display (cfg_role cfg))
     \<and> list_all (\<lambda>(var, field). get var = Some (field cfg) \<and> field cfg \<noteq> []) REQUIRED_VARS
     \<and> registry_signing_pubkeys cfg \<noteq> [] \<and> list_all (good_key E) (registry_signing_pubkeys cfg)
     \<and> allowed_exit_ports cfg \<noteq> []
     \<and> replay_window_ttl cfg < 2 ^ 64 \<and> max_circuits cfg < 2 ^ 32
     \<and> (cfg_role cfg = Exit \<longrightarrow> dialable_proxy parse_url (decodo_proxy_url cfg))"

lemma from_source_complete:
  assumes "from_source E rd parse_url get = Inr cfg"
  shows "complete_config E parse_url get cfg"
  using assms
proof (cases rule: from_source_cases)
  case parts: (1 role pubkey_url heartbeat_url api_key port metrics ttl max node ports)
  have "ttl < 2 ^ 64" using parts(7) by (rule parse_u64_lt) simp
  moreover have "max < 2 ^ 32" using parts(8) by (rule parse_u32_lt)
  moreover have "ports \<noteq> []"
    using parts(10) by (cases "get ''ALLOWED_EXIT_PORTS''") (auto dest: parse_ports_not_Nil)
  ultimately show ?thesis
    using parts(17) parse_pinned_keys_good [OF parts(15)]
      parts(1-4,9,11,12,16) [unfolded required_Inr]
    unfolding complete_config_def parts(18) REQUIRED_VARS_def
    by (simp only: RelayConfig.simps list.pred_inject prod.case simp_thms HOL.implies_True_equals not_False_eq_True)
qed

text \<open>
  C27: A relay that gets past \<^verbatim>\<open>from_source\<close> has a complete configuration. The role is the
  one spelled in \<^verbatim>\<open>RELAY_ROLE\<close>, every required variable is set and copied unchanged, the port
  allowlist and the set of pinned registry keys are not empty, every pinned key is a 32-byte
  Ed25519 key under the id derived from it, the integers fit their Rust types, and an exit has a
  proxy URL with a SOCKS5 scheme, a host and a port.
\<close>

theorem accepted_config_complete:
  "from_source E rd parse_url get = Inr cfg \<Longrightarrow> complete_config E parse_url get cfg"
  by (rule from_source_complete)

text \<open>A concrete exit relay.\<close>

definition sample_get :: env_source where
  "sample_get = map_of [(''RELAY_ROLE'', ''exit''), (''AUTHORITY_PUBKEY_URL'', ''a''), (''AUTHORITY_HEARTBEAT_URL'', ''h''),
     (''RELAY_API_KEY'', ''k''), (''MAX_CIRCUITS'', ''9''), (''NODE_ID'', ''n''), (''DECODO_PROXY_URL'', ''p''),
     (''RELAY_HOSTNAME'', ''r''), (''ACME_CONTACT_EMAIL'', ''e''),
     (''REGISTRY_SIGNING_PUBKEY'', replicate 64 CHR ''0''), (''REGISTRY_URL'', ''u'')]"

definition sample_url :: Url where
  "sample_url = \<lparr>url_scheme = ''socks5h'', url_host = Some ''proxy'', url_port = Some 1080, url_username = [],
     url_password = None\<rparr>"

definition zero_key :: PinnedKey where
  "zero_key = \<lparr>key_id = key_id_for sample_env (replicate 32 0), pk_key = replicate 32 0\<rparr>"

definition sample_config :: RelayConfig where
  "sample_config = \<lparr>cfg_role = Exit, authority_pubkey_url = ''a'', authority_heartbeat_url = ''h'',
     relay_api_key = ''k'', cfg_relay_port = 9001, metrics_bind = SockV4 [127, 0, 0, 1] 9091,
     replay_window_ttl = 86400, max_circuits = 9, cfg_node_id = ''n'', decodo_proxy_url = Some ''p'',
     allowed_exit_ports = [80, 443], relay_hostname = ''r'', acme_contact_email = ''e'',
     acme_dir = ''/opt/quiethop/secrets/acme-cache'', acme_staging = False,
     static_key_path = ''/opt/quiethop/secrets/static.key'', registry_signing_pubkeys = [zero_key],
     cfg_registry_url = ''u'', registry_state_dir = ''/opt/quiethop/state''\<rparr>"

lemma chunks_zeros: "hex_pairs (chunks 2 (as_bytes (replicate (2 * n) CHR ''0''))) = Some (replicate n 0)"
proof (induction n)
  case (Suc n)
  have "as_bytes (replicate (2 * Suc n) CHR ''0'') = [48, 48] @ as_bytes (replicate (2 * n) CHR ''0'')"
    by (simp add: as_bytes_def of_char_def)
  with Suc show ?case by (simp only: chunks_append [of "[48, 48]" 2]) (simp add: hex_digit_def chunks_append [of "[48, 48]" 2, simplified])
qed (simp add: as_bytes_def)

lemma sample_keys: "parse_pinned_keys sample_env rd (replicate 64 CHR ''0'') = Inr [zero_key]"
proof -
  have g: "list_all graphic (replicate 64 CHR ''0'')" "list_all is_ascii_hexdigit (replicate 64 CHR ''0'')"
    by (simp_all add: list_all_iff graphic_def is_ascii_hexdigit_def hex_digit_def of_char_def)
  have sp: "split_at (\<lambda>c. c = CHR '','' \<or> c = CHR 0x0A) (replicate 64 CHR ''0'') = [replicate 64 CHR ''0'']"
    by (rule split_at_none) (simp add: list_all_iff)
  have "pinned_from_hex sample_env (replicate 64 CHR ''0'') = Inr zero_key"
    using chunks_zeros [of 32]
    by (simp add: pinned_from_hex_def decode_hex32_def pinned_from_bytes_def sample_env_def zero_key_def)
  then show ?thesis
    by (simp add: parse_pinned_keys_def Let_def trim_graphic [OF g(1)] g(2) sp HEX_LEN_def)
qed

lemma sample_config_accepted:
  "from_source sample_env (\<lambda>_. None) (\<lambda>_. Some sample_url) sample_get = Inr sample_config"
proof -
  have addr: "parse_socket ''127.0.0.1:9091'' = Some (SockV4 [127, 0, 0, 1] 9091)"
    by (simp add: parse_socket_def read_socket_addr_def read_port_def parse_eval)
  have proxy: "check_exit_proxy (\<lambda>_. Some sample_url) (Some ''p'') = Inr ()"
    by (simp add: check_exit_proxy_def sample_url_def is_socks_scheme_def eq_ignore_ascii_case_def Let_def)
  have nine: "parse_uint 32 ''9'' = Some 9"
    by (simp add: parse_uint_def parse_nat_def strip_plus_def dec_digit_def of_char_def)
  show ?thesis
    by (simp add: from_source_def required_def sample_get_def role_parse_def parse_port_def parse_socket_addr_def
        parse_u64_def parse_u32_required_def parse_bool_def path_or_def addr proxy nine sample_keys sample_config_def)
qed

theorem accepted_config_complete_witness:
  "complete_config sample_env (\<lambda>_. Some sample_url) sample_get sample_config"
  by (rule accepted_config_complete [OF sample_config_accepted])

end
