(* ===== verification/Relay_Parts.thy ===== *)
theory Relay_Parts
  imports Relay_Config Effects Token
begin

text \<open>
  The relay's smaller parts: the circuit state machine (\<^verbatim>\<open>relay/src/circuit.rs\<close>), the verified
  registry as the relay consumes it (\<^verbatim>\<open>relay/src/registry.rs\<close>), the exit's SOCKS5 dialer
  (\<^verbatim>\<open>relay/src/exit.rs\<close>) and the outbound TLS dial (\<^verbatim>\<open>relay/src/tls.rs\<close>).
\<close>

section \<open>The circuit state machine\<close>

datatype State = StPending | StActive | StClosed | StFailed

datatype CircuitError = IllegalTransition State State

fun state_display :: "State \<Rightarrow> string" where
  "state_display StPending = ''pending''"
| "state_display StActive = ''active''"
| "state_display StClosed = ''closed''"
| "state_display StFailed = ''failed''"

record Circuit =
  circ_state :: State

definition circuit_new :: Circuit where
  "circuit_new = \<lparr>circ_state = StPending\<rparr>"

definition activate :: "Circuit \<Rightarrow> (CircuitError + unit) \<times> Circuit" where
  "activate c =
     (if circ_state c \<noteq> StPending then (Inl (IllegalTransition (circ_state c) StActive), c)
      else (Inr (), c\<lparr>circ_state := StActive\<rparr>))"

definition close :: "Circuit \<Rightarrow> (CircuitError + unit) \<times> Circuit" where
  "close c =
     (case circ_state c of
        StPending \<Rightarrow> (Inr (), c\<lparr>circ_state := StClosed\<rparr>)
      | StActive \<Rightarrow> (Inr (), c\<lparr>circ_state := StClosed\<rparr>)
      | _ \<Rightarrow> (Inl (IllegalTransition (circ_state c) StClosed), c))"

definition fail :: "Circuit \<Rightarrow> Circuit" where
  "fail c =
     (case circ_state c of
        StPending \<Rightarrow> c\<lparr>circ_state := StFailed\<rparr>
      | StActive \<Rightarrow> c\<lparr>circ_state := StFailed\<rparr>
      | StFailed \<Rightarrow> c
      | StClosed \<Rightarrow> c)"

text \<open>The transitions of the operations, and the sequences of states they allow.\<close>

inductive circuit_step :: "State \<Rightarrow> State \<Rightarrow> bool" where
  step_activate: "circuit_step StPending StActive"
| step_close: "s = StPending \<or> s = StActive \<Longrightarrow> circuit_step s StClosed"
| step_fail: "s = StPending \<or> s = StActive \<Longrightarrow> circuit_step s StFailed"

inductive_simps circuit_step_simps [simp]: "circuit_step s t"

datatype circuit_op = OpActivate | OpClose | OpFail

fun apply_op :: "Circuit \<Rightarrow> circuit_op \<Rightarrow> Circuit" where
  "apply_op c OpActivate = snd (activate c)"
| "apply_op c OpClose = snd (close c)"
| "apply_op c OpFail = fail c"

fun state_rank :: "State \<Rightarrow> nat" where
  "state_rank StPending = 0"
| "state_rank StActive = 1"
| "state_rank StClosed = 2"
| "state_rank StFailed = 2"

definition terminal :: "Circuit \<Rightarrow> bool" where
  "terminal c \<longleftrightarrow> circ_state c = StClosed \<or> circ_state c = StFailed"

lemmas circuit_defs = activate_def close_def fail_def

lemma apply_op_step: "circ_state (apply_op c opn) = circ_state c \<or> circuit_step (circ_state c) (circ_state (apply_op c opn))"
  by (cases opn; cases "circ_state c") (simp_all add: circuit_defs)

lemma step_rank: "circuit_step s t \<Longrightarrow> state_rank s < state_rank t"
  by (cases s; cases t) simp_all

definition circuit_below :: "Circuit \<Rightarrow> Circuit \<Rightarrow> bool" where
  "circuit_below c d \<longleftrightarrow> circuit_step\<^sup>*\<^sup>* (circ_state c) (circ_state d)"

interpretation circ: event_system apply_op "\<lambda>_. True" circuit_below
proof unfold_locales
  show "circuit_below c (apply_op c opn)" for c opn
    using apply_op_step [of c opn] by (auto simp: circuit_below_def simp del: circuit_step_simps)
qed (auto simp: circuit_below_def)

lemma steps_from_terminal: "circuit_step\<^sup>*\<^sup>* s t \<Longrightarrow> s = StClosed \<or> s = StFailed \<Longrightarrow> t = s"
  by (induction rule: converse_rtranclp_induct) auto

fun state_changes :: "Circuit \<Rightarrow> circuit_op list \<Rightarrow> nat" where
  "state_changes c [] = 0"
| "state_changes c (opn # ops) =
     (if circ_state (apply_op c opn) = circ_state c then 0 else 1) + state_changes (apply_op c opn) ops"

lemma state_changes_rank: "state_changes c ops + state_rank (circ_state c) \<le> 2"
proof (induction ops arbitrary: c)
  case Nil
  show ?case by (cases "circ_state c") simp_all
next
  case (Cons opn ops)
  show ?case
    using Cons [of "apply_op c opn"] apply_op_step [of c opn] step_rank [of "circ_state c" "circ_state (apply_op c opn)"]
    by (auto simp del: circuit_step_simps)
qed

lemma terminal_stays: "terminal c \<Longrightarrow> foldl apply_op c ops = c"
  by (induction ops) (auto simp: terminal_def circuit_defs, (case_tac a, auto simp: circuit_defs)+)

text \<open>
  Life of a circuit. Whatever sequence of \<^verbatim>\<open>activate\<close>, \<^verbatim>\<open>close\<close> and \<^verbatim>\<open>fail\<close> a handler
  calls, the states visited follow the legal transitions from pending, the state changes at most
  twice, and a closed or failed circuit never leaves that state.
\<close>

lemma circuit_lifecycle:
  "circuit_step\<^sup>*\<^sup>* StPending (circ_state (foldl apply_op circuit_new ops)) \<and>
   state_changes circuit_new ops \<le> 2 \<and>
   (terminal (foldl apply_op circuit_new ops) \<longrightarrow>
      foldl apply_op circuit_new (ops @ later) = foldl apply_op circuit_new ops)"
  using circ.run_below [of circuit_new ops] state_changes_rank [of circuit_new ops]
    terminal_stays [of "foldl apply_op circuit_new ops" later]
  by (simp add: circuit_below_def circuit_new_def)

lemma pending_circuit_closes: "close circuit_new = (Inr (), \<lparr>circ_state = StClosed\<rparr>)"
  by (simp add: close_def circuit_new_def)

section \<open>The registry as the relay consumes it\<close>

text \<open>
  The handle is the content of the lock and whether a holder has panicked; publishing clears
  nothing of the poison but replaces the value.
\<close>

record RegistryHandle =
  rh_current :: "Verified option"
  rh_poisoned :: bool

definition handle_new :: RegistryHandle where
  "handle_new = \<lparr>rh_current = None, rh_poisoned = False\<rparr>"

definition publish :: "RegistryHandle \<Rightarrow> Verified \<Rightarrow> RegistryHandle" where
  "publish h v = h\<lparr>rh_current := Some v\<rparr>"

definition handle_usable :: "RegistryHandle \<Rightarrow> int \<Rightarrow> Verified option" where
  "handle_usable h now =
     (if rh_poisoned h then None
      else case rh_current h of
        None \<Rightarrow> None
      | Some v \<Rightarrow> (case is_usable_at (ver_document v) now of Inr True \<Rightarrow> Some v | _ \<Rightarrow> None))"

fun upstream_role :: "Role \<Rightarrow> string option" where
  "upstream_role Guard = None"
| "upstream_role Middle = Some ''guard''"
| "upstream_role Exit = Some ''middle''"

fun downstream_role :: "Role \<Rightarrow> string option" where
  "downstream_role Guard = Some ''middle''"
| "downstream_role Middle = Some ''exit''"
| "downstream_role Exit = None"

definition admits_inbound :: "Verified \<Rightarrow> Role \<Rightarrow> IpAddr \<Rightarrow> bool" where
  "admits_inbound doc rl peer =
     (case upstream_role rl of
        None \<Rightarrow> False
      | Some want \<Rightarrow>
          let peer = canonical_ip peer in
          list_ex (\<lambda>e. relay_role e = want \<and> ip_addr e = Inr peer) (relays (ver_document doc)))"

definition extend_target :: "Verified \<Rightarrow> Role \<Rightarrow> SocketAddr \<Rightarrow> RelayEntry option" where
  "extend_target doc rl nxt =
     (case downstream_role rl of
        None \<Rightarrow> None
      | Some want \<Rightarrow>
          let nxt = canonical_addr nxt in
          find (\<lambda>e. relay_role e = want \<and> entry_addr e = Inr nxt) (relays (ver_document doc)))"

lemma handle_usable_Some:
  "handle_usable h now = Some v \<longleftrightarrow>
     \<not> rh_poisoned h \<and> rh_current h = Some v \<and> is_usable_at (ver_document v) now = Inr True"
  by (auto simp: handle_usable_def split: option.splits sum.splits bool.splits)

lemma extend_target_Some:
  assumes "extend_target doc rl nxt = Some e"
  shows "downstream_role rl = Some (relay_role e)" "e \<in> set (relays (ver_document doc))"
    "entry_addr e = Inr (canonical_addr nxt)"
  using assms by (auto simp: extend_target_def Let_def find_Some_iff split: option.splits)

text \<open>
  A poisoned lock is final. \<^verbatim>\<open>publish\<close> stores the new document but the lock stays poisoned, so
  \<^verbatim>\<open>usable\<close> keeps refusing at every time, however many documents are published afterwards.
\<close>

lemma publish_keeps_poison:
  assumes "rh_poisoned h"
  shows "handle_usable (foldl publish h vs) now = None"
proof -
  have "rh_poisoned (foldl publish h vs)"
    using assms by (induction vs arbitrary: h) (simp_all add: publish_def)
  then show ?thesis by (simp add: handle_usable_def)
qed

lemma canonical_mapped: "length a = 4 \<Longrightarrow> canonical_ip (V6 (to_ipv6_mapped a)) = canonical_ip (V4 a)"
  by (simp add: canonical_ip_def)



section \<open>Outbound connections\<close>

text \<open>
  What a relay does on the network, as the actions of a trace. The network itself is the record
  \<open>net_env\<close>: how a TCP connect, a TLS handshake and a SOCKS5 dial end, and for the ones that
  succeed what will arrive on the new stream. The \<^verbatim>\<open>url\<close> parser and the check of a TLS server
  name belong to third-party crates and are fields of the same record.
\<close>

datatype action =
    ToPeer bytes
  | ToNext bytes
  | ToDest bytes
  | DialTcp SocketAddr
  | TlsHello SocketAddr string
  | DialProxy string "(string \<times> string) option" string u16
  | CountVerified
  | CountRejected TokenError
  | ShutdownPeer

datatype socks_outcome = SocksUp "arrival list" | SocksRefused | SocksTimeout

record net_env =
  net_tcp_connect :: "SocketAddr \<Rightarrow> IoError option"
  net_nodelay :: "SocketAddr \<Rightarrow> IoError option"
  net_server_name :: "string \<Rightarrow> bool"
  net_tls :: "SocketAddr \<Rightarrow> string \<Rightarrow> IoError + arrival list"
  net_parse_url :: "string \<Rightarrow> Url option"
  net_socks :: "string \<Rightarrow> (string \<times> string) option \<Rightarrow> string \<Rightarrow> u16 \<Rightarrow> socks_outcome"

datatype tls_site = TcpConnect SocketAddr | SetNodelay SocketAddr | TlsTo string SocketAddr

datatype TlsError =
    TlsCacheDir string IoError
  | TlsNativeRoots
  | TlsInvalidServerName string
  | TlsHandshake tls_site IoError
  | TlsAccept IoError

definition fails_with :: "('x \<Rightarrow> 'e) \<Rightarrow> 'x option \<Rightarrow> 'e + unit" where
  "fails_with h x = (case x of None \<Rightarrow> Inr () | Some e \<Rightarrow> Inl (h e))"

definition dial_tls :: "net_env \<Rightarrow> SocketAddr \<Rightarrow> string \<Rightarrow> (action, TlsError, arrival list) proc" where
  "dial_tls N addr sni =
     bind (note_io (DialTcp addr)) (\<lambda>_.
     bind (lift (fails_with (TlsHandshake (TcpConnect addr)) (net_tcp_connect N addr))) (\<lambda>_.
     bind (lift (fails_with (TlsHandshake (SetNodelay addr)) (net_nodelay N addr))) (\<lambda>_.
     bind (lift (if net_server_name N sni then Inr () else Inl (TlsInvalidServerName sni))) (\<lambda>_.
     bind (note_io (TlsHello addr sni)) (\<lambda>_.
       lift (map_err (TlsHandshake (TlsTo sni addr)) (net_tls N addr sni)))))))"

datatype ExitError = PortNotAllowed | BadProxyUrl | DialFailed | DialTimeout

definition dial_via_socks5 :: "net_env \<Rightarrow> string \<Rightarrow> string \<Rightarrow> u16 \<Rightarrow> u16 list \<Rightarrow> (action, ExitError, arrival list) proc" where
  "dial_via_socks5 N proxy_url host port allowed_ports =
     (if port \<notin> set allowed_ports then lift (Inl PortNotAllowed)
      else bind (lift (ok_or BadProxyUrl (net_parse_url N proxy_url))) (\<lambda>proxy.
        if \<not> is_socks_scheme (url_scheme proxy) then lift (Inl BadProxyUrl)
        else bind (lift (ok_or BadProxyUrl (url_host proxy))) (\<lambda>proxy_host.
        bind (lift (ok_or BadProxyUrl (url_port proxy))) (\<lambda>proxy_port.
        let proxy_addr = proxy_host @ '':'' @ show_nat (unat proxy_port);
            creds = (if url_username proxy \<noteq> []
                     then Some (url_username proxy, case url_password proxy of Some p \<Rightarrow> p | None \<Rightarrow> [])
                     else None)
        in bind (note_io (DialProxy proxy_addr creds host port)) (\<lambda>_.
           lift (case net_socks N proxy_addr creds host port of
                   SocksUp dest \<Rightarrow> Inr dest
                 | SocksRefused \<Rightarrow> Inl DialFailed
                 | SocksTimeout \<Rightarrow> Inl DialTimeout))))))"

text \<open>A dial names only its target, and an exit dial only the proxy of its own URL.\<close>

lemma dial_tls_emits:
  "emits (\<lambda>a. a = DialTcp addr \<or> a = TlsHello addr sni) (\<lambda>_. True) (dial_tls N addr sni)"
  unfolding dial_tls_def by (intro emit_rules) auto

definition proxy_dial_ok :: "u16 list \<Rightarrow> action \<Rightarrow> bool" where
  "proxy_dial_ok allowed a \<longleftrightarrow> (\<exists>addr creds host port. a = DialProxy addr creds host port \<and> port \<in> set allowed)"

lemma dial_via_socks5_emits:
  "emits (\<lambda>a. proxy_dial_ok allowed a \<and> (\<exists>addr creds. a = DialProxy addr creds host port)) (\<lambda>_. True)
     (dial_via_socks5 N proxy_url host port allowed)"
  unfolding dial_via_socks5_def Let_def
  by (intro emit_rules) (auto simp: proxy_dial_ok_def)

lemma dial_via_socks5_disallowed:
  "port \<notin> set allowed \<Longrightarrow> dial_via_socks5 N proxy_url host port allowed s = (Inl PortNotAllowed, s)"
  by (simp add: dial_via_socks5_def lift_def)

text \<open>An exit that got past the configuration check never fails on the shape of its proxy URL.\<close>

lemma dialable_proxy_dials:
  assumes "dialable_proxy (net_parse_url N) (Some raw)" "dial_via_socks5 N raw host port allowed s = (Inl e, s')"
  shows "e \<noteq> BadProxyUrl"
proof -
  obtain u h p where u: "net_parse_url N raw = Some u" "is_socks_scheme (url_scheme u)" "url_host u = Some h"
    "url_port u = Some p" using assms(1) by (auto simp: dialable_proxy_def)
  show ?thesis
    using assms(2) u by (auto simp: dial_via_socks5_def Let_def bind_def lift_def note_io_def split: if_splits socks_outcome.splits)
qed

end
