(* ===== verification/Relay_Loop.thy ===== *)
theory Relay_Loop
  imports Relay_Parts Layers
begin

text \<open>
  The relay's connection handlers and the cell loop (\<^verbatim>\<open>relay/src/main.rs\<close>). A handler reads
  from the list of what arrives on the connection before a timer would fire. The loop
  \<^verbatim>\<open>run_circuit_io\<close> is driven by events: something arrives on one of its three streams, or the
  task takes a turn, which polls the streams in the order of the biased \<^verbatim>\<open>select!\<close> and runs
  the first branch that is ready. A turn carries what the world answers while it runs: the clock,
  the published registry, the network, and whether the cell timer has fired.
\<close>

section \<open>Errors and contexts\<close>

datatype HandleError =
    HIo IoError
  | HTimeout
  | HToken TokenError
  | HHandshake
  | HLayer LayerError
  | HCircuit CircuitError
  | HCell CellError
  | HExit ExitError
  | UnexpectedProtocol byte
  | PeerNotAllowed
  | IllegalCellForRole CellType Role
  | PeerClosed
  | MissingDecodoUrl
  | PeerHostnameMissing SocketAddr
  | ForwardWithoutNextLink Role
  | HTls TlsError

record ConnCtx =
  cc_cfg :: RelayConfig
  cc_authority :: RsaPublicKey
  cc_static_key :: StaticKeypair

record turn_env =
  te_now :: int
  te_handle :: RegistryHandle
  te_net :: net_env
  te_elapsed :: bool

definition DEST_READ_BUF :: nat where
  "DEST_READ_BUF = CELL_PAYLOAD_LEN * 32"

fun inbound_layers :: "Role \<Rightarrow> nat" where
  "inbound_layers Guard = 3"
| "inbound_layers Middle = 2"
| "inbound_layers Exit = 1"

definition inbound_len :: "Role \<Rightarrow> nat" where
  "inbound_len rl = link_cell_len (inbound_layers rl)"

definition outbound_len :: "Role \<Rightarrow> nat option" where
  "outbound_len rl = (case rl of Exit \<Rightarrow> None | other \<Rightarrow> Some (link_cell_len (inbound_layers other - 1)))"

section \<open>The next link\<close>

record NextLinkState =
  nl_read :: FrameReader
  nl_msg2 :: bytes

definition open_next_link :: "turn_env \<Rightarrow> RelayConfig \<Rightarrow> ExtendForward \<Rightarrow> nat \<Rightarrow> (action, HandleError, NextLinkState) proc" where
  "open_next_link W cfg ext frame_length =
     (let missing = PeerHostnameMissing (next_hop ext) in
      bind (lift (ok_or missing (handle_usable (te_handle W) (te_now W)))) (\<lambda>doc.
      bind (lift (ok_or missing (extend_target doc (cfg_role cfg) (next_hop ext)))) (\<lambda>entry.
      bind (map_err_io HTls (dial_tls (te_net W) (next_hop ext) (tls_name entry))) (\<lambda>stream.
      bind (write_all HIo (ToNext [PROTO_RELAY])) (\<lambda>_.
      bind (write_all HIo (ToNext [CIRCUIT_START])) (\<lambda>_.
      bind (write_all HIo (ToNext (noise_msg1 ext))) (\<lambda>_.
      bind (flush HIo) (\<lambda>_.
        lift (case read_exact NOISE_MSG_LEN stream of
                (Ready msg2, rest) \<Rightarrow> Inr \<lparr>nl_read = reader_new rest frame_length, nl_msg2 = msg2\<rparr>
              | (Failed e, _) \<Rightarrow> Inl (HIo e)
              | (Pending, _) \<Rightarrow> Inl HTimeout)))))))))"

section \<open>One turn of the cell loop\<close>

record 't loop_state =
  ls_transport :: 't
  ls_inbound :: FrameReader
  ls_next :: "NextLinkState option"
  ls_dest :: "arrival list option"

datatype 't turn = Again "'t loop_state" | Done

definition send_to_me :: "('t, 'm) transport_ops_scheme \<Rightarrow> 't \<Rightarrow> nat \<Rightarrow> CellType \<Rightarrow> bytes \<Rightarrow> (action, HandleError, 't) proc" where
  "send_to_me S tx layers ty body =
     bind (lift (map_err HCell (cell_new ty body))) (\<lambda>cell.
       case seal_to_me S tx cell layers of
         (r, tx') \<Rightarrow>
           bind (lift (map_err HLayer r)) (\<lambda>framed.
           bind (write_all HIo (ToPeer framed)) (\<lambda>_. lift (Inr tx'))))"

definition on_extend :: "('t, 'm) transport_ops_scheme \<Rightarrow> turn_env \<Rightarrow> ConnCtx \<Rightarrow> Role \<Rightarrow> 't loop_state \<Rightarrow> Cell \<Rightarrow>
    (action, HandleError, 't turn) proc" where
  "on_extend S W ctx rl ls cell =
     (if ls_next ls \<noteq> None then lift (Inl (IllegalCellForRole Extend rl))
      else
        bind (lift (map_err HCell (extend_decode (payload cell)))) (\<lambda>ext.
        bind (lift (ok_or (IllegalCellForRole Extend rl) (outbound_len rl))) (\<lambda>out.
        bind (open_next_link W (cc_cfg ctx) ext out) (\<lambda>nl.
        bind (send_to_me S (ls_transport ls) (inbound_layers rl) Extend (extend_backward_payload (nl_msg2 nl))) (\<lambda>tx.
        bind (flush HIo) (\<lambda>_.
          lift (Inr (Again (ls\<lparr>ls_transport := tx, ls_next := Some nl\<rparr>)))))))))"

definition on_connect :: "turn_env \<Rightarrow> ConnCtx \<Rightarrow> Role \<Rightarrow> 't loop_state \<Rightarrow> Cell \<Rightarrow> (action, HandleError, 't turn) proc" where
  "on_connect W ctx rl ls cell =
     (if ls_dest ls \<noteq> None then lift (Inl (IllegalCellForRole Connect rl))
      else
        bind (lift (map_err HCell (connect_decode (payload cell)))) (\<lambda>p.
        bind (lift (ok_or MissingDecodoUrl (decodo_proxy_url (cc_cfg ctx)))) (\<lambda>proxy_url.
        bind (map_err_io HExit (dial_via_socks5 (te_net W) proxy_url (connect_host p) (connect_port p)
                (allowed_exit_ports (cc_cfg ctx)))) (\<lambda>dest.
          lift (Inr (Again (ls\<lparr>ls_dest := Some dest\<rparr>)))))))"

definition on_data :: "Role \<Rightarrow> 't loop_state \<Rightarrow> Cell \<Rightarrow> (action, HandleError, 't turn) proc" where
  "on_data rl ls cell =
     (if payload cell = [] then lift (Inr (Again ls))
      else if ls_dest ls = None then lift (Inl (IllegalCellForRole Data rl))
      else
        bind (write_all HIo (ToDest (payload cell))) (\<lambda>_.
        bind (flush HIo) (\<lambda>_. lift (Inr (Again ls)))))"

definition on_close_request :: "('t, 'm) transport_ops_scheme \<Rightarrow> Role \<Rightarrow> 't loop_state \<Rightarrow> (action, HandleError, 't turn) proc" where
  "on_close_request S rl ls =
     bind (send_to_me S (ls_transport ls) (inbound_layers rl) CloseAck []) (\<lambda>_.
     bind (flush HIo) (\<lambda>_. lift (Inr Done)))"

definition on_cell :: "('t, 'm) transport_ops_scheme \<Rightarrow> turn_env \<Rightarrow> ConnCtx \<Rightarrow> Role \<Rightarrow> 't loop_state \<Rightarrow> Cell \<Rightarrow>
    (action, HandleError, 't turn) proc" where
  "on_cell S W ctx rl ls cell =
     (case (cell_type cell, rl) of
        (Extend, Guard) \<Rightarrow> on_extend S W ctx rl ls cell
      | (Extend, Middle) \<Rightarrow> on_extend S W ctx rl ls cell
      | (Connect, Exit) \<Rightarrow> on_connect W ctx rl ls cell
      | (Data, Exit) \<Rightarrow> on_data rl ls cell
      | (CloseRequest, _) \<Rightarrow> on_close_request S rl ls
      | (CloseAck, _) \<Rightarrow> lift (Inl PeerClosed)
      | (t, r) \<Rightarrow> lift (Inl (IllegalCellForRole t r)))"

definition on_inbound :: "('t, 'm) transport_ops_scheme \<Rightarrow> turn_env \<Rightarrow> ConnCtx \<Rightarrow> Role \<Rightarrow> 't loop_state \<Rightarrow> bytes \<Rightarrow>
    (action, HandleError, 't turn) proc" where
  "on_inbound S W ctx rl ls wire =
     (case peel S (ls_transport ls) wire (inbound_layers rl) of
        (Inl e, _) \<Rightarrow> lift (Inl (HLayer e))
      | (Inr (Forward blob), tx) \<Rightarrow>
          (if ls_next ls = None then lift (Inl (ForwardWithoutNextLink rl))
           else
             bind (write_all HIo (ToNext blob)) (\<lambda>_.
             bind (flush HIo) (\<lambda>_. lift (Inr (Again (ls\<lparr>ls_transport := tx\<rparr>))))))
      | (Inr (ToMe cell), tx) \<Rightarrow> on_cell S W ctx rl (ls\<lparr>ls_transport := tx\<rparr>) cell)"

definition on_next :: "('t, 'm) transport_ops_scheme \<Rightarrow> Role \<Rightarrow> 't loop_state \<Rightarrow> bytes \<Rightarrow> (action, HandleError, 't turn) proc" where
  "on_next S rl ls blob =
     (case seal_forward S (ls_transport ls) blob (inbound_layers rl) of
        (r, tx) \<Rightarrow>
          bind (lift (map_err HLayer r)) (\<lambda>framed.
          bind (write_all HIo (ToPeer framed)) (\<lambda>_.
          bind (flush HIo) (\<lambda>_. lift (Inr (Again (ls\<lparr>ls_transport := tx\<rparr>)))))))"

fun send_chunks :: "('t, 'm) transport_ops_scheme \<Rightarrow> 't \<Rightarrow> nat \<Rightarrow> bytes list \<Rightarrow> (action, HandleError, 't) proc" where
  "send_chunks S tx layers [] = lift (Inr tx)"
| "send_chunks S tx layers (chunk # rest) =
     bind (send_to_me S tx layers Data chunk) (\<lambda>tx'. send_chunks S tx' layers rest)"

definition on_dest :: "('t, 'm) transport_ops_scheme \<Rightarrow> Role \<Rightarrow> 't loop_state \<Rightarrow> bytes \<Rightarrow> (action, HandleError, 't turn) proc" where
  "on_dest S rl ls bs =
     (if bs = [] then lift (Inr (Again (ls\<lparr>ls_dest := None\<rparr>)))
      else
        bind (send_chunks S (ls_transport ls) (inbound_layers rl) (chunks CELL_PAYLOAD_LEN bs)) (\<lambda>tx.
        bind (flush HIo) (\<lambda>_. lift (Inr (Again (ls\<lparr>ls_transport := tx\<rparr>))))))"

definition poll_dest :: "('t, 'm) transport_ops_scheme \<Rightarrow> Role \<Rightarrow> 't loop_state \<Rightarrow> (action, HandleError, 't turn) proc" where
  "poll_dest S rl ls =
     (case ls_dest ls of
        None \<Rightarrow> lift (Inr (Again ls))
      | Some arr \<Rightarrow>
          (case read_some DEST_READ_BUF arr of
             (Pending, _) \<Rightarrow> lift (Inr (Again ls))
           | (Failed e, _) \<Rightarrow> lift (Inl (HIo e))
           | (Ready bs, arr') \<Rightarrow> on_dest S rl (ls\<lparr>ls_dest := Some arr'\<rparr>) bs))"

definition poll_next :: "('t, 'm) transport_ops_scheme \<Rightarrow> Role \<Rightarrow> 't loop_state \<Rightarrow> (action, HandleError, 't turn) proc" where
  "poll_next S rl ls =
     (case ls_next ls of
        None \<Rightarrow> poll_dest S rl ls
      | Some nl \<Rightarrow>
          (case reader_next (nl_read nl) of
             (Ready blob, r) \<Rightarrow> on_next S rl (ls\<lparr>ls_next := Some (nl\<lparr>nl_read := r\<rparr>)\<rparr>) blob
           | (Failed e, _) \<Rightarrow> lift (Inl (HIo e))
           | (Pending, r) \<Rightarrow> poll_dest S rl (ls\<lparr>ls_next := Some (nl\<lparr>nl_read := r\<rparr>)\<rparr>)))"

definition relay_turn :: "('t, 'm) transport_ops_scheme \<Rightarrow> ConnCtx \<Rightarrow> Role \<Rightarrow> turn_env \<Rightarrow> 't loop_state \<Rightarrow>
    (action, HandleError, 't turn) proc" where
  "relay_turn S ctx rl W ls =
     (case reader_next (ls_inbound ls) of
        (Ready wire, r) \<Rightarrow> on_inbound S W ctx rl (ls\<lparr>ls_inbound := r\<rparr>) wire
      | (Failed e, _) \<Rightarrow> lift (Inl (HIo e))
      | (Pending, r) \<Rightarrow>
          if te_elapsed W then lift (Inl HTimeout)
          else poll_next S rl (ls\<lparr>ls_inbound := r\<rparr>))"

section \<open>Runs of the loop\<close>

datatype source = FromPeer | FromNext | FromDest

datatype loop_event = Arrives source arrival | Turn turn_env

fun deliver :: "'t loop_state \<Rightarrow> source \<Rightarrow> arrival \<Rightarrow> 't loop_state" where
  "deliver ls FromPeer a = ls\<lparr>ls_inbound := (ls_inbound ls)\<lparr>fr_inner := fr_inner (ls_inbound ls) @ [a]\<rparr>\<rparr>"
| "deliver ls FromNext a =
     ls\<lparr>ls_next := map_option (\<lambda>nl. nl\<lparr>nl_read := (nl_read nl)\<lparr>fr_inner := fr_inner (nl_read nl) @ [a]\<rparr>\<rparr>) (ls_next ls)\<rparr>"
| "deliver ls FromDest a = ls\<lparr>ls_dest := map_option (\<lambda>arr. arr @ [a]) (ls_dest ls)\<rparr>"

text \<open>\<open>None\<close> as the result: the events are used up and the loop is still waiting.\<close>

fun run_loop :: "('t, 'm) transport_ops_scheme \<Rightarrow> ConnCtx \<Rightarrow> Role \<Rightarrow> loop_event list \<Rightarrow> 't loop_state \<Rightarrow> action io \<Rightarrow>
    (HandleError + unit) option \<times> action io" where
  "run_loop S ctx rl [] ls s = (None, s)"
| "run_loop S ctx rl (Arrives src a # es) ls s = run_loop S ctx rl es (deliver ls src a) s"
| "run_loop S ctx rl (Turn W # es) ls s =
     (case relay_turn S ctx rl W ls s of
        (Inl e, s') \<Rightarrow> (Some (Inl e), s')
      | (Inr Done, s') \<Rightarrow> (Some (Inr ()), s')
      | (Inr (Again ls'), s') \<Rightarrow> run_loop S ctx rl es ls' s')"

definition loop_init :: "Role \<Rightarrow> 't \<Rightarrow> arrival list \<Rightarrow> 't loop_state" where
  "loop_init rl tx inn =
     \<lparr>ls_transport = tx, ls_inbound = reader_new inn (inbound_len rl), ls_next = None, ls_dest = None\<rparr>"

definition run_circuit_io :: "('t, 'm) transport_ops_scheme \<Rightarrow> ConnCtx \<Rightarrow> Role \<Rightarrow> 't \<Rightarrow> arrival list \<Rightarrow> loop_event list \<Rightarrow>
    action io \<Rightarrow> (HandleError + unit) option \<times> action io" where
  "run_circuit_io S ctx rl tx inn es = run_loop S ctx rl es (loop_init rl tx inn)"

section \<open>What a turn writes and dials\<close>

text \<open>
  The actions a circuit may take in one turn: frames of the inbound link's size toward the peer,
  the courier's opening bytes or frames of the outbound size toward the next relay, a dial only
  of a downstream relay that the usable registry publishes at that address, and a proxy dial
  only at an exit, for an allowed port.
\<close>

definition registered_hop :: "turn_env \<Rightarrow> Role \<Rightarrow> SocketAddr \<Rightarrow> RelayEntry \<Rightarrow> bool" where
  "registered_hop W rl addr e \<longleftrightarrow>
     (\<exists>v. handle_usable (te_handle W) (te_now W) = Some v \<and> e \<in> set (relays (ver_document v)))
     \<and> downstream_role rl = Some (relay_role e) \<and> entry_addr e = Inr (canonical_addr addr)"

fun turn_action_ok :: "ConnCtx \<Rightarrow> Role \<Rightarrow> turn_env \<Rightarrow> action \<Rightarrow> bool" where
  "turn_action_ok ctx rl W (ToPeer f) \<longleftrightarrow> length f = inbound_len rl"
| "turn_action_ok ctx rl W (ToNext f) \<longleftrightarrow>
     f = [PROTO_RELAY] \<or> f = [CIRCUIT_START] \<or> length f = NOISE_MSG_LEN \<or> outbound_len rl = Some (length f)"
| "turn_action_ok ctx rl W (ToDest f) \<longleftrightarrow> rl = Exit \<and> f \<noteq> [] \<and> length f \<le> CELL_PAYLOAD_LEN"
| "turn_action_ok ctx rl W (DialTcp addr) \<longleftrightarrow> (\<exists>e. registered_hop W (cfg_role (cc_cfg ctx)) addr e)"
| "turn_action_ok ctx rl W (TlsHello addr sni) \<longleftrightarrow>
     (\<exists>e. registered_hop W (cfg_role (cc_cfg ctx)) addr e \<and> sni = tls_name e)"
| "turn_action_ok ctx rl W (DialProxy addr creds host port) \<longleftrightarrow>
     rl = Exit \<and> port \<in> set (allowed_exit_ports (cc_cfg ctx))"
| "turn_action_ok ctx rl W _ \<longleftrightarrow> False"

lemma inbound_layers_pos [simp]: "1 \<le> inbound_layers rl" "0 < inbound_layers rl" "Suc 0 \<le> inbound_layers rl"
  by (cases rl; simp)+

lemma outbound_len_layers: "2 \<le> inbound_layers rl \<Longrightarrow> outbound_len rl = Some (link_cell_len (inbound_layers rl - 1))"
  by (cases rl) (simp_all add: outbound_len_def)

lemma send_to_me_emits:
  "emits (turn_action_ok ctx rl W) (\<lambda>_. True) (send_to_me S tx (inbound_layers rl) ty body)"
  unfolding send_to_me_def
  using seal_to_me_size [OF _ inbound_layers_pos(1)]
  by (fastforce intro!: emit_rules simp: inbound_len_def result_simps split: prod.splits)

lemma send_chunks_emits:
  "emits (turn_action_ok ctx rl W) (\<lambda>_. True) (send_chunks S tx (inbound_layers rl) cs)"
  by (induction cs arbitrary: tx) (auto intro!: emits_lift emits_bind_any send_to_me_emits)

lemma extend_decode_msg1: "extend_decode bs = Inr ext \<Longrightarrow> length (noise_msg1 ext) = NOISE_MSG_LEN"
  using extend_codec.enc_dec [of bs ext] by (simp add: wf_extend_def)

lemma open_next_link_emits:
  assumes "length (noise_msg1 ext) = NOISE_MSG_LEN"
  shows "emits (turn_action_ok ctx rl W) (\<lambda>_. True) (open_next_link W (cc_cfg ctx) ext out)"
proof -
  have dial: "emits (turn_action_ok ctx rl W) (\<lambda>_. True) (map_err_io HTls (dial_tls (te_net W) (next_hop ext) (tls_name e)))"
    if "handle_usable (te_handle W) (te_now W) = Some v" "extend_target v (cfg_role (cc_cfg ctx)) (next_hop ext) = Some e" for v e
  proof -
    have "registered_hop W (cfg_role (cc_cfg ctx)) (next_hop ext) e"
      using that(1) extend_target_Some [OF that(2)] unfolding registered_hop_def by blast
    then show ?thesis
      by (intro emits_map_err emits_weaken [OF dial_tls_emits]) auto
  qed
  show ?thesis
    unfolding open_next_link_def Let_def using assms
    by (auto intro!: emits_bind_lift emits_bind_any [OF dial] emits_bind_any [OF emits_write_all]
        emits_bind_any [OF emits_flush] emits_lift simp: result_simps)
qed

lemma on_extend_emits: "emits (turn_action_ok ctx rl W) (\<lambda>_. True) (on_extend S W ctx rl ls cell)"
  unfolding on_extend_def
  by (auto intro!: emits_if emits_bind_lift emits_bind_any [OF open_next_link_emits] emits_bind_any [OF send_to_me_emits]
      emits_bind_any [OF emits_flush] emits_lift simp: result_simps extend_decode_msg1)

lemma on_connect_emits: "emits (turn_action_ok ctx Exit W) (\<lambda>_. True) (on_connect W ctx Exit ls cell)"
  unfolding on_connect_def
  by (intro emits_if emits_bind_lift emits_bind_any [OF emits_map_err [OF emits_weaken [OF dial_via_socks5_emits]]] emits_lift)
    (auto simp: proxy_dial_ok_def)

lemma on_data_emits: "wf_cell cell \<Longrightarrow> emits (turn_action_ok ctx Exit W) (\<lambda>_. True) (on_data Exit ls cell)"
  unfolding on_data_def by (intro emit_rules) (auto simp: wf_cell_def)

lemma on_close_emits: "emits (turn_action_ok ctx rl W) (\<lambda>_. True) (on_close_request S rl ls)"
  unfolding on_close_request_def
  by (intro emits_bind_any [OF send_to_me_emits] emits_bind_any [OF emits_flush] emits_lift) simp

lemma on_cell_emits:
  assumes "wf_cell cell" shows "emits (turn_action_ok ctx rl W) (\<lambda>_. True) (on_cell S W ctx rl ls cell)"
  using assms
  by (cases rl; cases "cell_type cell")
    (auto simp: on_cell_def intro!: on_extend_emits on_connect_emits on_data_emits on_close_emits emits_lift)

lemma on_inbound_emits: "emits (turn_action_ok ctx rl W) (\<lambda>_. True) (on_inbound S W ctx rl ls wire)"
proof -
  obtain r tx where p: "peel S (ls_transport ls) wire (inbound_layers rl) = (r, tx)" by (cases "peel S (ls_transport ls) wire (inbound_layers rl)")
  consider (bad) e where "r = Inl e" | (fwd) blob where "r = Inr (Forward blob)" | (me) cell where "r = Inr (ToMe cell)"
    by (cases r) (auto elim: Peeled.exhaust)
  then show ?thesis
  proof cases
    case bad
    with p show ?thesis by (simp add: on_inbound_def emits_lift)
  next
    case fwd
    with p peel_forward_size [of S "ls_transport ls" wire "inbound_layers rl" blob tx] inbound_layers_pos
    have "outbound_len rl = Some (length blob)"
      by (simp add: outbound_len_layers)
    with p fwd show ?thesis
      by (auto simp: on_inbound_def intro!: emits_if emits_bind_any [OF emits_write_all] emits_bind_any [OF emits_flush] emits_lift)
  next
    case me
    with p have "wf_cell cell" by (simp add: peel_to_me_wf)
    with p me show ?thesis by (simp add: on_inbound_def on_cell_emits)
  qed
qed

lemma on_next_emits: "emits (turn_action_ok ctx rl W) (\<lambda>_. True) (on_next S rl ls blob)"
  unfolding on_next_def
  by (auto intro!: emit_rules simp: inbound_len_def result_simps split: prod.splits
      dest: seal_forward_size(1) [OF _ inbound_layers_pos(1)])

lemma on_dest_emits: "emits (turn_action_ok ctx rl W) (\<lambda>_. True) (on_dest S rl ls bs)"
  unfolding on_dest_def
  by (intro emits_if emits_bind_any [OF send_chunks_emits] emits_bind_any [OF emits_flush] emits_lift) simp_all

lemma relay_turn_emits: "emits (turn_action_ok ctx rl W) (\<lambda>_. True) (relay_turn S ctx rl W ls)"
proof -
  have dest: "emits (turn_action_ok ctx rl W) (\<lambda>_. True) (poll_dest S rl ls)" for ls
    by (auto simp: poll_dest_def intro!: emits_lift on_dest_emits split: option.split prod.split poll.split)
  have "emits (turn_action_ok ctx rl W) (\<lambda>_. True) (poll_next S rl ls)" for ls
    by (auto simp: poll_next_def intro!: emits_lift on_next_emits dest split: option.split prod.split poll.split)
  then show ?thesis
    by (auto simp: relay_turn_def intro!: emits_lift on_inbound_emits split: prod.split poll.split)
qed

text \<open>Over a run, every action was allowed in one of its turns.\<close>

lemma run_loop_actions:
  assumes "run_loop S ctx rl es ls s = (r, s')"
  shows "\<exists>new. io_trace s' = io_trace s @ new \<and> list_all (\<lambda>a. \<exists>W. Turn W \<in> set es \<and> turn_action_ok ctx rl W a) new"
  using assms
proof (induction S ctx rl es ls s rule: run_loop.induct)
  case (3 S ctx rl W es ls s)
  obtain x s1 where t: "relay_turn S ctx rl W ls s = (x, s1)" by (cases "relay_turn S ctx rl W ls s")
  obtain new where new: "io_trace s1 = io_trace s @ new" "list_all (turn_action_ok ctx rl W) new"
    using emitsD(1) [OF relay_turn_emits t] by blast
  show ?case
  proof (cases "\<exists>ls'. x = Inr (Again ls')")
    case True
    then obtain ls' where x: "x = Inr (Again ls')" by blast
    from "3.IH" [OF t [symmetric] x refl] "3.prems" t x obtain more where
      "io_trace s' = io_trace s1 @ more" "list_all (\<lambda>a. \<exists>W. Turn W \<in> set es \<and> turn_action_ok ctx rl W a) more" by auto
    with new show ?thesis by (intro exI [of _ "new @ more"]) (auto simp: list_all_iff)
  next
    case False
    then have "s' = s1" using "3.prems" t by (cases x) (auto split: turn.splits)
    with new show ?thesis by (intro exI [of _ new]) (auto simp: list_all_iff)
  qed
qed auto

lemma run_circuit_io_actions:
  assumes "run_circuit_io S ctx rl tx inn es s = (r, s')" "io_trace s = []" "a \<in> set (io_trace s')"
  obtains W where "Turn W \<in> set es" "turn_action_ok ctx rl W a"
  using run_loop_actions [OF assms(1) [unfolded run_circuit_io_def]] assms(2,3) by (auto simp: list_all_iff)

lemma inbound_len_sizes: "inbound_len Guard = 564" "inbound_len Middle = 547" "inbound_len Exit = 530"
  by (simp_all add: inbound_len_def wire_defs)

lemma inbound_layers_max: "inbound_layers rl \<le> 3"
  by (cases rl) simp_all

section \<open>A concrete circuit\<close>

definition null_net :: net_env where
  "null_net = \<lparr>net_tcp_connect = \<lambda>_. None, net_nodelay = \<lambda>_. None, net_server_name = \<lambda>_. True,
     net_tls = \<lambda>_ _. Inr [Chunk (replicate 48 5)], net_parse_url = \<lambda>_. Some sample_url,
     net_socks = \<lambda>_ _ _ _. SocksUp []\<rparr>"

definition hop_entry :: "string \<Rightarrow> string \<Rightarrow> RelayEntry" where
  "hop_entry rl ip = \<lparr>relay_id = ''i'', operator_id = ''o'', host_id = ''h'', relay_role = rl, relay_ip = ip, relay_port = 9001,
     tls_name = ''t'', static_pubkey = []\<rparr>"

definition hop_registry :: Verified where
  "hop_registry = sample_verified\<lparr>ver_document := sample_doc\<lparr>relays := [hop_entry ''middle'' ''10.0.0.2'', hop_entry ''guard'' ''10.0.0.1'']\<rparr>\<rparr>"

definition sample_turn :: turn_env where
  "sample_turn = \<lparr>te_now = 1791381700, te_handle = publish handle_new hop_registry, te_net = null_net, te_elapsed = False\<rparr>"

definition sample_ctx :: "Role \<Rightarrow> ConnCtx" where
  "sample_ctx rl = \<lparr>cc_cfg = sample_config\<lparr>cfg_role := rl\<rparr>, cc_authority = toy_key,
     cc_static_key = \<lparr>kp_public = replicate 32 2, kp_private = replicate 32 1\<rparr>\<rparr>"

definition sample_frame :: "Role \<Rightarrow> CellType \<Rightarrow> bytes \<Rightarrow> bytes" where
  "sample_frame rl ty body = to_me_plain \<lparr>cell_type = ty, payload = body\<rparr> (inbound_layers rl) @ replicate 16 0"

lemma inbound_len_pos [simp]: "0 < inbound_len rl"
  by (cases rl) (simp_all add: inbound_len_sizes)

lemma length_sample_frame:
  assumes "length body \<le> CELL_PAYLOAD_LEN" shows "length (sample_frame rl ty body) = inbound_len rl"
proof -
  have "wf_cell \<lparr>cell_type = ty, payload = body\<rparr>" using assms by (simp add: wf_cell_def)
  from length_to_me_plain [OF this inbound_layers_pos(1), of rl] show ?thesis
    by (simp add: sample_frame_def inbound_len_def NOISE_TAG_LEN_def)
qed

lemma sample_turn_cell:
  assumes "length body \<le> CELL_PAYLOAD_LEN" "ls_inbound ls = reader_new (Chunk (sample_frame rl ty body) # rest) (inbound_len rl)"
  shows "relay_turn plain_snow ctx rl W ls =
    on_cell plain_snow W ctx rl
      (ls\<lparr>ls_inbound := reader_new rest (inbound_len rl),
          ls_transport := (fst (ls_transport ls), Suc (snd (ls_transport ls)))\<rparr>) \<lparr>cell_type = ty, payload = body\<rparr>"
proof -
  let ?c = "\<lparr>cell_type = ty, payload = body\<rparr>"
  have c: "wf_cell ?c" using assms(1) by (simp add: wf_cell_def)
  show ?thesis
    unfolding relay_turn_def assms(2) reader_next_whole [OF length_sample_frame [OF assms(1)] inbound_len_pos]
    by (simp add: on_inbound_def sample_frame_def plain_peel_to_me [OF c inbound_layers_pos(1) inbound_layers_max])
qed

lemma sample_send:
  assumes "length body \<le> CELL_PAYLOAD_LEN"
  shows "send_to_me plain_snow t (inbound_layers rl) ty body (quiet tr) =
    (Inr (Suc (fst t), snd t), quiet (tr @ [ToPeer (sample_frame rl ty body)]))"
  using assms plain_seal_to_me [of "\<lparr>cell_type = ty, payload = body\<rparr>" "inbound_layers rl" t]
  by (simp add: send_to_me_def cell_new_def wf_cell_def bind_def lift_def sample_frame_def)

section \<open>Properties\<close>

text \<open>
  C17: Nothing about a cell shows in its size. Whatever arrives on a circuit's three streams and
  however its writes end, every message the loop writes toward its peer has the one size of that
  role's inbound link, 564 bytes at a guard, 547 at a middle and 530 at an exit, and toward the
  next relay it writes only the two protocol bytes, one 48-byte handshake message and frames of
  the one size of the next link.
\<close>

theorem frames_have_fixed_size:
  assumes "run_circuit_io S ctx rl tx inn es s = (r, s')" "io_trace s = []"
  shows "(ToPeer f \<in> set (io_trace s') \<longrightarrow> length f = (case rl of Guard \<Rightarrow> 564 | Middle \<Rightarrow> 547 | Exit \<Rightarrow> 530)) \<and>
    (ToNext f \<in> set (io_trace s') \<longrightarrow> f = [PROTO_RELAY] \<or> f = [CIRCUIT_START] \<or> length f = 48
       \<or> rl = Guard \<and> length f = 547 \<or> rl = Middle \<and> length f = 530)"
proof (intro conjI impI)
  assume "ToPeer f \<in> set (io_trace s')"
  with assms obtain W where "turn_action_ok ctx rl W (ToPeer f)" by (rule run_circuit_io_actions)
  then show "length f = (case rl of Guard \<Rightarrow> 564 | Middle \<Rightarrow> 547 | Exit \<Rightarrow> 530)"
    by (auto simp: inbound_len_sizes split: Role.split)
next
  assume "ToNext f \<in> set (io_trace s')"
  with assms obtain W where "turn_action_ok ctx rl W (ToNext f)" by (rule run_circuit_io_actions)
  then show "f = [PROTO_RELAY] \<or> f = [CIRCUIT_START] \<or> length f = 48 \<or> rl = Guard \<and> length f = 547 \<or> rl = Middle \<and> length f = 530"
    by (cases rl) (auto simp: outbound_len_def wire_defs)
qed

lemma sample_close_run:
  "run_circuit_io plain_snow (sample_ctx Exit) Exit (0, 0) [Chunk (sample_frame Exit CloseRequest [])] [Turn sample_turn] (quiet []) =
     (Some (Inr ()), quiet [ToPeer (sample_frame Exit CloseAck [])])"
proof -
  let ?ls = "loop_init Exit (0, 0) [Chunk (sample_frame Exit CloseRequest [])] :: (nat \<times> nat) loop_state"
  have "relay_turn plain_snow (sample_ctx Exit) Exit sample_turn ?ls =
      on_cell plain_snow sample_turn (sample_ctx Exit) Exit
        (?ls\<lparr>ls_inbound := reader_new [] (inbound_len Exit), ls_transport := (0, 1)\<rparr>) \<lparr>cell_type = CloseRequest, payload = []\<rparr>"
    by (subst sample_turn_cell [of "[]"]) (simp_all add: loop_init_def)
  then show ?thesis
    using sample_send [of "[]" "(0, 1)" Exit CloseAck "[]"]
    by (simp add: run_circuit_io_def on_cell_def on_close_request_def bind_def lift_def)
qed

theorem frames_have_fixed_size_witness: "length (sample_frame Exit CloseAck []) = 530"
  using frames_have_fixed_size [OF sample_close_run, of "sample_frame Exit CloseAck []"] by simp

text \<open>
  C16: Onward links go only where the registry says. Every TCP connect and TLS handshake that a
  circuit starts is to the address of an entry of a registry document that was published and
  inside its window in that very turn, with the role directly downstream of this relay, and the
  handshake asks for the TLS name of that entry; an exit starts none.
\<close>

theorem onward_links_only_to_registered_relays:
  assumes "run_circuit_io S ctx rl tx inn es s = (r, s')" "io_trace s = []"
    and "DialTcp addr \<in> set (io_trace s') \<or> TlsHello addr sni \<in> set (io_trace s')"
  shows "\<exists>W v e. Turn W \<in> set es \<and> rh_current (te_handle W) = Some v
    \<and> is_usable_at (ver_document v) (te_now W) = Inr True
    \<and> e \<in> set (relays (ver_document v)) \<and> entry_addr e = Inr (canonical_addr addr)
    \<and> downstream_role (cfg_role (cc_cfg ctx)) = Some (relay_role e)
    \<and> (TlsHello addr sni \<in> set (io_trace s') \<longrightarrow> sni = tls_name e) \<and> cfg_role (cc_cfg ctx) \<noteq> Exit"
proof -
  have hop: "\<exists>v. rh_current (te_handle W) = Some v \<and> is_usable_at (ver_document v) (te_now W) = Inr True
    \<and> e \<in> set (relays (ver_document v)) \<and> entry_addr e = Inr (canonical_addr addr)
    \<and> downstream_role (cfg_role (cc_cfg ctx)) = Some (relay_role e) \<and> cfg_role (cc_cfg ctx) \<noteq> Exit"
    if "registered_hop W (cfg_role (cc_cfg ctx)) addr e" for W e
    using that by (cases "cfg_role (cc_cfg ctx)") (auto simp: registered_hop_def handle_usable_Some)
  show ?thesis
  proof (cases "TlsHello addr sni \<in> set (io_trace s')")
    case True
    obtain W where W: "Turn W \<in> set es" "turn_action_ok ctx rl W (TlsHello addr sni)"
      using assms(1,2) True by (rule run_circuit_io_actions)
    then obtain e where "registered_hop W (cfg_role (cc_cfg ctx)) addr e" "sni = tls_name e" by auto
    with W(1) hop [of W e] show ?thesis by blast
  next
    case False
    with assms(3) have "DialTcp addr \<in> set (io_trace s')" by blast
    with assms(1,2) obtain W where W: "Turn W \<in> set es" "turn_action_ok ctx rl W (DialTcp addr)"
      by (rule run_circuit_io_actions)
    then obtain e where "registered_hop W (cfg_role (cc_cfg ctx)) addr e" by auto
    with W(1) False hop [of W e] show ?thesis by blast
  qed
qed

text \<open>When the network cooperates, the courier opens the link and hands back the hop's answer.\<close>

lemma dial_tls_quiet:
  assumes "net_tcp_connect N addr = None" "net_nodelay N addr = None" "net_server_name N sni" "net_tls N addr sni = Inr stream"
  shows "dial_tls N addr sni (quiet tr) = (Inr stream, quiet (tr @ [DialTcp addr, TlsHello addr sni]))"
  using assms by (simp add: dial_tls_def fails_with_def bind_def lift_def)

lemma open_next_link_quiet:
  assumes "handle_usable (te_handle W) (te_now W) = Some v" "extend_target v (cfg_role cfg) (next_hop ext) = Some e"
    and "net_tcp_connect (te_net W) (next_hop ext) = None" "net_nodelay (te_net W) (next_hop ext) = None"
    and "net_server_name (te_net W) (tls_name e)" "net_tls (te_net W) (next_hop ext) (tls_name e) = Inr stream"
    and "read_exact NOISE_MSG_LEN stream = (Ready msg2, rest)"
  shows "open_next_link W cfg ext out (quiet tr) =
    (Inr \<lparr>nl_read = reader_new rest out, nl_msg2 = msg2\<rparr>,
     quiet (tr @ [DialTcp (next_hop ext), TlsHello (next_hop ext) (tls_name e), ToNext [PROTO_RELAY], ToNext [CIRCUIT_START],
       ToNext (noise_msg1 ext)]))"
  using assms by (simp add: open_next_link_def bind_def [of "map_err_io HTls (dial_tls N a n)" for N a n] map_err_io_def dial_tls_quiet)
    (simp add: bind_def lift_def)

definition sample_extend :: ExtendForward where
  "sample_extend = \<lparr>next_hop = SockV4 [10, 0, 0, 2] 9001, noise_msg1 = replicate 48 3\<rparr>"

lemma sample_extend_wf: "wf_extend sample_extend"
  by (simp add: sample_extend_def wf_extend_def NOISE_MSG_LEN_def)

lemma sample_hop:
  "handle_usable (te_handle sample_turn) (te_now sample_turn) = Some hop_registry"
  "extend_target hop_registry Guard (next_hop sample_extend) = Some (hop_entry ''middle'' ''10.0.0.2'')"
proof -
  show "handle_usable (te_handle sample_turn) (te_now sample_turn) = Some hop_registry"
    by (simp add: handle_usable_Some publish_def handle_new_def sample_turn_def hop_registry_def sample_verified_def is_usable_at_def
        valid_after_unix_def valid_until_unix_def sample_times i64_add_def SKEW_ALLOWANCE_SECS_def)
  have "entry_addr (hop_entry ''middle'' ''10.0.0.2'') = Inr (SockV4 [10, 0, 0, 2] 9001)"
    by (simp add: entry_addr_def ip_addr_def hop_entry_def canonical_ip_def parse_eval)
  moreover have "relay_role (hop_entry ''middle'' ''10.0.0.2'') = ''middle''" by (simp add: hop_entry_def)
  ultimately show "extend_target hop_registry Guard (next_hop sample_extend) = Some (hop_entry ''middle'' ''10.0.0.2'')"
    by (simp add: extend_target_def hop_registry_def sample_extend_def canonical_addr_def canonical_ip_def)
qed

definition sample_extend_trace :: "action list" where
  "sample_extend_trace = [DialTcp (next_hop sample_extend), TlsHello (next_hop sample_extend) ''t'', ToNext [PROTO_RELAY],
     ToNext [CIRCUIT_START], ToNext (noise_msg1 sample_extend), ToPeer (sample_frame Guard Extend (replicate 48 5))]"

lemma sample_extend_run:
  "run_circuit_io plain_snow (sample_ctx Guard) Guard (0, 0) [Chunk (sample_frame Guard Extend (extend_encode sample_extend))]
     [Turn sample_turn] (quiet []) = (None, quiet sample_extend_trace)"
proof -
  let ?body = "extend_encode sample_extend"
  let ?ls = "loop_init Guard (0, 0) [Chunk (sample_frame Guard Extend ?body)] :: (nat \<times> nat) loop_state"
  have dec: "extend_decode ?body = Inr sample_extend"
    using extend_codec.dec_enc [OF sample_extend_wf] by simp
  have body: "length ?body \<le> CELL_PAYLOAD_LEN"
    using length_extend_encode [of sample_extend] by (simp add: sample_extend_def wire_defs)
  have turn: "relay_turn plain_snow (sample_ctx Guard) Guard sample_turn ?ls =
      on_cell plain_snow sample_turn (sample_ctx Guard) Guard
        (?ls\<lparr>ls_inbound := reader_new [] (inbound_len Guard), ls_transport := (0, 1)\<rparr>) \<lparr>cell_type = Extend, payload = ?body\<rparr>"
    by (subst sample_turn_cell [OF body]) (simp_all add: loop_init_def)
  have open_link: "open_next_link sample_turn (cc_cfg (sample_ctx Guard)) sample_extend out (quiet []) =
    (Inr \<lparr>nl_read = reader_new [] out, nl_msg2 = replicate 48 5\<rparr>,
     quiet [DialTcp (next_hop sample_extend), TlsHello (next_hop sample_extend) ''t'', ToNext [PROTO_RELAY], ToNext [CIRCUIT_START],
       ToNext (noise_msg1 sample_extend)])" for out
    using open_next_link_quiet [of sample_turn hop_registry "cc_cfg (sample_ctx Guard)" sample_extend "hop_entry ''middle'' ''10.0.0.2''"
        "[Chunk (replicate 48 5)]" "replicate 48 5" "[]" out "[]"] sample_hop read_exact_chunk [of "replicate 48 5" 48 "[]" "[]"]
    by (simp add: sample_turn_def null_net_def hop_entry_def sample_ctx_def NOISE_MSG_LEN_def)
  have "relay_turn plain_snow (sample_ctx Guard) Guard sample_turn ?ls (quiet []) =
    (Inr (Again (?ls\<lparr>ls_inbound := reader_new [] (inbound_len Guard), ls_transport := (1, 1),
        ls_next := Some \<lparr>nl_read = reader_new [] 547, nl_msg2 = replicate 48 5\<rparr>\<rparr>)), quiet sample_extend_trace)"
    unfolding turn using sample_send [of "replicate 48 5" "(0, 1)" Guard Extend] open_link [of 547]
    by (simp add: on_cell_def on_extend_def dec bind_def lift_def outbound_len_def link_cell_len_def wire_defs
        loop_init_def extend_backward_payload_def sample_extend_trace_def)
  then show ?thesis by (simp add: run_circuit_io_def)
qed

theorem onward_links_only_to_registered_relays_witness:
  "entry_addr (hop_entry ''middle'' ''10.0.0.2'') = Inr (SockV4 [10, 0, 0, 2] 9001) \<or>
   entry_addr (hop_entry ''guard'' ''10.0.0.1'') = Inr (SockV4 [10, 0, 0, 2] 9001)"
proof -
  have "DialTcp (next_hop sample_extend) \<in> set (io_trace (quiet sample_extend_trace))"
    by (simp add: sample_extend_trace_def)
  then have "\<exists>W v e. Turn W \<in> set [Turn sample_turn] \<and> rh_current (te_handle W) = Some v
    \<and> is_usable_at (ver_document v) (te_now W) = Inr True
    \<and> e \<in> set (relays (ver_document v)) \<and> entry_addr e = Inr (canonical_addr (next_hop sample_extend))
    \<and> downstream_role (cfg_role (cc_cfg (sample_ctx Guard))) = Some (relay_role e)
    \<and> (TlsHello (next_hop sample_extend) ''t'' \<in> set (io_trace (quiet sample_extend_trace)) \<longrightarrow> ''t'' = tls_name e)
    \<and> cfg_role (cc_cfg (sample_ctx Guard)) \<noteq> Exit"
    by (intro onward_links_only_to_registered_relays [OF sample_extend_run]) simp_all
  then show ?thesis
    by (auto simp: sample_turn_def publish_def handle_new_def hop_registry_def sample_extend_def canonical_addr_def canonical_ip_def)
qed

text \<open>
  C18: The exit's port allowlist. A SOCKS5 dial happens only in the exit role and only for a port
  of the configured allowlist; a CONNECT for any other port ends the circuit before anything is
  sent to the proxy, the destination or the client.
\<close>

theorem exit_dials_only_allowed_ports:
  "(run_circuit_io S ctx rl tx inn es s = (r, s') \<and> io_trace s = [] \<and> DialProxy addr creds host port \<in> set (io_trace s')
      \<longrightarrow> rl = Exit \<and> port \<in> set (allowed_exit_ports (cc_cfg ctx))) \<and>
   (connect_decode (payload cell) = Inr p \<and> connect_port p \<notin> set (allowed_exit_ports (cc_cfg ctx))
      \<and> decodo_proxy_url (cc_cfg ctx) \<noteq> None \<and> ls_dest ls = None
      \<longrightarrow> on_connect W ctx Exit ls cell s = (Inl (HExit PortNotAllowed), s))"
proof (intro conjI impI; elim conjE)
  assume "run_circuit_io S ctx rl tx inn es s = (r, s')" "io_trace s = []" "DialProxy addr creds host port \<in> set (io_trace s')"
  then obtain W where "turn_action_ok ctx rl W (DialProxy addr creds host port)"
    by (rule run_circuit_io_actions)
  then show "rl = Exit" "port \<in> set (allowed_exit_ports (cc_cfg ctx))" by simp_all
qed (auto simp: on_connect_def bind_def lift_def map_err_io_def dial_via_socks5_disallowed)

definition sample_connect :: "u16 \<Rightarrow> bytes" where
  "sample_connect port = to_be16 1 @ as_bytes ''d'' @ to_be16 port"

lemma sample_connect_decode: "connect_decode (sample_connect port) = Inr \<lparr>connect_host = ''d'', connect_port = port\<rparr>"
proof -
  let ?c = "\<lparr>connect_host = ''d'', connect_port = port\<rparr>"
  have "wf_connect ?c" by (simp add: wf_connect_def is_str_def wire_defs MAX_CONNECT_HOST_LEN_def)
  moreover have "connect_encode ?c = Inr (sample_connect port)"
    by (simp add: connect_encode_def sample_connect_def wire_defs MAX_CONNECT_HOST_LEN_def)
  ultimately show ?thesis by (rule connect_codec.dec_enc)
qed

theorem exit_dials_only_allowed_ports_witness:
  "443 \<in> set (allowed_exit_ports (cc_cfg (sample_ctx Exit))) \<and>
   on_connect sample_turn (sample_ctx Exit) Exit (loop_init Exit () []) \<lparr>cell_type = Connect, payload = sample_connect 22\<rparr> (quiet [])
     = (Inl (HExit PortNotAllowed), quiet [])"
proof
  let ?body = "sample_connect 443"
  let ?ls = "loop_init Exit (0, 0) [Chunk (sample_frame Exit Connect ?body)] :: (nat \<times> nat) loop_state"
  have body: "length ?body \<le> CELL_PAYLOAD_LEN" by (simp add: sample_connect_def wire_defs)
  have turn: "relay_turn plain_snow (sample_ctx Exit) Exit sample_turn ?ls =
      on_cell plain_snow sample_turn (sample_ctx Exit) Exit
        (?ls\<lparr>ls_inbound := reader_new [] (inbound_len Exit), ls_transport := (0, 1)\<rparr>) \<lparr>cell_type = Connect, payload = ?body\<rparr>"
    by (subst sample_turn_cell [OF body]) (simp_all add: loop_init_def)
  have "relay_turn plain_snow (sample_ctx Exit) Exit sample_turn ?ls (quiet []) =
    (Inr (Again (?ls\<lparr>ls_inbound := reader_new [] (inbound_len Exit), ls_transport := (0, 1), ls_dest := Some []\<rparr>)),
     quiet [DialProxy (''proxy:'' @ show_nat 1080) None ''d'' 443])"
    unfolding turn
    by (simp add: on_cell_def on_connect_def sample_connect_decode dial_via_socks5_def bind_def lift_def map_err_io_def loop_init_def
        sample_ctx_def sample_config_def sample_turn_def null_net_def sample_url_def is_socks_scheme_def eq_ignore_ascii_case_def)
  then have "run_circuit_io plain_snow (sample_ctx Exit) Exit (0, 0) [Chunk (sample_frame Exit Connect ?body)] [Turn sample_turn] (quiet []) =
    (None, quiet [DialProxy (''proxy:'' @ show_nat 1080) None ''d'' 443])"
    by (simp add: run_circuit_io_def)
  then show "443 \<in> set (allowed_exit_ports (cc_cfg (sample_ctx Exit)))"
    using exit_dials_only_allowed_ports by fastforce
  show "on_connect sample_turn (sample_ctx Exit) Exit (loop_init Exit () []) \<lparr>cell_type = Connect, payload = sample_connect 22\<rparr> (quiet [])
     = (Inl (HExit PortNotAllowed), quiet [])"
    by (rule exit_dials_only_allowed_ports [where p = "\<lparr>connect_host = ''d'', connect_port = 22\<rparr>", THEN conjunct2, THEN mp])
      (simp add: sample_connect_decode sample_ctx_def sample_config_def loop_init_def)
qed

text \<open>
  C28: What a destination that closes its write half does to the circuit. The exit drops the
  whole destination stream in that turn, so the next DATA cell with a payload is answered by
  ending the circuit with an error and is delivered to nobody.
\<close>

theorem half_closed_destination_ends_circuit:
  assumes "ls_dest ls = Some [Closed]" "ls_next ls = None" "ls_inbound ls = reader_new [] (inbound_len Exit)"
    and "\<not> te_elapsed W1"
    and "peel S (ls_transport ls) wire (inbound_layers Exit) = (Inr (ToMe cell), tx)" "cell_type cell = Data" "payload cell \<noteq> []"
  shows "run_loop S ctx Exit [Turn W1, Arrives FromPeer (Chunk wire), Turn W2] ls s = (Some (Inl (IllegalCellForRole Data Exit)), s)"
proof -
  have "length wire = inbound_len Exit"
    using assms(5) peel_wrong_size [of wire "inbound_layers Exit" S "ls_transport ls"] by (fastforce simp: inbound_len_def)
  note frame = reader_next_whole [OF this inbound_len_pos, of "[]"]
  have "relay_turn S ctx Exit W1 ls s = (Inr (Again (ls\<lparr>ls_dest := None\<rparr>)), s)"
    using assms(1-4) by (simp add: relay_turn_def reader_next_idle poll_next_def poll_dest_def on_dest_def lift_def)
  moreover have "deliver (ls\<lparr>ls_dest := None\<rparr>) FromPeer (Chunk wire)
      = ls\<lparr>ls_dest := None, ls_inbound := reader_new [Chunk wire] (inbound_len Exit)\<rparr>"
    using assms(3) by (simp add: reader_new_def)
  ultimately show ?thesis
    using assms(5-7) by (simp add: relay_turn_def frame on_inbound_def on_cell_def on_data_def lift_def)
qed

theorem half_closed_destination_ends_circuit_witness:
  "run_loop plain_snow (sample_ctx Exit) Exit
     [Turn sample_turn, Arrives FromPeer (Chunk (sample_frame Exit Data [7])), Turn sample_turn]
     \<lparr>ls_transport = (0, 0), ls_inbound = reader_new [] (inbound_len Exit), ls_next = None, ls_dest = Some [Closed]\<rparr> (quiet [])
   = (Some (Inl (IllegalCellForRole Data Exit)), quiet [])"
proof (rule half_closed_destination_ends_circuit)
  show "peel plain_snow (ls_transport \<lparr>ls_transport = (0, 0), ls_inbound = reader_new [] (inbound_len Exit), ls_next = None,
      ls_dest = Some [Closed]\<rparr>) (sample_frame Exit Data [7]) (inbound_layers Exit)
    = (Inr (ToMe \<lparr>cell_type = Data, payload = [7]\<rparr>), (0, 1))"
    using plain_peel_to_me [of "\<lparr>cell_type = Data, payload = [7]\<rparr>" 1 "(0, 0)"]
    by (simp add: sample_frame_def wf_cell_def CELL_PAYLOAD_LEN_def)
qed (simp_all add: sample_turn_def)

end
