(* ===== verification/Relay_Conn.thy ===== *)
theory Relay_Conn
  imports Relay_Loop
begin

text \<open>
  From an accepted TLS stream to a circuit (\<^verbatim>\<open>relay/src/main.rs\<close>): the protocol byte, the token
  presentation of a client, the registry check of a relay peer, and the responder handshake.
\<close>

section \<open>Handlers\<close>

text \<open>
  What one connection needs besides its stream: the randomness of the handshake, the big-integer
  crate, SHA-256, the two clocks and the registry at the moment it is consulted.
\<close>

record conn_env =
  ce_seed :: nat
  ce_big :: big_ops
  ce_sha :: "bytes \<Rightarrow> bytes"
  ce_instant :: nat
  ce_now :: int
  ce_handle :: RegistryHandle

definition drive_circuit :: "('b, 'h, 't) snow \<Rightarrow> conn_env \<Rightarrow> ConnCtx \<Rightarrow> Role \<Rightarrow> arrival list \<Rightarrow> loop_event list \<Rightarrow>
    action io \<Rightarrow> ((HandleError + unit) option \<times> Circuit) \<times> action io" where
  "drive_circuit S V ctx rl inn es s =
     (let circuit = circuit_new in
      case read_exact NOISE_MSG_LEN inn of
        (Failed e, _) \<Rightarrow> ((Some (Inl (HIo e)), fail circuit), s)
      | (Pending, _) \<Rightarrow> ((Some (Inl HTimeout), fail circuit), s)
      | (Ready msg1, inn') \<Rightarrow>
          (case respond S (ce_seed V) (kp_private (cc_static_key ctx)) msg1 of
             Inl _ \<Rightarrow> ((Some (Inl HHandshake), fail circuit), s)
           | Inr (tx, msg2) \<Rightarrow>
               (case write_all HIo (ToPeer msg2) s of
                  (Inl e, s1) \<Rightarrow> ((Some (Inl e), fail circuit), s1)
                | (Inr _, s1) \<Rightarrow>
                    (case flush HIo s1 of
                       (Inl e, s2) \<Rightarrow> ((Some (Inl e), fail circuit), s2)
                     | (Inr _, s2) \<Rightarrow>
                         (case activate circuit of
                            (Inl e, circuit) \<Rightarrow> ((Some (Inl (HCircuit e)), fail circuit), s2)
                          | (Inr _, circuit) \<Rightarrow>
                              (case run_circuit_io S ctx rl tx inn' es s2 of
                                 (Some (Inr _), s3) \<Rightarrow> ((Some (Inr ()), snd (close circuit)), s3)
                               | (Some (Inl e), s3) \<Rightarrow> ((Some (Inl e), fail circuit), s3)
                               | (None, s3) \<Rightarrow> ((None, circuit), s3)))))))"

definition handle_client_connection :: "('b, 'h, 't) snow \<Rightarrow> conn_env \<Rightarrow> ConnCtx \<Rightarrow> arrival list \<Rightarrow> loop_event list \<Rightarrow>
    ReplayWindow \<Rightarrow> action io \<Rightarrow> (HandleError + unit) option \<times> ReplayWindow \<times> action io" where
  "handle_client_connection S V ctx inn es replay s =
     (case read_exact PRESENTATION_LEN inn of
        (Failed e, _) \<Rightarrow> (Some (Inl (HIo e)), replay, s)
      | (Pending, _) \<Rightarrow> (Some (Inl HTimeout), replay, s)
      | (Ready buf, inn') \<Rightarrow>
          (case token_verify (ce_big V) (ce_sha V) (ce_instant V) (take M_RAW_LEN buf) (drop M_RAW_LEN buf)
                  (cc_authority ctx) replay of
             (Inl e, replay') \<Rightarrow> (Some (Inl (HToken e)), replay', snd (note_io (CountRejected e) s :: (unit + unit) \<times> action io))
           | (Inr _, replay') \<Rightarrow>
               (let s1 = snd (note_io CountVerified s :: (unit + unit) \<times> action io);
                    ((r, _), s2) = drive_circuit S V ctx Guard inn' es s1
                in (r, replay', s2))))"

definition handle_relay_connection :: "('b, 'h, 't) snow \<Rightarrow> conn_env \<Rightarrow> ConnCtx \<Rightarrow> SocketAddr \<Rightarrow> arrival list \<Rightarrow>
    loop_event list \<Rightarrow> action io \<Rightarrow> (HandleError + unit) option \<times> action io" where
  "handle_relay_connection S V ctx peer inn es s =
     (case handle_usable (ce_handle V) (ce_now V) of
        None \<Rightarrow> (Some (Inl PeerNotAllowed), s)
      | Some doc \<Rightarrow>
          if \<not> admits_inbound doc (cfg_role (cc_cfg ctx)) (sock_ip peer) then (Some (Inl PeerNotAllowed), s)
          else
            (case read_exact 1 inn of
               (Pending, _) \<Rightarrow> (None, s)
             | (Failed UnexpectedEof, _) \<Rightarrow> (Some (Inr ()), s)
             | (Failed e, _) \<Rightarrow> (Some (Inl (HIo e)), s)
             | (Ready signal, inn') \<Rightarrow>
                 if signal ! 0 \<noteq> CIRCUIT_START then (Some (Inr ()), s)
                 else (let ((r, _), s') = drive_circuit S V ctx (cfg_role (cc_cfg ctx)) inn' es s in (r, s'))))"

definition handle_connection :: "('b, 'h, 't) snow \<Rightarrow> conn_env \<Rightarrow> ConnCtx \<Rightarrow> SocketAddr \<Rightarrow> arrival list \<Rightarrow>
    loop_event list \<Rightarrow> ReplayWindow \<Rightarrow> action io \<Rightarrow> (HandleError + unit) option \<times> ReplayWindow \<times> action io" where
  "handle_connection S V ctx peer inn es replay s =
     (case read_exact 1 inn of
        (Failed e, _) \<Rightarrow> (Some (Inl (HIo e)), replay, s)
      | (Pending, _) \<Rightarrow> (Some (Inl HTimeout), replay, s)
      | (Ready proto, inn') \<Rightarrow>
          let b = proto ! 0; rl = cfg_role (cc_cfg ctx) in
          if b = PROTO_CLIENT \<and> rl = Guard then handle_client_connection S V ctx inn' es replay s
          else if b = PROTO_RELAY \<and> (rl = Middle \<or> rl = Exit) then
            (let (r, s') = handle_relay_connection S V ctx peer inn' es s in (r, replay, s'))
          else (Some (Inl (UnexpectedProtocol b)), replay, snd (note_io ShutdownPeer s :: (unit + unit) \<times> action io)))"

section \<open>Gates\<close>

lemma note_trace [simp]: "snd (note_io a s) = s\<lparr>io_trace := io_trace s @ [a]\<rparr>"
  by (simp add: note_io_def)

text \<open>
  C14: A guard serves only token holders. If a guard's handler does anything at all besides
  refusing a protocol byte or counting a rejected token, which includes every byte it writes and
  every connection it opens, then the connection began with the client protocol byte and a
  presentation whose token the authority signed and which the replay window had not seen.
\<close>

theorem guard_serves_only_token_holders:
  assumes "big_laws (ce_big V)" "cfg_role (cc_cfg ctx) = Guard"
    and "handle_connection S V ctx peer inn es replay s = (r, replay', s')" "io_trace s = []"
    and "a \<in> set (io_trace s')" "a \<noteq> ShutdownPeer" "\<forall>e. a \<noteq> CountRejected e"
  shows "\<exists>m_raw token rest. inner_bytes inn = PROTO_CLIENT # m_raw @ token @ rest
    \<and> length m_raw = M_RAW_LEN \<and> length token = TOKEN_LEN
    \<and> signed_token (ce_big V) (ce_sha V) (cc_authority ctx) m_raw token
    \<and> fresh_token (ce_sha V) (ce_instant V) token replay"
proof -
  obtain proto inn1 where proto: "read_exact 1 inn = (Ready proto, inn1)"
    using assms(3-5) by (auto simp: handle_connection_def split: prod.splits poll.splits)
  then have "length proto = 1" "inner_bytes inn = proto @ inner_bytes inn1" using read_exact_Ready by blast+
  then have inn: "inner_bytes inn = proto ! 0 # inner_bytes inn1" by (cases proto) auto
  have client: "proto ! 0 = PROTO_CLIENT" and run: "handle_client_connection S V ctx inn1 es replay s = (r, replay', s')"
    using assms(2-6) proto by (auto simp: handle_connection_def Let_def split: if_splits)
  obtain buf inn2 where buf: "read_exact PRESENTATION_LEN inn1 = (Ready buf, inn2)"
    using run assms(4,5) by (auto simp: handle_client_connection_def split: prod.splits poll.splits)
  then have len: "length buf = M_RAW_LEN + TOKEN_LEN" and bytes: "inner_bytes inn1 = buf @ inner_bytes inn2"
    using read_exact_Ready [OF buf] by (simp_all add: PRESENTATION_LEN_def)
  have "\<exists>w. token_verify (ce_big V) (ce_sha V) (ce_instant V) (take M_RAW_LEN buf) (drop M_RAW_LEN buf) (cc_authority ctx) replay = (Inr (), w)"
    using run buf assms(4,5,7) by (auto simp: handle_client_connection_def split: prod.splits sum.splits)
  then have "signed_token (ce_big V) (ce_sha V) (cc_authority ctx) (take M_RAW_LEN buf) (drop M_RAW_LEN buf)
    \<and> fresh_token (ce_sha V) (ce_instant V) (drop M_RAW_LEN buf) replay"
    by (auto simp: token_verify_cases [OF assms(1)] split: if_splits)
  with inn client bytes len show ?thesis
    by (intro exI [of _ "take M_RAW_LEN buf"] exI [of _ "drop M_RAW_LEN buf"] exI [of _ "inner_bytes inn2"]) simp
qed

text \<open>
  C15: A middle or exit serves only registered peers. If its handler writes a byte or opens a
  connection, then the registry published at that moment was inside its window and listed the
  peer's address with the role directly upstream, and the connection began with the relay
  protocol byte, the start byte and a whole 48-byte handshake message.
\<close>

theorem relay_serves_only_registered_peers:
  assumes "cfg_role (cc_cfg ctx) \<noteq> Guard"
    and "handle_connection S V ctx peer inn es replay s = (r, replay', s')" "io_trace s = []"
    and "a \<in> set (io_trace s')" "a \<noteq> ShutdownPeer"
  shows "\<exists>v msg1 rest. rh_current (ce_handle V) = Some v \<and> is_usable_at (ver_document v) (ce_now V) = Inr True
    \<and> admits_inbound v (cfg_role (cc_cfg ctx)) (sock_ip peer)
    \<and> inner_bytes inn = PROTO_RELAY # CIRCUIT_START # msg1 @ rest \<and> length msg1 = NOISE_MSG_LEN"
proof -
  obtain proto inn1 where proto: "read_exact 1 inn = (Ready proto, inn1)"
    using assms(2-4) by (auto simp: handle_connection_def split: prod.splits poll.splits)
  then have "length proto = 1" "inner_bytes inn = proto @ inner_bytes inn1" using read_exact_Ready by blast+
  then have inn: "inner_bytes inn = proto ! 0 # inner_bytes inn1" by (cases proto) auto
  have relay: "proto ! 0 = PROTO_RELAY" and run: "handle_relay_connection S V ctx peer inn1 es s = (r, s')"
    using assms proto by (auto simp: handle_connection_def Let_def split: if_splits prod.splits)
  obtain v sig inn2 where v: "handle_usable (ce_handle V) (ce_now V) = Some v"
    "admits_inbound v (cfg_role (cc_cfg ctx)) (sock_ip peer)"
    and sig: "read_exact 1 inn1 = (Ready sig, inn2)" "sig ! 0 = CIRCUIT_START"
    and drive: "s' = snd (drive_circuit S V ctx (cfg_role (cc_cfg ctx)) inn2 es s)"
    using run assms(3,4)
    by (auto simp: handle_relay_connection_def Let_def split: option.splits if_splits prod.splits poll.splits IoError.splits)
  have "length sig = 1" "inner_bytes inn1 = sig @ inner_bytes inn2" using read_exact_Ready [OF sig(1)] by simp_all
  then have inn1: "inner_bytes inn1 = CIRCUIT_START # inner_bytes inn2" using sig(2) by (cases sig) auto
  obtain msg1 inn3 where "read_exact NOISE_MSG_LEN inn2 = (Ready msg1, inn3)"
    using drive assms(3,4) by (auto simp: drive_circuit_def Let_def split: prod.splits poll.splits)
  then have "length msg1 = NOISE_MSG_LEN" "inner_bytes inn2 = msg1 @ inner_bytes inn3" using read_exact_Ready by blast+
  with v inn inn1 relay show ?thesis
    by (intro exI [of _ v] exI [of _ msg1] exI [of _ "inner_bytes inn3"]) (auto simp: handle_usable_Some)
qed

text \<open>
  The state of a circuit tells how it ended. While the loop is waiting the circuit is active;
  it is closed exactly when the handler returns success, which happens only after a whole
  handshake, and every error, whether before, in or after the handshake, leaves it failed.
\<close>

lemma circuit_state_reflects_outcome:
  assumes "drive_circuit S V ctx rl inn es s = ((r, c), s')"
  shows "circ_state c = (case r of None \<Rightarrow> StActive | Some (Inr _) \<Rightarrow> StClosed | Some (Inl _) \<Rightarrow> StFailed)"
  using assms
  by (auto simp: drive_circuit_def Let_def circuit_new_def circuit_defs split: prod.splits poll.splits sum.splits option.splits)

text \<open>Concrete connections to a guard and to a middle.\<close>

definition sample_conn :: conn_env where
  "sample_conn = \<lparr>ce_seed = 0, ce_big = big_model, ce_sha = toy_sha, ce_instant = 9, ce_now = 1791381700,
     ce_handle = publish handle_new hop_registry\<rparr>"

definition sample_presentation :: bytes where
  "sample_presentation = (replicate 31 0 @ [5]) @ (replicate 255 0 @ [14])"

lemma sample_ctx_role [simp]: "cfg_role (cc_cfg (sample_ctx rl)) = rl"
  by (simp add: sample_ctx_def)

lemma sample_token:
  "signed_token big_model toy_sha toy_key (replicate 31 0 @ [5]) (replicate 255 0 @ [14])"
proof -
  have sha: "toy_sha (replicate 31 0 @ [5]) = toy_sha [5]" by (simp add: toy_sha_def be_value_zeros del: be_value_snoc)
  show ?thesis
    using toy_signed unfolding signed_token_def sha be_value_zeros
    by (simp add: big_model_def toy_key_def nat_bits.simps div_ceil_def)
qed

lemma sample_guard_run:
  "\<exists>w. handle_connection plain_snow sample_conn (sample_ctx Guard) (SockV4 [1, 2, 3, 4] 5)
     [Chunk (PROTO_CLIENT # sample_presentation)] [] (window_new 60) (quiet []) = (Some (Inl HTimeout), w, quiet [CountVerified])"
proof -
  have r1: "read_exact 1 [Chunk (PROTO_CLIENT # sample_presentation)] = (Ready [PROTO_CLIENT], [Chunk sample_presentation])"
    using read_exact_chunk [of "[PROTO_CLIENT]" 1 sample_presentation "[]"] by (simp add: sample_presentation_def)
  have r2: "read_exact PRESENTATION_LEN [Chunk sample_presentation] = (Ready sample_presentation, [])"
    using read_exact_chunk [of sample_presentation PRESENTATION_LEN "[]" "[]"] by (simp add: sample_presentation_def wire_defs)
  have tok: "take M_RAW_LEN sample_presentation = replicate 31 0 @ [5]" "drop M_RAW_LEN sample_presentation = replicate 255 0 @ [14]"
    by (simp_all add: sample_presentation_def M_RAW_LEN_def)
  obtain w where v: "token_verify big_model toy_sha 9 (take M_RAW_LEN sample_presentation) (drop M_RAW_LEN sample_presentation) toy_key (window_new 60) = (Inr (), w)"
    unfolding tok using sample_token by (simp add: token_verify_cases [OF big_model_laws] fresh_token_def window_new_def)
  have "read_exact NOISE_MSG_LEN [] = (Pending, [])" by (simp add: read_exact.simps NOISE_MSG_LEN_def)
  then have "drive_circuit plain_snow sample_conn (sample_ctx Guard) Guard [] [] t = ((Some (Inl HTimeout), fail circuit_new), t)" for t
    by (simp add: drive_circuit_def)
  then have "handle_client_connection plain_snow sample_conn (sample_ctx Guard) [Chunk sample_presentation] [] (window_new 60) (quiet [])
      = (Some (Inl HTimeout), w, quiet [CountVerified])"
    using v by (simp add: handle_client_connection_def r2 sample_conn_def) (simp add: sample_ctx_def quiet_def)
  then show ?thesis
    by (simp add: handle_connection_def r1 [unfolded One_nat_def])
qed

theorem guard_serves_only_token_holders_witness:
  "\<exists>m_raw token rest. sample_presentation = m_raw @ token @ rest \<and> length token = TOKEN_LEN
     \<and> signed_token big_model toy_sha toy_key m_raw token"
proof -
  obtain w where run: "handle_connection plain_snow sample_conn (sample_ctx Guard) (SockV4 [1, 2, 3, 4] 5)
     [Chunk (PROTO_CLIENT # sample_presentation)] [] (window_new 60) (quiet []) = (Some (Inl HTimeout), w, quiet [CountVerified])"
    using sample_guard_run by blast
  have "big_laws (ce_big sample_conn)" "cfg_role (cc_cfg (sample_ctx Guard)) = Guard"
    by (simp_all add: sample_conn_def big_model_laws sample_ctx_def)
  from guard_serves_only_token_holders [OF this run, of CountVerified] show ?thesis
    by (auto simp: sample_conn_def sample_ctx_def)
qed

definition sample_hello :: bytes where
  "sample_hello = [PROTO_RELAY, CIRCUIT_START] @ replicate 48 3"

lemma sample_middle_run:
  "handle_connection plain_snow sample_conn (sample_ctx Middle) (SockV4 [10, 0, 0, 1] 5) [Chunk sample_hello] [] w (quiet [])
     = (None, w, quiet [ToPeer (replicate 48 0)])"
proof -
  have r1: "read_exact 1 [Chunk sample_hello] = (Ready [PROTO_RELAY], [Chunk (CIRCUIT_START # replicate 48 3)])"
    using read_exact_chunk [of "[PROTO_RELAY]" 1 "CIRCUIT_START # replicate 48 3" "[]"] by (simp add: sample_hello_def)
  have r2: "read_exact 1 [Chunk (CIRCUIT_START # replicate 48 3)] = (Ready [CIRCUIT_START], [Chunk (replicate 48 3)])"
    using read_exact_chunk [of "[CIRCUIT_START]" 1 "replicate 48 3" "[]"] by simp
  have r3: "read_exact NOISE_MSG_LEN [Chunk (replicate 48 3)] = (Ready (replicate 48 3), [])"
    using read_exact_chunk [of "replicate 48 3" NOISE_MSG_LEN "[]" "[]"] by (simp add: NOISE_MSG_LEN_def)
  have usable: "handle_usable (ce_handle sample_conn) (ce_now sample_conn) = Some hop_registry"
    using sample_hop(1) by (simp add: sample_turn_def sample_conn_def)
  have admit: "admits_inbound hop_registry Middle (V4 [10, 0, 0, 1])"
    by (simp add: admits_inbound_def hop_registry_def hop_entry_def ip_addr_def canonical_ip_def parse_eval)
  have "drive_circuit plain_snow sample_conn (sample_ctx Middle) Middle [Chunk (replicate 48 3)] [] (quiet [])
      = ((None, \<lparr>circ_state = StActive\<rparr>), quiet [ToPeer (replicate 48 0)])"
    by (simp add: drive_circuit_def r3 plain_respond circuit_new_def activate_def run_circuit_io_def)
  then show ?thesis
    by (simp add: handle_connection_def r1 [unfolded One_nat_def] handle_relay_connection_def usable
        r2 [unfolded One_nat_def] admit)
qed

theorem relay_serves_only_registered_peers_witness:
  "admits_inbound hop_registry Middle (V4 [10, 0, 0, 1]) \<and> take 2 sample_hello = [PROTO_RELAY, CIRCUIT_START]"
proof -
  have "cfg_role (cc_cfg (sample_ctx Middle)) \<noteq> Guard" by (simp add: sample_ctx_def)
  from relay_serves_only_registered_peers [OF this sample_middle_run [of "window_new 60"], of "ToPeer (replicate 48 0)"]
  show ?thesis by (auto simp: sample_conn_def publish_def handle_new_def sample_hello_def)
qed

end
