(* ===== verification/Tunnel.thy ===== *)
theory Tunnel
  imports Dialer Relay_Conn
begin

text \<open>
  Client, guard, middle and exit together: the client's circuit task and the cell loops of the
  three relays, connected by what each writes for the next. The sessions of one circuit are the
  three pairs of transports that the handshakes leave behind.
\<close>

section \<open>Linked sessions\<close>

text \<open>
  \<open>onion_linked link i j L g m x\<close>: the client's three transports are linked to those of the guard,
  the middle and the exit, with at least \<open>i\<close> messages left on each toward the relay and \<open>j\<close> toward
  the client.
\<close>

definition onion_linked :: "(nat \<Rightarrow> nat \<Rightarrow> 't \<Rightarrow> 't \<Rightarrow> bool) \<Rightarrow> nat \<Rightarrow> nat \<Rightarrow> 't HopLayers \<Rightarrow> 't \<Rightarrow> 't \<Rightarrow> 't \<Rightarrow> bool" where
  "onion_linked link i j L g m x \<longleftrightarrow> link i j (ly_guard L) g \<and> link i j (ly_middle L) m \<and> link i j (ly_exit L) x"

fun peel_all :: "('t, 'm) transport_ops_scheme \<Rightarrow> nat \<Rightarrow> 't \<Rightarrow> bytes list \<Rightarrow> (Peeled list \<times> 't) option" where
  "peel_all S layers t [] = Some ([], t)"
| "peel_all S layers t (w # ws) =
     (case peel S t w layers of
        (Inl _, _) \<Rightarrow> None
      | (Inr p, t') \<Rightarrow> map_option (\<lambda>(ps, t''). (p # ps, t'')) (peel_all S layers t' ws))"

fun seal_forward_all :: "('t, 'm) transport_ops_scheme \<Rightarrow> nat \<Rightarrow> 't \<Rightarrow> bytes list \<Rightarrow> (bytes list \<times> 't) option" where
  "seal_forward_all S layers t [] = Some ([], t)"
| "seal_forward_all S layers t (b # bs) =
     (case seal_forward S t b layers of
        (Inl _, _) \<Rightarrow> None
      | (Inr w, t') \<Rightarrow> map_option (\<lambda>(ws, t''). (w # ws, t'')) (seal_forward_all S layers t' bs))"

fun peel_inbound_all :: "('t, 'm) transport_ops_scheme \<Rightarrow> 't HopLayers \<Rightarrow> bytes list \<Rightarrow> (Cell list \<times> 't HopLayers) option" where
  "peel_inbound_all S L [] = Some ([], L)"
| "peel_inbound_all S L (w # ws) =
     (case peel_inbound S L w of
        (Inl _, _) \<Rightarrow> None
      | (Inr c, L') \<Rightarrow> map_option (\<lambda>(cs, L''). (c # cs, L'')) (peel_inbound_all S L' ws))"

abbreviation data_cell :: "bytes \<Rightarrow> Cell" where
  "data_cell bs \<equiv> \<lparr>cell_type = Data, payload = bs\<rparr>"

lemma link_cell_lens: "link_cell_len 3 = 564" "link_cell_len 2 = 547" "link_cell_len (Suc 0) = 530"
  by (simp_all add: link_cell_len_def wire_defs)

section \<open>One cell through three hops\<close>

lemma seal_for_exit_hops:
  assumes laws: "transport_laws S link" and lk: "onion_linked link (Suc i) j L g m x" and cell: "wf_cell cell"
  obtains w v u L' g' m' x' where "seal_for_exit S L cell = (Inr w, L')"
    "peel S g w 3 = (Inr (Forward v), g')" "peel S m v 2 = (Inr (Forward u), m')" "peel S x u 1 = (Inr (ToMe cell), x')"
    "onion_linked link i j L' g' m' x'"
proof -
  from lk have lg: "link (Suc i) j (ly_guard L) g" and lm: "link (Suc i) j (ly_middle L) m"
    and lx: "link (Suc i) j (ly_exit L) x" by (simp_all add: onion_linked_def)
  obtain u ax x' where u: "seal_to_me S (ly_exit L) cell 1 = (Inr u, ax)" "length u = link_cell_len 1"
    "peel S x u 1 = (Inr (ToMe cell), x')" "link i j ax x'"
    using seal_to_me_peel [OF laws lx cell, of 1] by auto
  obtain v am m' where v: "seal_forward S (ly_middle L) u 2 = (Inr v, am)" "length v = link_cell_len 2"
    "peel S m v 2 = (Inr (Forward u), m')" "link i j am m'"
    using seal_forward_peel [OF laws lm, of u 2] u(2) by auto
  obtain w ag g' where w: "seal_forward S (ly_guard L) v 3 = (Inr w, ag)" "length w = link_cell_len 3"
    "peel S g w 3 = (Inr (Forward v), g')" "link i j ag g'"
    using seal_forward_peel [OF laws lg, of v 3] v(2) by auto
  show thesis
  proof (rule that)
    show "seal_for_exit S L cell = (Inr w, L\<lparr>ly_exit := ax, ly_middle := am, ly_guard := ag\<rparr>)"
      using u v w by (simp add: seal_for_exit_def CLIENT_LAYERS_def)
    show "onion_linked link i j (L\<lparr>ly_exit := ax, ly_middle := am, ly_guard := ag\<rparr>) g' m' x'"
      using u v w by (simp add: onion_linked_def)
  qed (use u v w in auto)
qed

lemma seal_back_hops:
  assumes laws: "transport_laws S link" and lk: "onion_linked link i (Suc j) L g m x" and cell: "wf_cell cell"
  obtains u v w L' g' m' x' where "seal_to_me S x cell 1 = (Inr u, x')"
    "seal_forward S m u 2 = (Inr v, m')" "seal_forward S g v 3 = (Inr w, g')"
    "peel_inbound S L w = (Inr cell, L')" "onion_linked link i j L' g' m' x'"
    "length u = 530" "length v = 547" "length w = 564"
proof -
  note sym = transport_laws_sym [OF laws]
  from lk have lg: "link (Suc j) i g (ly_guard L)" and lm: "link (Suc j) i m (ly_middle L)"
    and lx: "link (Suc j) i x (ly_exit L)" by (simp_all add: onion_linked_def sym)
  obtain u ax x' where u: "seal_to_me S x cell 1 = (Inr u, x')" "length u = link_cell_len 1"
    "peel S (ly_exit L) u 1 = (Inr (ToMe cell), ax)" "link j i x' ax"
    using seal_to_me_peel [OF laws lx cell, of 1] by auto
  obtain v am m' where v: "seal_forward S m u 2 = (Inr v, m')" "length v = link_cell_len 2"
    "peel S (ly_middle L) v 2 = (Inr (Forward u), am)" "link j i m' am"
    using seal_forward_peel [OF laws lm, of u 2] u(2) by auto
  obtain w ag g' where w: "seal_forward S g v 3 = (Inr w, g')" "length w = link_cell_len 3"
    "peel S (ly_guard L) w 3 = (Inr (Forward v), ag)" "link j i g' ag"
    using seal_forward_peel [OF laws lg, of v 3] v(2) by auto
  show thesis
  proof (rule that)
    show "peel_inbound S L w = (Inr cell, L\<lparr>ly_guard := ag, ly_middle := am, ly_exit := ax\<rparr>)"
      using u v w by (simp add: peel_inbound_def CLIENT_LAYERS_def)
    show "onion_linked link i j (L\<lparr>ly_guard := ag, ly_middle := am, ly_exit := ax\<rparr>) g' m' x'"
      using u v w by (simp add: onion_linked_def sym)
    show "length u = 530" "length v = 547" "length w = 564"
      using u(2) v(2) w(2) by (simp_all add: link_cell_lens)
  qed (use u v w in auto)
qed

section \<open>A stream of cells\<close>

lemma send_user_chunks_hops:
  assumes laws: "transport_laws S link" and lk: "onion_linked link (i + length cs) j L g m x"
    and cs: "list_all (\<lambda>c. length c \<le> CELL_PAYLOAD_LEN) cs"
  shows "\<exists>ws vs us L' g' m' x'. send_user_chunks S L cs (quiet tr) = (Inr L', quiet (tr @ map ToGuard ws))
    \<and> peel_all S 3 g ws = Some (map Forward vs, g') \<and> peel_all S 2 m vs = Some (map Forward us, m')
    \<and> peel_all S 1 x us = Some (map (\<lambda>c. ToMe (data_cell c)) cs, x') \<and> onion_linked link i j L' g' m' x'"
  using lk cs
proof (induction cs arbitrary: L g m x tr)
  case Nil
  then show ?case by (intro exI [of _ "[]"]) (simp add: lift_def)
next
  case (Cons c cs)
  have wf: "wf_cell (data_cell c)" and new: "cell_new Data c = Inr (data_cell c)"
    using Cons.prems(2) by (simp_all add: wf_cell_def cell_new_def)
  have "onion_linked link (Suc (i + length cs)) j L g m x" using Cons.prems(1) by simp
  with laws obtain w v u L1 g1 m1 x1 where one: "seal_for_exit S L (data_cell c) = (Inr w, L1)"
    "peel S g w 3 = (Inr (Forward v), g1)" "peel S m v 2 = (Inr (Forward u), m1)"
    "peel S x u 1 = (Inr (ToMe (data_cell c)), x1)" and lk1: "onion_linked link (i + length cs) j L1 g1 m1 x1"
    using wf by (rule seal_for_exit_hops)
  have "list_all (\<lambda>c. length c \<le> CELL_PAYLOAD_LEN) cs" using Cons.prems(2) by simp
  from Cons.IH [OF lk1 this, of "tr @ [ToGuard w]"] obtain ws vs us L' g' m' x' where
    ih: "send_user_chunks S L1 cs (quiet (tr @ [ToGuard w])) = (Inr L', quiet ((tr @ [ToGuard w]) @ map ToGuard ws))"
    "peel_all S 3 g1 ws = Some (map Forward vs, g')" "peel_all S 2 m1 vs = Some (map Forward us, m')"
    "peel_all S 1 x1 us = Some (map (\<lambda>c. ToMe (data_cell c)) cs, x')" "onion_linked link i j L' g' m' x'" by blast
  have "send_user_chunks S L (c # cs) (quiet tr) = (Inr L', quiet (tr @ map ToGuard (w # ws)))"
    using one(1) ih(1) new by (simp add: bind_def lift_def)
  moreover have "peel_all S 3 g (w # ws) = Some (map Forward (v # vs), g')" "peel_all S 2 m (v # vs) = Some (map Forward (u # us), m')"
    "peel_all S 1 x (u # us) = Some (map (\<lambda>c. ToMe (data_cell c)) (c # cs), x')"
    using one ih by simp_all
  ultimately show ?case using ih(5) by blast
qed

lemma send_chunks_hops:
  assumes laws: "transport_laws S link" and lk: "onion_linked link i (j + length cs) L g m x"
    and cs: "list_all (\<lambda>c. length c \<le> CELL_PAYLOAD_LEN) cs"
  shows "\<exists>us vs ws L' g' m' x'. send_chunks S x 1 cs (quiet tr) = (Inr x', quiet (tr @ map ToPeer us))
    \<and> seal_forward_all S 2 m us = Some (vs, m') \<and> seal_forward_all S 3 g vs = Some (ws, g')
    \<and> peel_inbound_all S L ws = Some (map data_cell cs, L') \<and> onion_linked link i j L' g' m' x'
    \<and> list_all (\<lambda>f. length f = 530) us \<and> list_all (\<lambda>f. length f = 547) vs \<and> list_all (\<lambda>f. length f = 564) ws"
  using lk cs
proof (induction cs arbitrary: L g m x tr)
  case Nil
  then show ?case by (intro exI [of _ "[]"]) (simp add: lift_def)
next
  case (Cons c cs)
  have wf: "wf_cell (data_cell c)" and new: "cell_new Data c = Inr (data_cell c)"
    using Cons.prems(2) by (simp_all add: wf_cell_def cell_new_def)
  have "onion_linked link i (Suc (j + length cs)) L g m x" using Cons.prems(1) by simp
  with laws obtain u v w L1 g1 m1 x1 where one: "seal_to_me S x (data_cell c) 1 = (Inr u, x1)"
    "seal_forward S m u 2 = (Inr v, m1)" "seal_forward S g v 3 = (Inr w, g1)" "peel_inbound S L w = (Inr (data_cell c), L1)"
    and lk1: "onion_linked link i (j + length cs) L1 g1 m1 x1" and len: "length u = 530" "length v = 547" "length w = 564"
    using wf by (rule seal_back_hops)
  have "list_all (\<lambda>c. length c \<le> CELL_PAYLOAD_LEN) cs" using Cons.prems(2) by simp
  from Cons.IH [OF lk1 this, of "tr @ [ToPeer u]"] obtain us vs ws L' g' m' x' where
    ih: "send_chunks S x1 1 cs (quiet (tr @ [ToPeer u])) = (Inr x', quiet ((tr @ [ToPeer u]) @ map ToPeer us))"
    "seal_forward_all S 2 m1 us = Some (vs, m')" "seal_forward_all S 3 g1 vs = Some (ws, g')"
    "peel_inbound_all S L1 ws = Some (map data_cell cs, L')" "onion_linked link i j L' g' m' x'"
    "list_all (\<lambda>f. length f = 530) us" "list_all (\<lambda>f. length f = 547) vs" "list_all (\<lambda>f. length f = 564) ws" by blast
  have "send_to_me S x 1 Data c (quiet tr) = (Inr x1, quiet (tr @ [ToPeer u]))"
    using one(1) new by (simp add: send_to_me_def bind_def lift_def)
  then have "send_chunks S x 1 (c # cs) (quiet tr) = (Inr x', quiet (tr @ map ToPeer (u # us)))"
    using ih(1) by (simp add: bind_def)
  moreover have "seal_forward_all S 2 m (u # us) = Some (v # vs, m')" "seal_forward_all S 3 g (v # vs) = Some (w # ws, g')"
    "peel_inbound_all S L (w # ws) = Some (map data_cell (c # cs), L')"
    using one ih by simp_all
  moreover have "list_all (\<lambda>f. length f = 530) (u # us)" "list_all (\<lambda>f. length f = 547) (v # vs)"
    "list_all (\<lambda>f. length f = 564) (w # ws)"
    using ih len by simp_all
  ultimately show ?case using ih(5) by blast
qed

section \<open>The relays of the circuit\<close>

text \<open>Frames that arrive one by one on a stream of a relay, each followed by a turn.\<close>

definition feed :: "source \<Rightarrow> turn_env \<Rightarrow> bytes list \<Rightarrow> loop_event list" where
  "feed src W fs = concat (map (\<lambda>f. [Arrives src (Chunk f), Turn W]) fs)"

lemma feed_simps [simp]: "feed src W [] = []" "feed src W (f # fs) = Arrives src (Chunk f) # Turn W # feed src W fs"
  by (simp_all add: feed_def)

lemma peel_Inr_length: "peel S t w n = (Inr p, t') \<Longrightarrow> length w = link_cell_len n"
  using peel_wrong_size [of w n S t] by fastforce

lemma deliver_peer_turn:
  assumes "ls_inbound ls = reader_new [] (inbound_len rl)" "length w = inbound_len rl"
  shows "relay_turn S ctx rl W (deliver ls FromPeer (Chunk w)) = on_inbound S W ctx rl ls w"
proof -
  have d: "deliver ls FromPeer (Chunk w) = ls\<lparr>ls_inbound := reader_new [Chunk w] (inbound_len rl)\<rparr>"
    using assms(1) by (simp add: reader_new_def)
  have same: "ls\<lparr>ls_inbound := reader_new [] (inbound_len rl)\<rparr> = ls" using assms(1) by (cases ls) simp
  show ?thesis unfolding d
    using assms(2) by (simp add: relay_turn_def reader_next_whole same)
qed

lemma relay_forwards:
  assumes "ls_inbound ls = reader_new [] (inbound_len rl)" "ls_next ls \<noteq> None"
    and "peel_all S (inbound_layers rl) (ls_transport ls) ws = Some (map Forward vs, t')"
  shows "run_loop S ctx rl (feed FromPeer W ws) ls (quiet tr) = (None, quiet (tr @ map ToNext vs))"
  using assms
proof (induction ws arbitrary: ls vs tr)
  case (Cons w ws)
  obtain v vs' t1 where v: "vs = v # vs'" "peel S (ls_transport ls) w (inbound_layers rl) = (Inr (Forward v), t1)"
    "peel_all S (inbound_layers rl) t1 ws = Some (map Forward vs', t')"
    using Cons.prems(3) by (auto split: prod.splits sum.splits simp: map_eq_Cons_conv Cons_eq_map_conv)
  have "length w = inbound_len rl" using peel_Inr_length [OF v(2)] by (simp add: inbound_len_def)
  from deliver_peer_turn [OF Cons.prems(1) this, of S ctx W]
  have "relay_turn S ctx rl W (deliver ls FromPeer (Chunk w)) (quiet tr)
      = (Inr (Again (ls\<lparr>ls_transport := t1\<rparr>)), quiet (tr @ [ToNext v]))"
    using v(2) Cons.prems(2) by (simp add: on_inbound_def bind_def lift_def)
  moreover have "run_loop S ctx rl (feed FromPeer W ws) (ls\<lparr>ls_transport := t1\<rparr>) (quiet (tr @ [ToNext v]))
      = (None, quiet ((tr @ [ToNext v]) @ map ToNext vs'))"
    using Cons.prems v by (intro Cons.IH) simp_all
  ultimately show ?case using v(1) by simp
qed simp

lemma exit_delivers:
  assumes "ls_inbound ls = reader_new [] (inbound_len Exit)" "ls_dest ls \<noteq> None" "[] \<notin> set cs"
    and "peel_all S 1 (ls_transport ls) us = Some (map (\<lambda>c. ToMe (data_cell c)) cs, t')"
  shows "run_loop S ctx Exit (feed FromPeer W us) ls (quiet tr) = (None, quiet (tr @ map ToDest cs))"
  using assms
proof (induction us arbitrary: ls cs tr)
  case (Cons u us)
  obtain c cs' t1 where c: "cs = c # cs'" "peel S (ls_transport ls) u 1 = (Inr (ToMe (data_cell c)), t1)"
    "peel_all S 1 t1 us = Some (map (\<lambda>c. ToMe (data_cell c)) cs', t')"
    using Cons.prems(4) by (auto split: prod.splits sum.splits simp: map_eq_Cons_conv Cons_eq_map_conv)
  have nonempty: "c \<noteq> []" using c(1) Cons.prems(3) by auto
  have "length u = inbound_len Exit" using peel_Inr_length [OF c(2)] by (simp add: inbound_len_def)
  from deliver_peer_turn [OF Cons.prems(1) this, of S ctx W]
  have "relay_turn S ctx Exit W (deliver ls FromPeer (Chunk u)) (quiet tr)
      = (Inr (Again (ls\<lparr>ls_transport := t1\<rparr>)), quiet (tr @ [ToDest c]))"
    using c(2) Cons.prems(2) nonempty by (simp add: on_inbound_def on_cell_def on_data_def bind_def lift_def)
  moreover have "run_loop S ctx Exit (feed FromPeer W us) (ls\<lparr>ls_transport := t1\<rparr>) (quiet (tr @ [ToDest c]))
      = (None, quiet ((tr @ [ToDest c]) @ map ToDest cs'))"
    using Cons.prems c by (intro Cons.IH) simp_all
  ultimately show ?case using c(1) by simp
qed simp

text \<open>Toward the client: a relay wraps each frame of its next link.\<close>

lemma deliver_next_turn:
  assumes "ls_inbound ls = reader_new [] (inbound_len rl)" "ls_next ls = Some \<lparr>nl_read = reader_new [] n, nl_msg2 = m2\<rparr>"
    and "length w = n" "0 < n" "\<not> te_elapsed W"
  shows "relay_turn S ctx rl W (deliver ls FromNext (Chunk w)) = on_next S rl ls w"
proof -
  have d: "deliver ls FromNext (Chunk w) = ls\<lparr>ls_next := Some \<lparr>nl_read = reader_new [Chunk w] n, nl_msg2 = m2\<rparr>\<rparr>"
    using assms(2) by (simp add: reader_new_def)
  have same: "ls\<lparr>ls_inbound := reader_new [] (inbound_len rl), ls_next := Some \<lparr>nl_read = reader_new [] n, nl_msg2 = m2\<rparr>\<rparr> = ls"
    using assms(1,2) by (cases ls) simp
  show ?thesis unfolding d
    using assms(1,3-5) by (simp add: relay_turn_def reader_next_idle poll_next_def reader_next_whole same)
qed

lemma relay_wraps:
  assumes "ls_inbound ls = reader_new [] (inbound_len rl)" "ls_next ls = Some \<lparr>nl_read = reader_new [] n, nl_msg2 = m2\<rparr>"
    and "0 < n" "list_all (\<lambda>f. length f = n) us" "\<not> te_elapsed W"
    and "seal_forward_all S (inbound_layers rl) (ls_transport ls) us = Some (vs, t')"
  shows "run_loop S ctx rl (feed FromNext W us) ls (quiet tr) = (None, quiet (tr @ map ToPeer vs))"
  using assms
proof (induction us arbitrary: ls vs tr)
  case (Cons u us)
  obtain v vs' t1 where v: "vs = v # vs'" "seal_forward S (ls_transport ls) u (inbound_layers rl) = (Inr v, t1)"
    "seal_forward_all S (inbound_layers rl) t1 us = Some (vs', t')"
    using Cons.prems(6) by (auto split: prod.splits sum.splits)
  have "length u = n" using Cons.prems(4) by simp
  from deliver_next_turn [OF Cons.prems(1,2) this Cons.prems(3,5), of S ctx]
  have "relay_turn S ctx rl W (deliver ls FromNext (Chunk u)) (quiet tr)
      = (Inr (Again (ls\<lparr>ls_transport := t1\<rparr>)), quiet (tr @ [ToPeer v]))"
    using v(2) by (simp add: on_next_def bind_def lift_def)
  moreover have "run_loop S ctx rl (feed FromNext W us) (ls\<lparr>ls_transport := t1\<rparr>) (quiet (tr @ [ToPeer v]))
      = (None, quiet ((tr @ [ToPeer v]) @ map ToPeer vs'))"
    using Cons.prems v by (intro Cons.IH) simp_all
  ultimately show ?case using v(1) by simp
qed simp

section \<open>The client's end\<close>

definition guard_feed :: "bytes list \<Rightarrow> task_event list" where
  "guard_feed ws = concat (map (\<lambda>w. [GuardSends (Chunk w), FrameTurn]) ws)"

lemma guard_feed_simps [simp]: "guard_feed [] = []" "guard_feed (w # ws) = GuardSends (Chunk w) # FrameTurn # guard_feed ws"
  by (simp_all add: guard_feed_def)

lemma client_receives:
  assumes "ct_inbound c = reader_new [] 564" "list_all (\<lambda>w. length w = 564) ws" "[] \<notin> set cs"
    and "peel_inbound_all S (ct_layers c) ws = Some (map data_cell cs, L')"
  shows "\<exists>c'. circuit_task S (guard_feed ws) c (quiet tr) = (Some c', quiet (tr @ map ToUser cs))"
  using assms
proof (induction ws arbitrary: c cs tr)
  case (Cons w ws)
  obtain b cs' L1 where b: "cs = b # cs'" "peel_inbound S (ct_layers c) w = (Inr (data_cell b), L1)"
    "peel_inbound_all S L1 ws = Some (map data_cell cs', L')"
    using Cons.prems(4) by (auto split: prod.splits sum.splits simp: map_eq_Cons_conv Cons_eq_map_conv)
  have nonempty: "b \<noteq> []" using b(1) Cons.prems(3) by auto
  let ?c = "c\<lparr>ct_inbound := reader_new [] 564, ct_layers := L1\<rparr>"
  have "c\<lparr>ct_inbound := (ct_inbound c)\<lparr>fr_inner := fr_inner (ct_inbound c) @ [Chunk w]\<rparr>\<rparr> = c\<lparr>ct_inbound := reader_new [Chunk w] 564\<rparr>"
    using Cons.prems(1) by (simp add: reader_new_def)
  moreover have "frame_turn S (c\<lparr>ct_inbound := reader_new [Chunk w] 564\<rparr>) (quiet tr) = (Inr ?c, quiet (tr @ [ToUser b]))"
    using Cons.prems(2) b(2) nonempty by (simp add: frame_turn_def reader_next_whole bind_def lift_def)
  moreover have "\<exists>c'. circuit_task S (guard_feed ws) ?c (quiet (tr @ [ToUser b])) = (Some c', quiet ((tr @ [ToUser b]) @ map ToUser cs'))"
    using Cons.prems b by (intro Cons.IH) simp_all
  ultimately show ?case using b(1) by simp
qed simp

text \<open>A circuit at rest: nothing buffered anywhere and every onward connection open.\<close>

definition idle_circuit :: "(nat \<Rightarrow> nat \<Rightarrow> 't \<Rightarrow> 't \<Rightarrow> bool) \<Rightarrow> nat \<Rightarrow> nat \<Rightarrow> 't circuit_task_state \<Rightarrow>
    't loop_state \<Rightarrow> 't loop_state \<Rightarrow> 't loop_state \<Rightarrow> bool" where
  "idle_circuit link i j c G M X \<longleftrightarrow>
     onion_linked link i j (ct_layers c) (ls_transport G) (ls_transport M) (ls_transport X)
     \<and> ct_inbound c = reader_new [] 564
     \<and> ls_inbound G = reader_new [] 564 \<and> (\<exists>m2. ls_next G = Some \<lparr>nl_read = reader_new [] 547, nl_msg2 = m2\<rparr>)
     \<and> ls_inbound M = reader_new [] 547 \<and> (\<exists>m2. ls_next M = Some \<lparr>nl_read = reader_new [] 530, nl_msg2 = m2\<rparr>)
     \<and> ls_inbound X = reader_new [] 530 \<and> ls_next X = None \<and> ls_dest X \<noteq> None"

lemma chunks_payloads: "list_all (\<lambda>c. length c \<le> CELL_PAYLOAD_LEN) (chunks CELL_PAYLOAD_LEN bs)" "[] \<notin> set (chunks CELL_PAYLOAD_LEN bs)"
  using chunks_bounds [of _ CELL_PAYLOAD_LEN bs] by (auto simp: list_all_iff)

lemma user_turn_quiet:
  assumes "ct_user c = [Chunk bs]" "bs \<noteq> []" "length bs \<le> USER_READ_BUF"
    and "send_user_chunks S (ct_layers c) (chunks CELL_PAYLOAD_LEN bs) (quiet tr) = (Inr L, quiet tr')"
  shows "user_turn S c (quiet tr) = (Inr (c\<lparr>ct_layers := L, ct_user := []\<rparr>), quiet tr')"
  using assms by (simp add: user_turn_def bind_def lift_def)

lemma dest_turn_quiet:
  assumes "ls_inbound X = reader_new [] 530" "ls_next X = None" "ls_dest X = Some [Chunk bs]" "bs \<noteq> []" "length bs \<le> DEST_READ_BUF"
    and "\<not> te_elapsed W" "send_chunks S (ls_transport X) 1 (chunks CELL_PAYLOAD_LEN bs) (quiet tr) = (Inr t, quiet tr')"
  shows "\<exists>X'. relay_turn S ctx Exit W X (quiet tr) = (Inr (Again X'), quiet tr')"
  using assms by (simp add: relay_turn_def reader_next_idle poll_next_def poll_dest_def on_dest_def bind_def lift_def)

section \<open>Extending a circuit\<close>

lemma entry_addr_wf:
  assumes "entry_addr e = Inr addr" "length msg1 = NOISE_MSG_LEN"
  shows "wf_extend \<lparr>next_hop = addr, noise_msg1 = msg1\<rparr>"
proof -
  obtain ip where "parse_ip (relay_ip e) = Some ip" "addr = sock_new (to_canonical ip) (relay_port e)"
    using assms(1) by (auto simp: entry_addr_def ip_addr_def canonical_ip_def result_simps split: if_splits)
  with assms(2) parse_ip_wf [of "relay_ip e" ip] show ?thesis
    by (simp add: wf_extend_def)
qed

text \<open>
  What a turn needs so that a relay can reach the next hop: the usable registry names it
  downstream, the connect and the TLS handshake succeed, and the hop's answer arrives in time.
\<close>

definition hop_reachable :: "turn_env \<Rightarrow> RelayConfig \<Rightarrow> SocketAddr \<Rightarrow> RelayEntry \<Rightarrow> bytes \<Rightarrow> bool" where
  "hop_reachable W cfg addr e msg2 \<longleftrightarrow>
     (\<exists>v. handle_usable (te_handle W) (te_now W) = Some v \<and> extend_target v (cfg_role cfg) addr = Some e)
     \<and> net_tcp_connect (te_net W) addr = None \<and> net_nodelay (te_net W) addr = None
     \<and> net_server_name (te_net W) (tls_name e) \<and> net_tls (te_net W) addr (tls_name e) = Inr [Chunk msg2]"

definition opening_actions :: "SocketAddr \<Rightarrow> RelayEntry \<Rightarrow> bytes \<Rightarrow> action list" where
  "opening_actions addr e msg1 =
     [DialTcp addr, TlsHello addr (tls_name e), ToNext [PROTO_RELAY], ToNext [CIRCUIT_START], ToNext msg1]"

lemma open_next_link_reachable:
  assumes "hop_reachable W cfg addr e msg2" "length msg2 = NOISE_MSG_LEN"
  shows "open_next_link W cfg \<lparr>next_hop = addr, noise_msg1 = msg1\<rparr> out (quiet tr) =
    (Inr \<lparr>nl_read = reader_new [] out, nl_msg2 = msg2\<rparr>, quiet (tr @ opening_actions addr e msg1))"
proof -
  have "read_exact NOISE_MSG_LEN [Chunk msg2] = (Ready msg2, [])"
    using read_exact_chunk [of msg2 NOISE_MSG_LEN "[]" "[]"] assms(2) by (simp add: NOISE_MSG_LEN_def)
  with assms(1) show ?thesis
    unfolding hop_reachable_def opening_actions_def
    using open_next_link_quiet [of W _ cfg "\<lparr>next_hop = addr, noise_msg1 = msg1\<rparr>" e "[Chunk msg2]" msg2 "[]" out tr] by auto
qed

lemma relay_extends:
  assumes "ls_inbound ls = reader_new [] (inbound_len rl)" "ls_next ls = None" "outbound_len rl = Some out"
    and "peel S (ls_transport ls) w (inbound_layers rl) = (Inr (ToMe \<lparr>cell_type = Extend, payload = extend_encode ext\<rparr>), t1)"
    and "wf_extend ext" "hop_reachable W (cc_cfg ctx) (next_hop ext) e msg2" "length msg2 = NOISE_MSG_LEN"
    and "seal_to_me S t1 \<lparr>cell_type = Extend, payload = msg2\<rparr> (inbound_layers rl) = (Inr reply, t2)"
  shows "relay_turn S ctx rl W (deliver ls FromPeer (Chunk w)) (quiet tr) =
    (Inr (Again (ls\<lparr>ls_transport := t2, ls_next := Some \<lparr>nl_read = reader_new [] out, nl_msg2 = msg2\<rparr>\<rparr>)),
     quiet (tr @ opening_actions (next_hop ext) e (noise_msg1 ext) @ [ToPeer reply]))"
proof -
  have len: "length w = inbound_len rl" using peel_Inr_length [OF assms(4)] by (simp add: inbound_len_def)
  have dec: "extend_decode (extend_encode ext) = Inr ext" using assms(5) by (rule extend_decode_encode)
  have "open_next_link W (cc_cfg ctx) ext out (quiet tr) =
    (Inr \<lparr>nl_read = reader_new [] out, nl_msg2 = msg2\<rparr>, quiet (tr @ opening_actions (next_hop ext) e (noise_msg1 ext)))"
    using open_next_link_reachable [OF assms(6,7), of "noise_msg1 ext" out tr] by (cases ext) simp
  moreover have "send_to_me S t1 (inbound_layers rl) Extend msg2 (quiet tr') = (Inr t2, quiet (tr' @ [ToPeer reply]))" for tr'
    using assms(7,8) by (simp add: send_to_me_def cell_new_def bind_def lift_def wire_defs)
  moreover have "rl = Guard \<or> rl = Middle" using assms(3) by (cases rl) (simp_all add: outbound_len_def)
  ultimately show ?thesis
    unfolding deliver_peer_turn [OF assms(1) len]
    using assms(2-4) dec
    by (auto simp: on_inbound_def on_cell_def on_extend_def extend_backward_payload_def bind_def lift_def)
qed

text \<open>The handshake that an EXTEND carries, and the session it leaves.\<close>

lemma extend_handshake:
  assumes "handshake_laws S matches link" "matches priv pub" "entry_addr nxt = Inr addr"
  obtains init msg1 hop_tx msg2 t where "initiator_start S seed pub = Inr (init, msg1)"
    "respond S seed' priv msg1 = Inr (hop_tx, msg2)" "initiator_finish S init msg2 = Inr t"
    "\<forall>a b. a \<le> 2 ^ 63 \<longrightarrow> b \<le> 2 ^ 63 \<longrightarrow> link a b t hop_tx" "length msg2 = NOISE_MSG_LEN"
    "wf_extend \<lparr>next_hop = addr, noise_msg1 = msg1\<rparr>"
    "cell_new Extend (extend_encode \<lparr>next_hop = addr, noise_msg1 = msg1\<rparr>)
      = Inr \<lparr>cell_type = Extend, payload = extend_encode \<lparr>next_hop = addr, noise_msg1 = msg1\<rparr>\<rparr>"
    "wf_cell \<lparr>cell_type = Extend, payload = extend_encode \<lparr>next_hop = addr, noise_msg1 = msg1\<rparr>\<rparr>"
    "wf_cell \<lparr>cell_type = Extend, payload = msg2\<rparr>"
proof -
  obtain init msg1 hop_tx msg2 t where hand: "initiator_start S seed pub = Inr (init, msg1)"
    "respond S seed' priv msg1 = Inr (hop_tx, msg2)" "initiator_finish S init msg2 = Inr t"
    "\<forall>a b. a \<le> 2 ^ 63 \<longrightarrow> b \<le> 2 ^ 63 \<longrightarrow> link a b t hop_tx"
    using handshake_completes [OF assms(1,2), of seed seed'] by blast
  have len: "length msg1 = NOISE_MSG_LEN" "length msg2 = NOISE_MSG_LEN"
    using initiator_start_length [OF hand(1)] respond_length [OF hand(2)] by simp_all
  have wf: "wf_extend \<lparr>next_hop = addr, noise_msg1 = msg1\<rparr>" using assms(3) len(1) by (rule entry_addr_wf)
  then have "length (extend_encode \<lparr>next_hop = addr, noise_msg1 = msg1\<rparr>) = EXTEND_FORWARD_LEN"
    by (intro length_extend_encode) (simp_all add: wf_extend_def)
  then have "cell_new Extend (extend_encode \<lparr>next_hop = addr, noise_msg1 = msg1\<rparr>)
      = Inr \<lparr>cell_type = Extend, payload = extend_encode \<lparr>next_hop = addr, noise_msg1 = msg1\<rparr>\<rparr>"
    "wf_cell \<lparr>cell_type = Extend, payload = extend_encode \<lparr>next_hop = addr, noise_msg1 = msg1\<rparr>\<rparr>"
    by (simp_all add: cell_new_def wf_cell_def wire_defs)
  moreover have "wf_cell \<lparr>cell_type = Extend, payload = msg2\<rparr>" using len(2) by (simp add: wf_cell_def wire_defs)
  ultimately show thesis using hand wf len(2) by (intro that) blast+
qed

lemma extend_via_guard:
  assumes laws: "transport_laws S link" and hs: "handshake_laws S matches link"
    and lg: "link (Suc i) (Suc j) g (ls_transport G)" and key: "static_key nxt = Inr pub" "matches priv pub"
    and addr: "entry_addr nxt = Inr addr" and idle: "ls_inbound G = reader_new [] 564" "ls_next G = None"
  obtains init wire g1 msg1 hop_tx msg2 reply t g2 tg2 where
    "extend_request S seed g None nxt = Inr (init, wire, g1, None)" "respond S seed' priv msg1 = Inr (hop_tx, msg2)"
    "\<And>W ctx e tr. hop_reachable W (cc_cfg ctx) addr e msg2 \<Longrightarrow>
       relay_turn S ctx Guard W (deliver G FromPeer (Chunk wire)) (quiet tr) =
         (Inr (Again (G\<lparr>ls_transport := tg2, ls_next := Some \<lparr>nl_read = reader_new [] 547, nl_msg2 = msg2\<rparr>\<rparr>)),
          quiet (tr @ opening_actions addr e msg1 @ [ToPeer reply]))"
    "extend_reply S init g1 None reply = Inr (t, g2, None)"
    "\<forall>a b. a \<le> 2 ^ 63 \<longrightarrow> b \<le> 2 ^ 63 \<longrightarrow> link a b t hop_tx" "link i j g2 tg2" "length reply = 564"
proof -
  obtain init msg1 hop_tx msg2 t where hand: "initiator_start S seed pub = Inr (init, msg1)"
    "respond S seed' priv msg1 = Inr (hop_tx, msg2)" "initiator_finish S init msg2 = Inr t"
    "\<forall>a b. a \<le> 2 ^ 63 \<longrightarrow> b \<le> 2 ^ 63 \<longrightarrow> link a b t hop_tx" and len: "length msg2 = NOISE_MSG_LEN"
    and wf: "wf_extend \<lparr>next_hop = addr, noise_msg1 = msg1\<rparr>"
    and new: "cell_new Extend (extend_encode \<lparr>next_hop = addr, noise_msg1 = msg1\<rparr>)
      = Inr \<lparr>cell_type = Extend, payload = extend_encode \<lparr>next_hop = addr, noise_msg1 = msg1\<rparr>\<rparr>"
    and cell: "wf_cell \<lparr>cell_type = Extend, payload = extend_encode \<lparr>next_hop = addr, noise_msg1 = msg1\<rparr>\<rparr>"
    and wfb: "wf_cell \<lparr>cell_type = Extend, payload = msg2\<rparr>"
    using hs key(2) addr by (rule extend_handshake [where seed = seed and seed' = seed'])
  let ?ext = "\<lparr>next_hop = addr, noise_msg1 = msg1\<rparr>"
  let ?cell = "\<lparr>cell_type = Extend, payload = extend_encode ?ext\<rparr>"
  let ?ret = "\<lparr>cell_type = Extend, payload = msg2\<rparr>"
  obtain wire g1 tg1 where fwd: "seal_to_me S g ?cell 3 = (Inr wire, g1)" "length wire = link_cell_len 3"
    "peel S (ls_transport G) wire 3 = (Inr (ToMe ?cell), tg1)" "link i (Suc j) g1 tg1"
    using seal_to_me_peel [OF laws lg cell, of 3] by auto
  obtain reply tg2 g2 where bwd: "seal_to_me S tg1 ?ret 3 = (Inr reply, tg2)" "length reply = link_cell_len 3"
    "peel S g1 reply 3 = (Inr (ToMe ?ret), g2)" "link j i tg2 g2"
    using seal_to_me_peel [OF laws transport_laws_sym [OF laws fwd(4)] wfb, of 3] by auto
  show thesis
  proof (rule that [where init = init and wire = wire and reply = reply])
    show "extend_request S seed g None nxt = Inr (init, wire, g1, None)"
      using key(1) hand(1) addr new fwd(1) by (simp add: extend_request_def CLIENT_LAYERS_def)
    show "extend_reply S init g1 None reply = Inr (t, g2, None)"
      using bwd hand(3) len by (simp add: extend_reply_def CLIENT_LAYERS_def parse_extend_backward_def)
    show "relay_turn S ctx Guard W (deliver G FromPeer (Chunk wire)) (quiet tr) =
         (Inr (Again (G\<lparr>ls_transport := tg2, ls_next := Some \<lparr>nl_read = reader_new [] 547, nl_msg2 = msg2\<rparr>\<rparr>)),
          quiet (tr @ opening_actions addr e msg1 @ [ToPeer reply]))" if "hop_reachable W (cc_cfg ctx) addr e msg2" for W ctx e tr
      using relay_extends [of G Guard 547 S wire ?ext tg1 W ctx e msg2 reply tg2 tr] idle fwd(3) bwd(1) wf that len
      by (simp add: inbound_len_sizes outbound_len_def link_cell_lens)
    show "link i j g2 tg2" using laws bwd(4) by (rule transport_laws_sym)
    show "length reply = 564" using bwd(2) by (simp add: link_cell_lens)
  qed (use hand in auto)
qed

lemma extend_via_middle:
  assumes laws: "transport_laws S link" and hs: "handshake_laws S matches link"
    and lg: "link (Suc i) (Suc j) g (ls_transport G)" and lm: "link (Suc k) (Suc l) m (ls_transport M)"
    and key: "static_key nxt = Inr pub" "matches priv pub" and addr: "entry_addr nxt = Inr addr"
    and idle: "ls_inbound G = reader_new [] 564" "ls_next G = Some \<lparr>nl_read = reader_new [] 547, nl_msg2 = n2\<rparr>"
      "ls_inbound M = reader_new [] 547" "ls_next M = None"
  obtains init wire g1 m1 inner tg1 msg1 hop_tx msg2 rm reply t g2 m2 tg2 tm2 where
    "extend_request S seed g (Some m) nxt = Inr (init, wire, g1, Some m1)" "respond S seed' priv msg1 = Inr (hop_tx, msg2)"
    "\<And>W ctx tr. relay_turn S ctx Guard W (deliver G FromPeer (Chunk wire)) (quiet tr) =
       (Inr (Again (G\<lparr>ls_transport := tg1\<rparr>)), quiet (tr @ [ToNext inner]))"
    "\<And>W ctx e tr. hop_reachable W (cc_cfg ctx) addr e msg2 \<Longrightarrow>
       relay_turn S ctx Middle W (deliver M FromPeer (Chunk inner)) (quiet tr) =
         (Inr (Again (M\<lparr>ls_transport := tm2, ls_next := Some \<lparr>nl_read = reader_new [] 530, nl_msg2 = msg2\<rparr>\<rparr>)),
          quiet (tr @ opening_actions addr e msg1 @ [ToPeer rm]))"
    "\<And>W ctx tr. \<not> te_elapsed W \<Longrightarrow> relay_turn S ctx Guard W (deliver (G\<lparr>ls_transport := tg1\<rparr>) FromNext (Chunk rm)) (quiet tr) =
       (Inr (Again (G\<lparr>ls_transport := tg2\<rparr>)), quiet (tr @ [ToPeer reply]))"
    "extend_reply S init g1 (Some m1) reply = Inr (t, g2, Some m2)"
    "\<forall>a b. a \<le> 2 ^ 63 \<longrightarrow> b \<le> 2 ^ 63 \<longrightarrow> link a b t hop_tx" "link i j g2 tg2" "link k l m2 tm2" "length reply = 564"
proof -
  obtain init msg1 hop_tx msg2 t where hand: "initiator_start S seed pub = Inr (init, msg1)"
    "respond S seed' priv msg1 = Inr (hop_tx, msg2)" "initiator_finish S init msg2 = Inr t"
    "\<forall>a b. a \<le> 2 ^ 63 \<longrightarrow> b \<le> 2 ^ 63 \<longrightarrow> link a b t hop_tx" and len: "length msg2 = NOISE_MSG_LEN"
    and wf: "wf_extend \<lparr>next_hop = addr, noise_msg1 = msg1\<rparr>"
    and new: "cell_new Extend (extend_encode \<lparr>next_hop = addr, noise_msg1 = msg1\<rparr>)
      = Inr \<lparr>cell_type = Extend, payload = extend_encode \<lparr>next_hop = addr, noise_msg1 = msg1\<rparr>\<rparr>"
    and cell: "wf_cell \<lparr>cell_type = Extend, payload = extend_encode \<lparr>next_hop = addr, noise_msg1 = msg1\<rparr>\<rparr>"
    and wfb: "wf_cell \<lparr>cell_type = Extend, payload = msg2\<rparr>"
    using hs key(2) addr by (rule extend_handshake [where seed = seed and seed' = seed'])
  let ?ext = "\<lparr>next_hop = addr, noise_msg1 = msg1\<rparr>"
  let ?cell = "\<lparr>cell_type = Extend, payload = extend_encode ?ext\<rparr>"
  let ?ret = "\<lparr>cell_type = Extend, payload = msg2\<rparr>"
  obtain inner m1 tm1 where mid: "seal_to_me S m ?cell 2 = (Inr inner, m1)" "length inner = link_cell_len 2"
    "peel S (ls_transport M) inner 2 = (Inr (ToMe ?cell), tm1)" "link k (Suc l) m1 tm1"
    using seal_to_me_peel [OF laws lm cell, of 2] by auto
  obtain wire g1 tg1 where fwd: "seal_forward S g inner 3 = (Inr wire, g1)" "length wire = link_cell_len 3"
    "peel S (ls_transport G) wire 3 = (Inr (Forward inner), tg1)" "link i (Suc j) g1 tg1"
    using seal_forward_peel [OF laws lg, of inner 3] mid(2) by auto
  obtain rm tm2 m2 where bm: "seal_to_me S tm1 ?ret 2 = (Inr rm, tm2)" "length rm = link_cell_len 2"
    "peel S m1 rm 2 = (Inr (ToMe ?ret), m2)" "link l k tm2 m2"
    using seal_to_me_peel [OF laws transport_laws_sym [OF laws mid(4)] wfb, of 2] by auto
  obtain reply tg2 g2 where bg: "seal_forward S tg1 rm 3 = (Inr reply, tg2)" "length reply = link_cell_len 3"
    "peel S g1 reply 3 = (Inr (Forward rm), g2)" "link j i tg2 g2"
    using seal_forward_peel [OF laws transport_laws_sym [OF laws fwd(4)], of rm 3] bm(2) by auto
  show thesis
  proof (rule that [where init = init and wire = wire and inner = inner and rm = rm and reply = reply])
    show "extend_request S seed g (Some m) nxt = Inr (init, wire, g1, Some m1)"
      using key(1) hand(1) addr new mid(1) fwd(1) by (simp add: extend_request_def CLIENT_LAYERS_def)
    show "extend_reply S init g1 (Some m1) reply = Inr (t, g2, Some m2)"
      using bg bm hand(3) len by (simp add: extend_reply_def CLIENT_LAYERS_def parse_extend_backward_def)
    show "relay_turn S ctx Guard W (deliver G FromPeer (Chunk wire)) (quiet tr) =
       (Inr (Again (G\<lparr>ls_transport := tg1\<rparr>)), quiet (tr @ [ToNext inner]))" for W ctx tr
      using deliver_peer_turn [of G Guard wire S ctx W] idle(1,2) fwd
      by (simp add: inbound_len_sizes link_cell_lens on_inbound_def bind_def lift_def)
    show "relay_turn S ctx Middle W (deliver M FromPeer (Chunk inner)) (quiet tr) =
         (Inr (Again (M\<lparr>ls_transport := tm2, ls_next := Some \<lparr>nl_read = reader_new [] 530, nl_msg2 = msg2\<rparr>\<rparr>)),
          quiet (tr @ opening_actions addr e msg1 @ [ToPeer rm]))" if "hop_reachable W (cc_cfg ctx) addr e msg2" for W ctx e tr
      using relay_extends [of M Middle 530 S inner ?ext tm1 W ctx e msg2 rm tm2 tr] idle(3,4) mid(3) bm(1) wf that len
      by (simp add: inbound_len_sizes outbound_len_def link_cell_lens)
    show "relay_turn S ctx Guard W (deliver (G\<lparr>ls_transport := tg1\<rparr>) FromNext (Chunk rm)) (quiet tr) =
       (Inr (Again (G\<lparr>ls_transport := tg2\<rparr>)), quiet (tr @ [ToPeer reply]))" if "\<not> te_elapsed W" for W ctx tr
      using deliver_next_turn [of "G\<lparr>ls_transport := tg1\<rparr>" Guard 547 n2 rm W S ctx] idle(1,2) bm(2) bg(1) that
      by (simp add: inbound_len_sizes link_cell_lens on_next_def bind_def lift_def)
    show "link i j g2 tg2" using laws bg(4) by (rule transport_laws_sym)
    show "link k l m2 tm2" using laws bm(4) by (rule transport_laws_sym)
    show "length reply = 564" using bg(2) by (simp add: link_cell_lens)
  qed (use hand in auto)
qed

text \<open>CONNECT at an exit whose proxy accepts.\<close>

definition proxy_reachable :: "turn_env \<Rightarrow> RelayConfig \<Rightarrow> string \<Rightarrow> u16 \<Rightarrow> bool" where
  "proxy_reachable W cfg host port \<longleftrightarrow> port \<in> set (allowed_exit_ports cfg) \<and>
     (\<exists>raw. decodo_proxy_url cfg = Some raw \<and> dialable_proxy (net_parse_url (te_net W)) (Some raw))
     \<and> (\<forall>addr creds. net_socks (te_net W) addr creds host port = SocksUp [])"

lemma exit_connects:
  assumes "ls_inbound X = reader_new [] 530" "ls_dest X = None" "proxy_reachable W (cc_cfg ctx) host port"
    and "peel S (ls_transport X) u 1 = (Inr (ToMe \<lparr>cell_type = Connect, payload = body\<rparr>), t')"
    and "connect_decode body = Inr \<lparr>connect_host = host, connect_port = port\<rparr>"
  shows "\<exists>addr creds. relay_turn S ctx Exit W (deliver X FromPeer (Chunk u)) (quiet tr) =
    (Inr (Again (X\<lparr>ls_transport := t', ls_dest := Some []\<rparr>)), quiet (tr @ [DialProxy addr creds host port]))"
proof -
  have "length u = inbound_len Exit" using peel_Inr_length [OF assms(4)] by (simp add: inbound_len_def)
  note turn = deliver_peer_turn [OF assms(1) [folded inbound_len_sizes] this]
  obtain raw v h p where "decodo_proxy_url (cc_cfg ctx) = Some raw" "net_parse_url (te_net W) raw = Some v"
    "is_socks_scheme (url_scheme v)" "url_host v = Some h" "url_port v = Some p" "port \<in> set (allowed_exit_ports (cc_cfg ctx))"
    "\<And>addr creds. net_socks (te_net W) addr creds host port = SocksUp []"
    using assms(3) unfolding proxy_reachable_def dialable_proxy_def by auto
  then show ?thesis
    unfolding turn using assms(2,4,5)
    by (cases "url_username v = []")
      (simp add: on_inbound_def on_cell_def on_connect_def dial_via_socks5_def bind_def lift_def map_err_io_def, blast)+
qed

text \<open>One relay turn on a frame: the actions it takes and the state it leaves.\<close>

definition turns_to :: "('t, 'm) transport_ops_scheme \<Rightarrow> ConnCtx \<Rightarrow> Role \<Rightarrow> turn_env \<Rightarrow> 't loop_state \<Rightarrow> source \<Rightarrow> bytes \<Rightarrow>
    action list \<Rightarrow> 't loop_state \<Rightarrow> bool" where
  "turns_to S ctx rl W ls src f acts ls' \<longleftrightarrow>
     relay_turn S ctx rl W (deliver ls src (Chunk f)) (quiet []) = (Inr (Again ls'), quiet acts)"

definition guard_reachable :: "client_net \<Rightarrow> SocketAddr \<Rightarrow> string \<Rightarrow> arrival list \<Rightarrow> bool" where
  "guard_reachable N addr sni inn \<longleftrightarrow> cn_tcp_connect N addr = None \<and> cn_nodelay N addr = None \<and> cn_server_name N sni
     \<and> cn_tls N addr sni = Inr inn"

lemma client_dial_tls_quiet:
  "guard_reachable N addr sni inn \<Longrightarrow> client_dial_tls N addr sni (quiet tr) = (Inr inn, quiet (tr @ [GuardTcp addr, GuardHello addr sni]))"
  by (simp add: client_dial_tls_def guard_reachable_def io_fails_def bind_def lift_def)

lemma extend_hop_quiet:
  assumes "extend_request S seed g mid nxt = Inr (init, wire, g1, mid1)" "extend_reply S init g1 mid1 reply = Inr (t, g2, mid2)"
    and "length reply = 564"
  shows "extend_hop S seed g mid nxt (Chunk reply # rest) (quiet tr) = (Inr (t, g2, mid2, rest), quiet (tr @ [ToGuard wire]))"
proof -
  have "await_exact (link_cell_len CLIENT_LAYERS) (Chunk reply # rest) = Inr (reply, rest)"
    using read_exact_chunk [of reply 564 "[]" rest] assms(3) by (simp add: await_exact_def CLIENT_LAYERS_def link_cell_lens)
  with assms(1,2) show ?thesis by (simp add: extend_hop_def bind_def lift_def)
qed

lemma dial_quiet:
  assumes "entry_addr (guard route) = Inr ga" "static_key (guard route) = Inr gk"
    and "guard_reachable N ga (tls_name (guard route)) [Chunk msg2, Chunk r1, Chunk r2]"
    and "initiator_start S s1 gk = Inr (h, msg1)" "length msg2 = NOISE_MSG_LEN" "initiator_finish S h msg2 = Inr g0"
    and "extend_request S s2 g0 None (middle route) = Inr (h2, w1, g1, None)" "extend_reply S h2 g1 None r1 = Inr (m0, g2, None)"
    and "extend_request S s3 g2 (Some m0) (exit route) = Inr (h3, w2, g3, Some m1)"
    and "extend_reply S h3 g3 (Some m1) r2 = Inr (x0, g4, Some m2)" "length r1 = 564" "length r2 = 564"
    and "connect_encode \<lparr>connect_host = host, connect_port = port\<rparr> = Inr body" "cell_new Connect body = Inr cell"
    and "seal_for_exit S \<lparr>ly_guard = g4, ly_middle = m2, ly_exit = x0\<rparr> cell = (Inr w3, L)"
  shows "dial S (s1, s2, s3) N route m_raw token host port (quiet []) =
    (Inr \<lparr>ct_layers = L, ct_inbound = reader_new [] 564, ct_user = []\<rparr>,
     quiet [GuardTcp ga, GuardHello ga (tls_name (guard route)), ToGuard [PROTO_CLIENT], ToGuard m_raw, ToGuard token,
       ToGuard msg1, ToGuard w1, ToGuard w2, ToGuard w3])"
proof -
  have "await_exact NOISE_MSG_LEN [Chunk msg2, Chunk r1, Chunk r2] = Inr (msg2, [Chunk r1, Chunk r2])"
    using read_exact_chunk [of msg2 NOISE_MSG_LEN "[]" "[Chunk r1, Chunk r2]"] assms(5) by (simp add: await_exact_def NOISE_MSG_LEN_def)
  moreover note client_dial_tls_quiet [OF assms(3), of "[]"]
  moreover note extend_hop_quiet [OF assms(7,8,11), of "[Chunk r2]"] extend_hop_quiet [OF assms(9,10,12), of "[]"]
  ultimately show ?thesis
    using assms(1,2,4,6,13-15)
    by (simp add: dial_def Let_def bind_def lift_def CLIENT_LAYERS_def link_cell_lens)
qed

lemma relay_forwards_one:
  assumes "ls_inbound ls = reader_new [] (inbound_len rl)" "ls_next ls \<noteq> None"
    and "peel S (ls_transport ls) w (inbound_layers rl) = (Inr (Forward v), t')"
  shows "turns_to S ctx rl W ls FromPeer w [ToNext v] (ls\<lparr>ls_transport := t'\<rparr>)"
proof -
  have "length w = inbound_len rl" using peel_Inr_length [OF assms(3)] by (simp add: inbound_len_def)
  from deliver_peer_turn [OF assms(1) this, of S ctx W] show ?thesis
    using assms(2,3) by (simp add: turns_to_def on_inbound_def bind_def lift_def)
qed

text \<open>The CONNECT that ends a dial, followed through the three relays to the exit's proxy.\<close>

lemma connect_hops:
  assumes laws: "transport_laws S link" and dest: "wf_connect \<lparr>connect_host = host, connect_port = port\<rparr>"
    and lk: "onion_linked link (Suc i) j L (ls_transport G) (ls_transport M) (ls_transport X)"
    and G: "ls_inbound G = reader_new [] 564" "ls_next G \<noteq> None" and M: "ls_inbound M = reader_new [] 547" "ls_next M \<noteq> None"
    and X: "ls_inbound X = reader_new [] 530" "ls_dest X = None"
  obtains body cell w v u L' g' m' x' where
    "connect_encode \<lparr>connect_host = host, connect_port = port\<rparr> = Inr body" "cell_new Connect body = Inr cell"
    "seal_for_exit S L cell = (Inr w, L')" "onion_linked link i j L' g' m' x'"
    "\<forall>W ctx. turns_to S ctx Guard W G FromPeer w [ToNext v] (G\<lparr>ls_transport := g'\<rparr>)"
    "\<forall>W ctx. turns_to S ctx Middle W M FromPeer v [ToNext u] (M\<lparr>ls_transport := m'\<rparr>)"
    "\<forall>W ctx. proxy_reachable W (cc_cfg ctx) host port \<longrightarrow>
      (\<exists>addr creds. turns_to S ctx Exit W X FromPeer u [DialProxy addr creds host port] (X\<lparr>ls_transport := x', ls_dest := Some []\<rparr>))"
proof -
  obtain body where body: "connect_encode \<lparr>connect_host = host, connect_port = port\<rparr> = Inr body"
    "connect_decode body = Inr \<lparr>connect_host = host, connect_port = port\<rparr>"
    using connect_codec.round_trip [OF dest] by blast
  let ?cell = "\<lparr>cell_type = Connect, payload = body\<rparr>"
  have cell: "cell_new Connect body = Inr ?cell" "wf_cell ?cell"
    using length_connect_encode [OF body(1)] by (simp_all add: cell_new_def wf_cell_def)
  from laws lk cell(2) obtain w v u L' g' m' x' where onion: "seal_for_exit S L ?cell = (Inr w, L')"
    "peel S (ls_transport G) w 3 = (Inr (Forward v), g')" "peel S (ls_transport M) v 2 = (Inr (Forward u), m')"
    "peel S (ls_transport X) u 1 = (Inr (ToMe ?cell), x')" "onion_linked link i j L' g' m' x'"
    by (rule seal_for_exit_hops)
  have "\<forall>W ctx. turns_to S ctx Guard W G FromPeer w [ToNext v] (G\<lparr>ls_transport := g'\<rparr>)"
    using onion(2) G by (intro allI relay_forwards_one) (simp_all add: inbound_len_sizes)
  moreover have "\<forall>W ctx. turns_to S ctx Middle W M FromPeer v [ToNext u] (M\<lparr>ls_transport := m'\<rparr>)"
    using onion(3) M by (intro allI relay_forwards_one) (simp_all add: inbound_len_sizes)
  moreover have "\<forall>W ctx. proxy_reachable W (cc_cfg ctx) host port \<longrightarrow>
      (\<exists>addr creds. turns_to S ctx Exit W X FromPeer u [DialProxy addr creds host port] (X\<lparr>ls_transport := x', ls_dest := Some []\<rparr>))"
    using exit_connects [OF X _ onion(4) body(2), of _ _ "[]"] unfolding turns_to_def append_Nil by blast
  ultimately show ?thesis by (rule that [OF body(1) cell(1) onion(1,5)])
qed

end
