(* ===== verification/Relay_Keys.thy ===== *)
theory Relay_Keys
  imports Relay_Config Client_Tokens Reg_State
begin

text \<open>
  The relay's key material: the static key file (\<^verbatim>\<open>relay/src/static_key.rs\<close>), the authority key pinned
  at startup (\<^verbatim>\<open>relay/src/authority.rs\<close>) and the heartbeat that reports the public half
  (\<^verbatim>\<open>relay/src/heartbeat.rs\<close>). The file system maps a path to the permission bits and the content of
  its file. A fault says which step of the file access fails; the process's umask, the HTTP replies,
  the URL parser and the PEM decoders are arguments.
\<close>

unbundle bit_operations_syntax

section \<open>The static key file\<close>

definition KEY_FILE_LEN :: nat where
  "KEY_FILE_LEN = STATIC_KEY_LEN * 2"

definition REQUIRED_MODE :: "32 word" where
  "REQUIRED_MODE = 384"

datatype StaticKeyError =
    KeyMissing string | Unreadable string IoError | KeyMode string "32 word" | KeyLength string nat
  | Mismatched string | KeyExists string | KeyGenerate | KeyWrite string IoError

datatype keygen_fault = KeygenRuns | CreateFails IoError | KeyWriteFails nat IoError | KeyFlushFails IoError

datatype load_fault = LoadRuns | StatFails IoError | KeyOpenFails IoError | KeyReadFails IoError

definition from_digit :: "nat \<Rightarrow> char option" where
  "from_digit n = (if n < 16 then Some (hex_char n) else None)"

definition hex_of :: "bytes \<Rightarrow> string" where
  "hex_of bs = concat (map (\<lambda>b. [case_option CHR ''0'' id (from_digit (unat (drop_bit 4 b))),
                                 case_option CHR ''0'' id (from_digit (unat (b AND 0x0F)))]) bs)"

definition generate :: "('b, 'h, 't) snow \<Rightarrow> nat \<Rightarrow> 32 word \<Rightarrow> keygen_fault \<Rightarrow> string \<Rightarrow> file_sys \<Rightarrow>
    (StaticKeyError + string) \<times> file_sys" where
  "generate S seed umask fault path fs =
     (case generate_static_keypair S seed of
        Inl _ \<Rightarrow> (Inl KeyGenerate, fs)
      | Inr kp \<Rightarrow>
          (case fault of CreateFails e \<Rightarrow> (Inl (KeyWrite path e), fs) | _ \<Rightarrow>
           if fs path \<noteq> None then (Inl (KeyExists path), fs)
           else (let mode = unat (REQUIRED_MODE AND NOT umask); buf = kp_private kp @ kp_public kp in
             case fault of
               KeyWriteFails n e \<Rightarrow> (Inl (KeyWrite path e), fs(path \<mapsto> (mode, take n buf)))
             | KeyFlushFails e \<Rightarrow> (Inl (KeyWrite path e), fs(path \<mapsto> (mode, buf)))
             | _ \<Rightarrow> (Inr (hex_of (kp_public kp)), fs(path \<mapsto> (mode, buf))))))"

definition load_key :: "('b, 'h, 't) snow \<Rightarrow> nat \<Rightarrow> nat \<Rightarrow> load_fault \<Rightarrow> string \<Rightarrow> file_sys \<Rightarrow> StaticKeyError + StaticKeypair" where
  "load_key S seed1 seed2 fault path fs =
     (case fault of StatFails e \<Rightarrow> Inl (Unreadable path e) | _ \<Rightarrow>
      (case fs path of
         None \<Rightarrow> Inl (KeyMissing path)
       | Some (perm, buf) \<Rightarrow>
           (let mode = word_of_nat perm AND 0xFFF in
            if mode AND NOT REQUIRED_MODE \<noteq> 0 then Inl (KeyMode path mode)
            else (case fault of
                KeyOpenFails e \<Rightarrow> Inl (Unreadable path e)
              | KeyReadFails e \<Rightarrow> Inl (Unreadable path e)
              | _ \<Rightarrow>
                  if length buf \<noteq> KEY_FILE_LEN then Inl (KeyLength path (length buf))
                  else map_err (\<lambda>_. Mismatched path)
                    (from_parts S seed1 seed2 (take STATIC_KEY_LEN buf) (drop STATIC_KEY_LEN buf))))))"

section \<open>The authority's key\<close>

datatype AuthorityError = AHttp | BadUrl string | BadStatus nat | EmptyBody | ParseFailure

definition parse_pubkey :: "(string \<Rightarrow> RsaPublicKey option) \<Rightarrow> (string \<Rightarrow> RsaPublicKey option) \<Rightarrow> string \<Rightarrow> AuthorityError + RsaPublicKey" where
  "parse_pubkey spki_pem pkcs1_pem body =
     (case spki_pem body of
        Some k \<Rightarrow> Inr k
      | None \<Rightarrow> (case pkcs1_pem body of Some k \<Rightarrow> Inr k | None \<Rightarrow> Inl ParseFailure))"

definition fetch_and_pin :: "(string \<Rightarrow> Url option) \<Rightarrow> bool \<Rightarrow> (bool \<Rightarrow> string \<Rightarrow> api_reply) \<Rightarrow> (string \<Rightarrow> RsaPublicKey option) \<Rightarrow>
    (string \<Rightarrow> RsaPublicKey option) \<Rightarrow> string \<Rightarrow> AuthorityError + RsaPublicKey" where
  "fetch_and_pin parse_url builds get spki_pem pkcs1_pem url =
     and_then (ok_or (BadUrl url) (parse_url url)) (\<lambda>parsed.
     let https_only = eq_ignore_ascii_case (url_scheme parsed) ''https'' in
     if \<not> builds then Inl AHttp
     else (case get https_only url of
        NoConnection \<Rightarrow> Inl AHttp
      | Reply status body \<Rightarrow>
          if \<not> is_success status then Inl (BadStatus status)
          else and_then (ok_or AHttp body) (\<lambda>body.
            if trim body = [] then Inl EmptyBody else parse_pubkey spki_pem pkcs1_pem (trim body))))"

section \<open>Heartbeats\<close>

definition STATUS_STATIC_PUBKEY_MISMATCH :: nat where
  "STATUS_STATIC_PUBKEY_MISMATCH = 409"

record HeartbeatPayload =
  hb_node_id :: string
  hb_role :: string
  hb_relay_port :: u16
  hb_static_pubkey :: string

definition pubkey_hex :: "bytes \<Rightarrow> string" where
  "pubkey_hex key = concat (map (\<lambda>b. [case_option CHR ''0'' id (from_digit (unat (drop_bit 4 b))),
                                      case_option CHR ''0'' id (from_digit (unat (b AND 0x0F)))]) key)"

datatype heartbeat_log = HeartbeatOk nat | KeyMismatch nat | HeartbeatRejected nat | HeartbeatFailed

definition send_one :: "(string \<Rightarrow> string \<Rightarrow> HeartbeatPayload \<Rightarrow> api_reply) \<Rightarrow> RelayConfig \<Rightarrow> string \<Rightarrow> heartbeat_log" where
  "send_one post cfg key_hex =
     (let payload = \<lparr>hb_node_id = cfg_node_id cfg, hb_role = role_display (cfg_role cfg), hb_relay_port = cfg_relay_port cfg,
                     hb_static_pubkey = key_hex\<rparr> in
      case post (authority_heartbeat_url cfg) (relay_api_key cfg) payload of
        Reply status _ \<Rightarrow>
          if is_success status then HeartbeatOk status
          else if status = STATUS_STATIC_PUBKEY_MISMATCH then KeyMismatch status
          else HeartbeatRejected status
      | NoConnection \<Rightarrow> HeartbeatFailed)"

section \<open>Hexadecimal\<close>

lemma nibbles: "unat (drop_bit 4 b) = unat b div 16" "unat (b AND 0x0F) = unat b mod 16" for b :: byte
proof -
  show "unat (drop_bit 4 b) = unat b div 16" by (simp add: drop_bit_eq_div unat_div_distrib)
  have "b AND 0x0F = b mod 16"
    using take_bit_eq_mod [of 4 b] by (simp add: take_bit_eq_mask mask_eq_exp_minus_1)
  then show "unat (b AND 0x0F) = unat b mod 16" by (simp add: unat_mod_distrib)
qed

lemma hex_of_bytes: "hex_of bs = concat (map hex_byte bs)"
proof -
  have "unat b div 16 < 16" for b :: byte using unat_byte_lt [of b] by (simp add: less_mult_imp_div_less)
  then show ?thesis by (simp add: hex_of_def hex_byte_def [abs_def] nibbles from_digit_def nibble_def)
qed

lemma pubkey_hex_hex_of: "pubkey_hex = hex_of"
  by (simp add: pubkey_hex_def hex_of_def fun_eq_iff)

lemma decode_hex_of [simp]: "decode_hex (hex_of bs) = Some bs"
  by (simp add: hex_of_bytes)

section \<open>Writing and reading the key file\<close>

text \<open>Documented of \<^verbatim>\<open>snow\<close>: a key pair it generates consists of two matching halves.\<close>

definition keygen_laws :: "('b, 'h, 't) snow \<Rightarrow> (bytes \<Rightarrow> bytes \<Rightarrow> bool) \<Rightarrow> bool" where
  "keygen_laws S matches \<longleftrightarrow> (\<forall>b seed priv pub. sn_generate_keypair S b seed = Some (priv, pub) \<longrightarrow> matches priv pub)"

lemma generate_static_keypair_Inr:
  assumes "generate_static_keypair S seed = Inr kp" "keygen_laws S matches"
  shows "length (kp_private kp) = STATIC_KEY_LEN" "length (kp_public kp) = STATIC_KEY_LEN" "matches (kp_private kp) (kp_public kp)"
  using assms by (auto simp: generate_static_keypair_def keygen_laws_def result_simps split: if_splits)

lemma from_parts_matches:
  assumes "handshake_laws S matches link" "matches priv pub"
  shows "from_parts S seed1 seed2 priv pub = Inr \<lparr>kp_public = pub, kp_private = priv\<rparr>"
proof -
  obtain h msg1 t' msg2 t where "initiator_start S seed1 pub = Inr (h, msg1)" "respond S seed2 priv msg1 = Inr (t', msg2)"
    "initiator_finish S h msg2 = Inr t"
    by (rule handshake_completes [OF assms, of seed1 seed2])
  then show ?thesis by (simp add: from_parts_def)
qed

lemma from_parts_Inr: "from_parts S seed1 seed2 priv pub = Inr kp \<Longrightarrow> kp = \<lparr>kp_public = pub, kp_private = priv\<rparr>"
  by (auto simp: from_parts_def result_simps)

definition tight :: "nat \<Rightarrow> bool" where
  "tight perm \<longleftrightarrow> (word_of_nat perm AND 0xFFF) AND NOT REQUIRED_MODE = 0"

lemma created_mode_tight: "tight (unat (REQUIRED_MODE AND NOT umask))"
proof -
  have "((r AND NOT umask) AND m) AND NOT r = 0" for r m :: "32 word"
    by (rule bit_word_eqI) (auto simp: bit_and_iff bit_not_iff)
  then show ?thesis by (simp add: tight_def)
qed

lemma load_key_Inr:
  assumes "load_key S seed1 seed2 fault path fs = Inr kp"
  shows "\<exists>perm. fs path = Some (perm, kp_private kp @ kp_public kp) \<and> tight perm"
    "length (kp_private kp) = STATIC_KEY_LEN" "length (kp_public kp) = STATIC_KEY_LEN"
    "from_parts S seed1 seed2 (kp_private kp) (kp_public kp) = Inr kp"
proof -
  obtain perm buf where b: "fs path = Some (perm, buf)" "tight perm"
    "length buf = KEY_FILE_LEN" "from_parts S seed1 seed2 (take STATIC_KEY_LEN buf) (drop STATIC_KEY_LEN buf) = Inr kp"
    using assms by (auto simp: load_key_def tight_def Let_def result_simps split: load_fault.splits option.splits if_splits)
  have kp: "kp = \<lparr>kp_public = drop STATIC_KEY_LEN buf, kp_private = take STATIC_KEY_LEN buf\<rparr>"
    using from_parts_Inr [OF b(4)] .
  show "\<exists>perm. fs path = Some (perm, kp_private kp @ kp_public kp) \<and> tight perm"
    using b(1,2) kp by simp
  show "length (kp_private kp) = STATIC_KEY_LEN" "length (kp_public kp) = STATIC_KEY_LEN"
    "from_parts S seed1 seed2 (kp_private kp) (kp_public kp) = Inr kp"
    using b(3,4) kp by (simp_all add: KEY_FILE_LEN_def)
qed

lemma generate_cases:
  assumes "generate S seed umask fault path fs = (r, fs')"
  obtains (refused) e where "r = Inl e" "fs' = fs"
  | (written) kp where "generate_static_keypair S seed = Inr kp" "fs path = None" "\<forall>e. fault \<noteq> CreateFails e"
      "fs' = fs(path \<mapsto> (unat (REQUIRED_MODE AND NOT umask),
         case fault of KeyWriteFails n _ \<Rightarrow> take n (kp_private kp @ kp_public kp) | _ \<Rightarrow> kp_private kp @ kp_public kp))"
      "\<forall>hex. r = Inr hex \<longrightarrow> fault = KeygenRuns \<and> hex = hex_of (kp_public kp)"
proof (cases "(\<exists>e. generate_static_keypair S seed = Inl e) \<or> fs path \<noteq> None \<or> (\<exists>e. fault = CreateFails e)")
  case True
  with assms refused show ?thesis by (auto simp: generate_def split: sum.splits keygen_fault.splits)
next
  case False
  then obtain kp where kp: "generate_static_keypair S seed = Inr kp" "fs path = None" "\<forall>e. fault \<noteq> CreateFails e"
    by (cases "generate_static_keypair S seed") blast+
  show ?thesis
    by (rule written [OF kp]) (use assms kp in \<open>auto simp: generate_def Let_def split: keygen_fault.splits\<close>)
qed

text \<open>
  C25: The key file that \<^verbatim>\<open>keygen\<close> writes is the one the relay loads. When \<open>generate\<close> succeeds, loading
  the path yields a matching key pair whose public half is what the printed hexadecimal decodes to,
  whatever the umask was. A file that was there before is never touched, nor is any other file; and
  a write cut short leaves a file that \<open>load\<close> refuses by its length.
\<close>

theorem keygen_load_round_trip:
  assumes "handshake_laws S matches link" "keygen_laws S matches" "generate S seed umask fault path fs = (r, fs')"
  shows "(\<forall>hex. r = Inr hex \<longrightarrow> (\<exists>kp. load_key S s1 s2 LoadRuns path fs' = Inr kp
       \<and> decode_hex hex = Some (kp_public kp) \<and> matches (kp_private kp) (kp_public kp)))
    \<and> (fs path \<noteq> None \<longrightarrow> fs' = fs \<and> (\<exists>e. r = Inl e))
    \<and> (\<forall>p. p \<noteq> path \<longrightarrow> fs' p = fs p)
    \<and> (\<forall>n e. fault = KeyWriteFails n e \<and> n < KEY_FILE_LEN \<and> fs' \<noteq> fs \<longrightarrow> load_key S s1 s2 LoadRuns path fs' = Inl (KeyLength path n))"
  using assms(3)
proof (cases rule: generate_cases)
  case refused
  then show ?thesis by simp
next
  case (written kp)
  let ?mode = "unat (REQUIRED_MODE AND NOT umask)"
  note kp = generate_static_keypair_Inr [OF written(1) assms(2)]
  have load: "load_key S s1 s2 LoadRuns path fs' =
      (if length buf \<noteq> KEY_FILE_LEN then Inl (KeyLength path (length buf))
       else map_err (\<lambda>_. Mismatched path) (from_parts S s1 s2 (take STATIC_KEY_LEN buf) (drop STATIC_KEY_LEN buf)))"
    if "fs' path = Some (?mode, buf)" for buf
    using that created_mode_tight [of umask] by (simp add: load_key_def tight_def Let_def)
  have "load_key S s1 s2 LoadRuns path fs' = Inr kp" if "fault = KeygenRuns"
    using that kp load [of "kp_private kp @ kp_public kp"] written(4)
    by (simp add: KEY_FILE_LEN_def from_parts_matches [OF assms(1) kp(3)])
  moreover have "load_key S s1 s2 LoadRuns path fs' = Inl (KeyLength path n)" if "fault = KeyWriteFails n e" "n < KEY_FILE_LEN" for n e
  proof -
    have len: "length (take n (kp_private kp @ kp_public kp)) = n" using that(2) kp by (simp add: KEY_FILE_LEN_def)
    have "fs' path = Some (?mode, take n (kp_private kp @ kp_public kp))" using that(1) written(4) by simp
    from load [OF this] that(2) show ?thesis unfolding len by simp
  qed
  ultimately show ?thesis using written(2,4,5) kp(3) by auto
qed

lemma plain_keygen_laws: "keygen_laws plain_snow (\<lambda>_ _. True)"
  by (simp add: keygen_laws_def)

theorem keygen_load_round_trip_witness:
  "\<exists>kp. load_key plain_snow 0 0 LoadRuns ''k'' (snd (generate plain_snow 0 18 KeygenRuns ''k'' Map.empty)) = Inr kp
     \<and> fst (generate plain_snow 0 18 KeygenRuns ''k'' Map.empty) = Inr (hex_of (kp_public kp))"
proof -
  let ?r = "generate plain_snow 0 18 KeygenRuns ''k'' Map.empty"
  have gen: "generate_static_keypair plain_snow 0 = Inr \<lparr>kp_public = replicate 32 2, kp_private = replicate 32 1\<rparr>"
    by (simp add: generate_static_keypair_def noise_params_def plain_snow_def wire_defs)
  then have r: "fst ?r = Inr (hex_of (replicate 32 2))" by (simp add: generate_def Let_def)
  have "?r = (fst ?r, snd ?r)" by simp
  note conjunct1 [OF keygen_load_round_trip [OF plain_handshake_laws plain_keygen_laws this, of 0 0], rule_format, OF r]
  with r show ?thesis by auto
qed

end
