(* ===== verification/Relay_Boot.thy ===== *)
theory Relay_Boot
  imports Relay_Conn Relay_Keys Reg_Cache
begin

text \<open>
  The relay process around the connection handlers (\<^verbatim>\<open>relay/src/main.rs\<close>): the \<^verbatim>\<open>keygen\<close> subcommand,
  the startup sequence up to the running tasks, the task that refreshes the registry, and what is
  logged of the exit proxy. Startup ends in an exit code or in a running relay; its trace records
  the listeners it binds and the tasks it starts. The environment, the file system, the network and
  the clock readings are arguments. The waiting for Ctrl-C and the orderly shutdown are not modelled.
\<close>

section \<open>Redacting the proxy URL\<close>

definition redact_proxy_url :: "(string \<Rightarrow> Url option) \<Rightarrow> string \<Rightarrow> string" where
  "redact_proxy_url parse_url raw =
     (case parse_url raw of
        Some u \<Rightarrow>
          (let host = (case url_host u of Some h \<Rightarrow> h | None \<Rightarrow> []) in
           case url_port u of
             Some p \<Rightarrow> url_scheme u @ ''://'' @ host @ '':'' @ show_nat (unat p)
           | None \<Rightarrow> url_scheme u @ ''://'' @ host)
      | None \<Rightarrow> ''<unparseable>'')"

section \<open>TLS at the edges\<close>

definition outbound_connector :: "('c \<Rightarrow> bool) \<Rightarrow> 'c list \<Rightarrow> TlsError + 'c list" where
  "outbound_connector addable certs =
     (let roots = filter addable certs in if roots = [] then Inl TlsNativeRoots else Inr roots)"

text \<open>
  An inbound connection: whether its ClientHello can be read and asks for the ACME challenge, how
  its handshake ends, and whether both take longer than the accept timeout.
\<close>

record inbound_tls =
  it_hello :: "IoError + bool"
  it_handshake :: "IoError + arrival list"
  it_elapsed :: bool

definition accept_routed :: "inbound_tls \<Rightarrow> TlsError + arrival list option" where
  "accept_routed T =
     and_then (map_err TlsAccept (it_hello T)) (\<lambda>challenge.
     if challenge then Inr None
     else and_then (map_err TlsAccept (it_handshake T)) (\<lambda>tls. Inr (Some tls)))"

text \<open>The task that \<^verbatim>\<open>accept_loop\<close> spawns for one connection.\<close>

definition accept_task :: "('b, 'h, 't) snow \<Rightarrow> conn_env \<Rightarrow> ConnCtx \<Rightarrow> SocketAddr \<Rightarrow> inbound_tls \<Rightarrow> loop_event list \<Rightarrow>
    ReplayWindow \<Rightarrow> action io \<Rightarrow> ReplayWindow \<times> action io" where
  "accept_task S V ctx peer T es replay s =
     (if it_elapsed T then (replay, s)
      else case accept_routed T of
        Inr (Some inn) \<Rightarrow> (case handle_connection S V ctx peer inn es replay s of (_, replay', s') \<Rightarrow> (replay', s'))
      | Inr None \<Rightarrow> (replay, s)
      | Inl _ \<Rightarrow> (replay, s))"

section \<open>Startup\<close>

datatype boot_action =
    Print string
  | BindRelay u16
  | BindMetrics SocketAddr
  | BindPort80
  | SpawnHeartbeat string
  | SpawnAccept
  | SpawnMetrics
  | SpawnRedirect string

record ('b, 'h, 't) boot_env =
  bo_args :: "string list"
  bo_get :: env_source
  bo_read_file :: "string \<Rightarrow> string option"
  bo_parse_url :: "string \<Rightarrow> Url option"
  bo_reg :: reg_env
  bo_snow :: "('b, 'h, 't) snow"
  bo_seeds :: "nat \<times> nat"
  bo_umask :: "32 word"
  bo_keygen_fault :: keygen_fault
  bo_load_fault :: load_fault
  bo_http_builds :: bool
  bo_get_pubkey :: "bool \<Rightarrow> string \<Rightarrow> api_reply"
  bo_spki_pem :: "string \<Rightarrow> RsaPublicKey option"
  bo_pkcs1_pem :: "string \<Rightarrow> RsaPublicKey option"
  bo_acme_ok :: bool
  bo_addable :: "string \<Rightarrow> bool"
  bo_certs :: "string list"
  bo_read_fails :: bool
  bo_io :: io_faults
  bo_registry :: http_response
  bo_prime_now :: int
  bo_check_now :: int
  bo_binds :: "boot_action \<Rightarrow> bool"
  bo_hb_builds :: bool

record relay_process =
  rp_ctx :: ConnCtx
  rp_replay :: ReplayWindow
  rp_handle :: RegistryHandle
  rp_cache :: RegistryCache

type_synonym boot_result = "(nat + relay_process) \<times> boot_action list \<times> file_sys"

definition run_keygen :: "('b, 'h, 't) boot_env \<Rightarrow> string option \<Rightarrow> file_sys \<Rightarrow> nat \<times> boot_action list \<times> file_sys" where
  "run_keygen E path_arg fs =
     (case (case path_arg of
              Some p \<Rightarrow> Some p
            | None \<Rightarrow> (case bo_get E ''RELAY_STATIC_KEY_PATH'' of Some (c # cs) \<Rightarrow> Some (c # cs) | _ \<Rightarrow> None)) of
        None \<Rightarrow> (2, [], fs)
      | Some path \<Rightarrow>
          (case generate (bo_snow E) (fst (bo_seeds E)) (bo_umask E) (bo_keygen_fault E) path fs of
             (Inr public_hex, fs') \<Rightarrow> (0, [Print public_hex], fs')
           | (Inl _, fs') \<Rightarrow> (1, [], fs')))"

text \<open>The three listeners, bound one after the other; a bind that fails ends the process.\<close>

fun bind_all :: "(boot_action \<Rightarrow> bool) \<Rightarrow> boot_action list \<Rightarrow> bool \<times> boot_action list" where
  "bind_all binds [] = (True, [])"
| "bind_all binds (a # rest) =
     (if binds a then (let (ok, done) = bind_all binds rest in (ok, a # done)) else (False, []))"

definition start_tasks :: "('b, 'h, 't) boot_env \<Rightarrow> relay_process \<Rightarrow> file_sys \<Rightarrow> boot_result" where
  "start_tasks E p fs =
     (let cfg = cc_cfg (rp_ctx p);
          (ok, done) = bind_all (bo_binds E) [BindRelay (cfg_relay_port cfg), BindMetrics (metrics_bind cfg), BindPort80] in
      if \<not> ok then (Inl 1, done, fs)
      else if \<not> bo_hb_builds E then (Inl 1, done, fs)
      else (Inr p, done @ [SpawnHeartbeat (pubkey_hex (kp_public (cc_static_key (rp_ctx p)))), SpawnAccept, SpawnMetrics,
              SpawnRedirect (relay_hostname cfg)], fs))"

definition boot_registry :: "('b, 'h, 't) boot_env \<Rightarrow> RelayConfig \<Rightarrow> file_sys \<Rightarrow> (nat + RegistryHandle \<times> RegistryCache) \<times> file_sys" where
  "boot_registry E cfg fs =
     (case cache_new (cfg_registry_url cfg) (registry_state_dir cfg) (registry_signing_pubkeys cfg) 1 of
        Inl _ \<Rightarrow> (Inl 1, fs)
      | Inr cache \<Rightarrow>
          (case prime (bo_reg E) (bo_read_fails E) (bo_io E) (bo_registry E) (bo_prime_now E) (cache, fs) of
             (Inl _, _, fs') \<Rightarrow> (Inl 1, fs')
           | (Inr _, cache', fs') \<Rightarrow>
               (case usable cache' (bo_check_now E) of
                  Inl _ \<Rightarrow> (Inl 1, fs')
                | Inr v \<Rightarrow> (Inr (publish handle_new v, cache'), fs'))))"

definition boot_serve :: "('b, 'h, 't) boot_env \<Rightarrow> file_sys \<Rightarrow> boot_result" where
  "boot_serve E fs =
     (case from_source (bo_reg E) (bo_read_file E) (bo_parse_url E) (bo_get E) of
        Inl _ \<Rightarrow> (Inl 1, [], fs)
      | Inr cfg \<Rightarrow>
     (case load_key (bo_snow E) (fst (bo_seeds E)) (snd (bo_seeds E)) (bo_load_fault E) (static_key_path cfg) fs of
        Inl _ \<Rightarrow> (Inl 1, [], fs)
      | Inr kp \<Rightarrow>
     (case fetch_and_pin (bo_parse_url E) (bo_http_builds E) (bo_get_pubkey E) (bo_spki_pem E) (bo_pkcs1_pem E)
             (authority_pubkey_url cfg) of
        Inl _ \<Rightarrow> (Inl 1, [], fs)
      | Inr authority \<Rightarrow>
          if \<not> bo_acme_ok E then (Inl 1, [], fs)
          else (case outbound_connector (bo_addable E) (bo_certs E) of
             Inl _ \<Rightarrow> (Inl 1, [], fs)
           | Inr _ \<Rightarrow>
          (case boot_registry E cfg fs of
             (Inl code, fs') \<Rightarrow> (Inl code, [], fs')
           | (Inr (handle, cache), fs') \<Rightarrow>
               start_tasks E \<lparr>rp_ctx = \<lparr>cc_cfg = cfg, cc_authority = authority, cc_static_key = kp\<rparr>,
                 rp_replay = window_new (replay_window_ttl cfg), rp_handle = handle, rp_cache = cache\<rparr> fs')))))"

definition boot :: "('b, 'h, 't) boot_env \<Rightarrow> file_sys \<Rightarrow> boot_result" where
  "boot E fs =
     (case bo_args E of
        [] \<Rightarrow> boot_serve E fs
      | a # rest \<Rightarrow>
          if a = ''keygen''
          then (case run_keygen E (case rest of p # _ \<Rightarrow> Some p | [] \<Rightarrow> None) fs of (code, acts, fs') \<Rightarrow> (Inl code, acts, fs'))
          else (Inl 2, [], fs))"

section \<open>The refresh task\<close>

text \<open>One wake-up: the clock is read once for the refresh and again for the usability check.\<close>

record tick =
  tk_now :: int
  tk_check_now :: int
  tk_io :: io_faults
  tk_response :: http_response

definition refresh_tick :: "reg_env \<Rightarrow> RegistryHandle \<times> RegistryCache \<times> file_sys \<Rightarrow> tick \<Rightarrow> RegistryHandle \<times> RegistryCache \<times> file_sys" where
  "refresh_tick E s t =
     (let (h, c, fs) = s in
      case refresh_if_stale E (tk_io t) (tk_response t) (tk_now t) (c, fs) of
        (Inr True, _, c', fs') \<Rightarrow>
          (case usable c' (tk_check_now t) of
             Inr v \<Rightarrow> (publish h v, c', fs')
           | Inl _ \<Rightarrow> (h, c', fs'))
      | (Inr False, _, c', fs') \<Rightarrow> (h, c', fs')
      | (Inl _, _, c', fs') \<Rightarrow> (h, c', fs'))"

section \<open>The published document\<close>

text \<open>
  The handle holds the document of some earlier state of the same cache; newer documents replace
  older ones and never the other way round.
\<close>

definition relay_inv :: "reg_env \<Rightarrow> RegistryHandle \<times> RegistryCache \<times> file_sys \<Rightarrow> bool" where
  "relay_inv E s \<longleftrightarrow> (let (h, cf) = s in cache_inv E cf
     \<and> (\<forall>v. rh_current h = Some v \<longrightarrow> (\<exists>cf0. cache_inv E cf0 \<and> current (fst cf0) = Some v \<and> cache_below E cf0 cf)))"

definition not_older :: "Verified \<Rightarrow> Verified \<Rightarrow> bool" where
  "not_older v w \<longleftrightarrow> version (ver_document v) < version (ver_document w)
     \<or> ver_document v = ver_document w \<and> ver_bytes v = ver_bytes w"

definition relay_below :: "reg_env \<Rightarrow> RegistryHandle \<times> RegistryCache \<times> file_sys \<Rightarrow>
    RegistryHandle \<times> RegistryCache \<times> file_sys \<Rightarrow> bool" where
  "relay_below E s s' \<longleftrightarrow> cache_below E (snd s) (snd s')
     \<and> (\<forall>v. rh_current (fst s) = Some v \<longrightarrow> (\<exists>w. rh_current (fst s') = Some w \<and> not_older v w))"

lemma not_older_trans: "not_older u v \<Longrightarrow> not_older v w \<Longrightarrow> not_older u w"
  by (auto simp: not_older_def)

lemma relay_below_refl: "relay_below E s s"
  by (simp add: relay_below_def cache_below_refl not_older_def)

lemma relay_below_trans: "relay_below E s t \<Longrightarrow> relay_below E t u \<Longrightarrow> relay_below E s u"
  unfolding relay_below_def by (meson cache_below_trans not_older_trans)

lemma refresh_tick_cases:
  fixes E t s
  defines "cf' \<equiv> cache_step E (snd s) (Refresh (tk_now t) (tk_io t) (tk_response t))"
  shows "snd (refresh_tick E s t) = cf'"
    and "fst (refresh_tick E s t) = fst s \<or> (\<exists>w. usable (fst cf') (tk_check_now t) = Inr w \<and> fst (refresh_tick E s t) = publish (fst s) w)"
  unfolding refresh_tick_def cf'_def
  by (auto simp: Let_def split: prod.splits sum.splits bool.splits)

lemma usable_current: "usable c now = Inr w \<Longrightarrow> current c = Some w \<and> is_usable_at (ver_document w) now = Inr True"
  by (auto simp: usable_def result_simps split: if_splits)

lemma relay_inv_published:
  assumes "cache_inv E cf" "current (fst cf) = Some w"
  shows "relay_inv E (publish h w, cf)"
proof -
  have "\<exists>cf0. cache_inv E cf0 \<and> current (fst cf0) = Some w \<and> cache_below E cf0 cf"
    using assms cache_below_refl by blast
  with assms(1) show ?thesis by (simp add: relay_inv_def publish_def)
qed

lemma refresh_tick_ok:
  assumes "relay_inv E s"
  shows "relay_inv E (refresh_tick E s t) \<and> relay_below E s (refresh_tick E s t)"
proof -
  obtain h cf where s: "s = (h, cf)" by (cases s)
  let ?s' = "refresh_tick E s t"
  have inv: "cache_inv E cf" using assms s by (simp add: relay_inv_def)
  have step: "cache_inv E (snd ?s')" "cache_below E cf (snd ?s')"
    using cache_step_ok [OF inv, of "Refresh (tk_now t) (tk_io t) (tk_response t)"]
    by (simp_all add: refresh_tick_cases(1) s step_ok_def)
  have old: "\<exists>cf0. cache_inv E cf0 \<and> current (fst cf0) = Some v \<and> cache_below E cf0 (snd ?s')" if "rh_current h = Some v" for v
  proof -
    from assms that s obtain cf0 where "cache_inv E cf0" "current (fst cf0) = Some v" "cache_below E cf0 cf"
      by (auto simp: relay_inv_def)
    with cache_below_trans [OF _ step(2)] show ?thesis by blast
  qed
  from refresh_tick_cases(2) [of E s t] show ?thesis
  proof
    assume "fst ?s' = fst s"
    then show ?thesis using old step s by (auto simp: relay_inv_def relay_below_def not_older_def split: prod.splits)
  next
    assume "\<exists>w. usable (fst (cache_step E (snd s) (Refresh (tk_now t) (tk_io t) (tk_response t)))) (tk_check_now t) = Inr w
      \<and> fst ?s' = publish (fst s) w"
    then obtain w where w: "current (fst (snd ?s')) = Some w" "fst ?s' = publish h w"
      using usable_current s refresh_tick_cases(1) [of E s t] by auto
    have "not_older v w" if "rh_current h = Some v" for v
      using old [OF that] cache_below_current [OF _ step(1) _ _ w(1)] unfolding not_older_def by blast
    moreover have "relay_inv E ?s'" using relay_inv_published [OF step(1) w(1), of h] w(2) by (metis prod.collapse)
    ultimately show ?thesis using w(2) step(2) s by (simp add: relay_below_def publish_def)
  qed
qed

interpretation relay_reg: event_system "refresh_tick E" "relay_inv E" "relay_below E" for E
  by unfold_locales (use refresh_tick_ok relay_below_refl relay_below_trans in blast)+

lemma handle_usable_inv:
  assumes "relay_inv E (h, c, fs)" "handle_usable h now = Some v"
  shows "(\<exists>body. endorsed E body (cache_pinned c) (cache_threshold c) v) \<and> is_usable_at (ver_document v) now = Inr True"
proof -
  have v: "rh_current h = Some v" "is_usable_at (ver_document v) now = Inr True"
    using assms(2) by (auto simp: handle_usable_def split: if_splits option.splits sum.splits bool.splits)
  then obtain cf0 where cf0: "cache_inv E cf0" "current (fst cf0) = Some v" "cache_below E cf0 (c, fs)"
    using assms(1) by (auto simp: relay_inv_def)
  then have "cache_pinned (fst cf0) = cache_pinned c" "cache_threshold (fst cf0) = cache_threshold c"
    by (auto simp: cache_below_def same_config_def split: prod.splits)
  with cache_inv_current [OF cf0(1,2)] v(2) show ?thesis by metis
qed

section \<open>A relay that listens has a verified registry\<close>

definition is_bind :: "boot_action \<Rightarrow> bool" where
  "is_bind a \<longleftrightarrow> a = BindPort80 \<or> (\<exists>p. a = BindRelay p) \<or> (\<exists>m. a = BindMetrics m)"

text \<open>The state directory is empty or holds what an earlier run of this relay left there.\<close>

definition intact_state :: "reg_env \<Rightarrow> RelayConfig \<Rightarrow> file_sys \<Rightarrow> bool" where
  "intact_state E cfg fs \<longleftrightarrow>
     (case cache_new (cfg_registry_url cfg) (registry_state_dir cfg) (registry_signing_pubkeys cfg) 1 of
        Inl _ \<Rightarrow> True | Inr cache \<Rightarrow> cache_inv E (cache, fs))"

lemma boot_registry_Inr:
  assumes "boot_registry E cfg fs = (Inr (h, c), fs')" "intact_state (bo_reg E) cfg fs"
  shows "\<exists>v. h = publish handle_new v \<and> usable c (bo_check_now E) = Inr v" "relay_inv (bo_reg E) (h, c, fs')"
    "cache_pinned c = registry_signing_pubkeys cfg" "cache_threshold c = 1"
proof -
  obtain cache v where c: "cache_new (cfg_registry_url cfg) (registry_state_dir cfg) (registry_signing_pubkeys cfg) 1 = Inr cache"
    "prime (bo_reg E) (bo_read_fails E) (bo_io E) (bo_registry E) (bo_prime_now E) (cache, fs) = (Inr (), c, fs')"
    "usable c (bo_check_now E) = Inr v" "h = publish handle_new v"
    using assms(1) by (auto simp: boot_registry_def split: sum.splits prod.splits)
  then have inv: "cache_inv (bo_reg E) (cache, fs)" using assms(2) by (simp add: intact_state_def)
  from prime_ok [OF inv c(2)] have step: "cache_inv (bo_reg E) (c, fs')" "cache_below (bo_reg E) (cache, fs) (c, fs')"
    by (simp_all add: step_ok_def)
  show "relay_inv (bo_reg E) (h, c, fs')"
    using relay_inv_published [OF step(1), of v handle_new] usable_current [OF c(3)] c(4) by simp
  show "\<exists>v. h = publish handle_new v \<and> usable c (bo_check_now E) = Inr v" using c(3,4) by blast
  show "cache_pinned c = registry_signing_pubkeys cfg" "cache_threshold c = 1"
    using step(2) c(1) by (auto simp: cache_below_def same_config_def cache_new_def split: if_splits)
qed

lemma start_tasks_Inr: "start_tasks E p fs = (Inr p', acts, fs') \<Longrightarrow> p' = p \<and> fs' = fs"
  by (auto simp: start_tasks_def Let_def split: prod.splits if_splits)

lemma start_tasks_fs: "start_tasks E p fs = (r, acts, fs') \<Longrightarrow> fs' = fs"
  by (auto simp: start_tasks_def Let_def split: prod.splits if_splits)

lemma boot_serve_reached:
  assumes "boot_serve E fs = (r, acts, fs')" "acts \<noteq> [] \<or> (\<exists>p. r = Inr p)"
  obtains cfg kp key h c where
    "from_source (bo_reg E) (bo_read_file E) (bo_parse_url E) (bo_get E) = Inr cfg"
    "load_key (bo_snow E) (fst (bo_seeds E)) (snd (bo_seeds E)) (bo_load_fault E) (static_key_path cfg) fs = Inr kp"
    "fetch_and_pin (bo_parse_url E) (bo_http_builds E) (bo_get_pubkey E) (bo_spki_pem E) (bo_pkcs1_pem E) (authority_pubkey_url cfg) = Inr key"
    "boot_registry E cfg fs = (Inr (h, c), fs')"
    "\<forall>p. r = Inr p \<longrightarrow> p = \<lparr>rp_ctx = \<lparr>cc_cfg = cfg, cc_authority = key, cc_static_key = kp\<rparr>,
       rp_replay = window_new (replay_window_ttl cfg), rp_handle = h, rp_cache = c\<rparr>"
  using assms start_tasks_fs by (fastforce simp: boot_serve_def split: sum.splits if_splits prod.splits dest: start_tasks_Inr)

lemma boot_served:
  assumes "boot E fs = (r, acts, fs')" "(\<exists>a. a \<in> set acts \<and> is_bind a) \<or> (\<exists>p. r = Inr p)"
  shows "boot_serve E fs = (r, acts, fs')" "acts \<noteq> [] \<or> (\<exists>p. r = Inr p)"
  using assms by (auto simp: boot_def run_keygen_def is_bind_def split: list.splits if_splits prod.splits sum.splits option.splits)

lemma boot_running:
  assumes "boot E fs = (Inr p, acts, fs')" "\<forall>cfg. from_source (bo_reg E) (bo_read_file E) (bo_parse_url E) (bo_get E) = Inr cfg \<longrightarrow> intact_state (bo_reg E) cfg fs"
  shows "relay_inv (bo_reg E) (rp_handle p, rp_cache p, fs')"
    "cache_pinned (rp_cache p) = registry_signing_pubkeys (cc_cfg (rp_ctx p))" "cache_threshold (rp_cache p) = 1"
proof -
  have "boot_serve E fs = (Inr p, acts, fs')" using boot_served [OF assms(1)] by blast
  then obtain cfg kp key h c where "from_source (bo_reg E) (bo_read_file E) (bo_parse_url E) (bo_get E) = Inr cfg"
    "boot_registry E cfg fs = (Inr (h, c), fs')" "p = \<lparr>rp_ctx = \<lparr>cc_cfg = cfg, cc_authority = key, cc_static_key = kp\<rparr>,
       rp_replay = window_new (replay_window_ttl cfg), rp_handle = h, rp_cache = c\<rparr>"
    by (rule boot_serve_reached) auto
  with boot_registry_Inr [of E cfg fs h c fs'] assms(2)
  show "relay_inv (bo_reg E) (rp_handle p, rp_cache p, fs')"
    "cache_pinned (rp_cache p) = registry_signing_pubkeys (cc_cfg (rp_ctx p))" "cache_threshold (rp_cache p) = 1"
    by simp_all
qed

lemma refreshed_usable:
  assumes "relay_inv E (h, c, fs)" "cache_pinned c = keys" "cache_threshold c = t"
    and "handle_usable (fst (foldl (refresh_tick E) (h, c, fs) ts)) now = Some v"
  shows "is_usable_at (ver_document v) now = Inr True \<and> (\<exists>body. endorsed E body keys t v)"
proof -
  obtain h' c' fs' where run: "foldl (refresh_tick E) (h, c, fs) ts = (h', c', fs')" by (metis prod.exhaust)
  have "relay_inv E (h', c', fs')" "relay_below E (h, c, fs) (h', c', fs')"
    using relay_reg.run_inv [OF assms(1), of ts] relay_reg.run_below [OF assms(1), of ts] run by simp_all
  moreover from this(2) have "cache_pinned c' = keys" "cache_threshold c' = t"
    using assms(2,3) by (auto simp: relay_below_def cache_below_def same_config_def)
  ultimately show ?thesis using handle_usable_inv [of E h' c' fs' now v] assms(4) run by auto
qed

lemma handle_usable_current: "handle_usable h now = Some v \<Longrightarrow> rh_current h = Some v"
  by (auto simp: handle_usable_def split: if_splits option.splits sum.splits bool.splits)

lemma refreshed_not_older:
  assumes "relay_inv E s" "handle_usable (fst (foldl (refresh_tick E) s ts)) now = Some v"
    and "handle_usable (fst (foldl (refresh_tick E) s (ts @ ts'))) now' = Some w"
  shows "not_older v w"
  using relay_reg.run_prefix_below [OF assms(1), of ts ts'] handle_usable_current [OF assms(2)] handle_usable_current [OF assms(3)]
  by (auto simp: relay_below_def)

text \<open>
  C22: A relay serves only from a verified registry, from its first listener to its last refresh. It
  binds no port unless its configuration was accepted, its static key loaded, the authority's key
  pinned and a registry document endorsed by a pinned key found usable. After startup and any number
  of wake-ups of the refresh task, whatever they fetch, the document a handler can get from the
  handle is inside its validity window and endorsed, and a document obtained later is never older.
\<close>

theorem relay_serves_from_verified_registry:
  assumes "boot E fs = (r, acts, fs')" "\<forall>cfg. from_source (bo_reg E) (bo_read_file E) (bo_parse_url E) (bo_get E) = Inr cfg \<longrightarrow> intact_state (bo_reg E) cfg fs"
  shows "((\<exists>a. a \<in> set acts \<and> is_bind a) \<longrightarrow>
      (\<exists>cfg kp key v body. from_source (bo_reg E) (bo_read_file E) (bo_parse_url E) (bo_get E) = Inr cfg
        \<and> load_key (bo_snow E) (fst (bo_seeds E)) (snd (bo_seeds E)) (bo_load_fault E) (static_key_path cfg) fs = Inr kp
        \<and> fetch_and_pin (bo_parse_url E) (bo_http_builds E) (bo_get_pubkey E) (bo_spki_pem E) (bo_pkcs1_pem E) (authority_pubkey_url cfg) = Inr key
        \<and> endorsed (bo_reg E) body (registry_signing_pubkeys cfg) 1 v \<and> is_usable_at (ver_document v) (bo_check_now E) = Inr True))
    \<and> (\<forall>p ts ts' now v. r = Inr p \<longrightarrow>
        handle_usable (fst (foldl (refresh_tick (bo_reg E)) (rp_handle p, rp_cache p, fs') ts)) now = Some v \<longrightarrow>
        is_usable_at (ver_document v) now = Inr True
        \<and> (\<exists>body. endorsed (bo_reg E) body (registry_signing_pubkeys (cc_cfg (rp_ctx p))) 1 v)
        \<and> (\<forall>now' w. handle_usable (fst (foldl (refresh_tick (bo_reg E)) (rp_handle p, rp_cache p, fs') (ts @ ts'))) now' = Some w
             \<longrightarrow> not_older v w))"
proof (intro conjI impI allI)
  assume "\<exists>a. a \<in> set acts \<and> is_bind a"
  then have "boot_serve E fs = (r, acts, fs')" "acts \<noteq> [] \<or> (\<exists>p. r = Inr p)" using boot_served [OF assms(1)] by blast+
  then obtain cfg kp key h c where b:
    "from_source (bo_reg E) (bo_read_file E) (bo_parse_url E) (bo_get E) = Inr cfg"
    "load_key (bo_snow E) (fst (bo_seeds E)) (snd (bo_seeds E)) (bo_load_fault E) (static_key_path cfg) fs = Inr kp"
    "fetch_and_pin (bo_parse_url E) (bo_http_builds E) (bo_get_pubkey E) (bo_spki_pem E) (bo_pkcs1_pem E) (authority_pubkey_url cfg) = Inr key"
    "boot_registry E cfg fs = (Inr (h, c), fs')" by (rule boot_serve_reached)
  note reg = boot_registry_Inr [OF b(4) assms(2) [rule_format, OF b(1)]]
  from reg(1) obtain v where v: "h = publish handle_new v" "usable c (bo_check_now E) = Inr v" by blast
  then have "handle_usable h (bo_check_now E) = Some v"
    using usable_current [OF v(2)] by (simp add: handle_usable_def publish_def handle_new_def)
  from handle_usable_inv [OF reg(2) this] obtain body where "endorsed (bo_reg E) body (registry_signing_pubkeys cfg) 1 v"
    "is_usable_at (ver_document v) (bo_check_now E) = Inr True" unfolding reg(3,4) by blast
  with b(1-3) show "\<exists>cfg kp key v body. from_source (bo_reg E) (bo_read_file E) (bo_parse_url E) (bo_get E) = Inr cfg
        \<and> load_key (bo_snow E) (fst (bo_seeds E)) (snd (bo_seeds E)) (bo_load_fault E) (static_key_path cfg) fs = Inr kp
        \<and> fetch_and_pin (bo_parse_url E) (bo_http_builds E) (bo_get_pubkey E) (bo_spki_pem E) (bo_pkcs1_pem E) (authority_pubkey_url cfg) = Inr key
        \<and> endorsed (bo_reg E) body (registry_signing_pubkeys cfg) 1 v \<and> is_usable_at (ver_document v) (bo_check_now E) = Inr True"
    by blast
next
  fix p :: relay_process and ts ts' now v
  let ?run = "\<lambda>ts. foldl (refresh_tick (bo_reg E)) (rp_handle p, rp_cache p, fs') ts"
  assume p: "r = Inr p" and use: "handle_usable (fst (?run ts)) now = Some v"
  note run = boot_running [OF assms(1) [unfolded p] assms(2)]
  show "is_usable_at (ver_document v) now = Inr True"
    "\<exists>body. endorsed (bo_reg E) body (registry_signing_pubkeys (cc_cfg (rp_ctx p))) 1 v"
    using refreshed_usable [OF run use] by blast+
  show "not_older v w" if "handle_usable (fst (?run (ts @ ts'))) now' = Some w" for now' w
    using refreshed_not_older [OF run(1) use that] .
qed

text \<open>
  An exit relay that boots: the sample configuration, a registry signed by the key it pins, and a
  static key file of the right length and mode.
\<close>

definition boot_envelope :: Envelope where
  "boot_envelope = \<lparr>env_document = ''d'', signatures = [\<lparr>sig_key_id = key_id zero_key, sig = sample_sig\<rparr>]\<rparr>"

definition boot_verified :: Verified where
  "boot_verified = \<lparr>ver_document = sample_doc, ver_bytes = as_bytes ''d'', ver_key_ids = [key_id zero_key]\<rparr>"

definition boot_state :: RegistryState where
  "boot_state = \<lparr>highest_version = 497606, document_b64 = ''d'', state_key_ids = [key_id zero_key], envelope_b64 = Some ''e''\<rparr>"

definition boot_reg :: reg_env where
  "boot_reg = sample_env\<lparr>json_envelope := \<lambda>b. if b = as_bytes ''e'' then Some boot_envelope else None,
     json_state := \<lambda>b. if b = [1] then Some boot_state else None, json_of_state := \<lambda>s. if s = boot_state then Some [1] else None\<rparr>"

definition sample_boot :: "(unit, nat, nat \<times> nat) boot_env" where
  "sample_boot = \<lparr>bo_args = [], bo_get = sample_get, bo_read_file = \<lambda>_. None, bo_parse_url = \<lambda>_. Some sample_url, bo_reg = boot_reg,
     bo_snow = plain_snow, bo_seeds = (0, 0), bo_umask = 18, bo_keygen_fault = KeygenRuns, bo_load_fault = LoadRuns,
     bo_http_builds = True, bo_get_pubkey = \<lambda>_ _. Reply 200 (Some ''k''), bo_spki_pem = \<lambda>_. Some toy_key, bo_pkcs1_pem = \<lambda>_. None,
     bo_acme_ok = True, bo_addable = (\<lambda>_. True), bo_certs = [''ca''], bo_read_fails = False, bo_io = no_faults,
     bo_registry = Response 200 (Some (as_bytes ''e'')), bo_prime_now = 1791383400, bo_check_now = 1791383400,
     bo_binds = \<lambda>_. True, bo_hb_builds = True\<rparr>"

definition boot_fs :: file_sys where
  "boot_fs = Map.empty(''/opt/quiethop/secrets/static.key'' \<mapsto> (384, replicate 64 1))"

lemma key_pieces_cong:
  assumes "pinned_from_hex E = pinned_from_hex E'" shows "key_pieces E ps out = key_pieces E' ps out"
  by (induction ps arbitrary: out) (simp_all add: assms Let_def)

lemma boot_config: "from_source boot_reg (\<lambda>_. None) (\<lambda>_. Some sample_url) sample_get = Inr sample_config"
proof -
  have "pinned_from_bytes boot_reg = pinned_from_bytes sample_env"
    by (simp add: fun_eq_iff pinned_from_bytes_def key_id_for_def boot_reg_def)
  then have "pinned_from_hex boot_reg = pinned_from_hex sample_env"
    by (intro ext) (simp add: pinned_from_hex_def)
  then have "parse_pinned_keys boot_reg = parse_pinned_keys sample_env"
    using key_pieces_cong [of boot_reg sample_env] by (simp add: fun_eq_iff parse_pinned_keys_def)
  then show ?thesis using sample_config_accepted by (simp add: from_source_def)
qed

lemma boot_verify: "verify boot_reg (as_bytes ''e'') [zero_key] 1 1791383400 None = Inr boot_verified"
proof -
  have env: "json_envelope boot_reg (as_bytes ''e'') = Some boot_envelope" "b64_decode boot_reg ''d'' = Some (as_bytes ''d'')"
    "json_document boot_reg (as_bytes ''d'') = Some sample_doc"
    by (simp_all add: boot_reg_def sample_env_def)
  have "accepted_keys boot_reg [zero_key] msg (signatures boot_envelope) = {key_id zero_key}" for msg
    by (simp add: accepted_keys_def accept_signature_def boot_envelope_def boot_reg_def sample_env_def zero_key_def
        sample_sig_def SIGNATURE_LENGTH_def)
  then have "endorsed boot_reg (as_bytes ''e'') [zero_key] 1 boot_verified"
    by (simp add: endorsed_def env boot_verified_def) (simp add: boot_envelope_def env)
  then show ?thesis using sample_accepts(1,3,4) by (simp add: verify_Inr not_rolled_back_def boot_verified_def)
qed

definition boot_process :: relay_process where
  "boot_process = \<lparr>rp_ctx = \<lparr>cc_cfg = sample_config, cc_authority = toy_key,
       cc_static_key = \<lparr>kp_public = replicate 32 1, kp_private = replicate 32 1\<rparr>\<rparr>,
     rp_replay = window_new 86400, rp_handle = publish handle_new boot_verified,
     rp_cache = \<lparr>cache_url = ''u'', cache_dir = ''/opt/quiethop/state'', cache_pinned = [zero_key], cache_threshold = 1,
       current = Some boot_verified\<rparr>\<rparr>"

lemma boot_empty_state: "boot_fs (state_path ''/opt/quiethop/state'') = None" "boot_fs (tmp_path ''/opt/quiethop/state'') = None"
  by (simp_all add: boot_fs_def state_path_def tmp_path_def path_join_def)

lemma sample_boot_registry:
  "\<exists>fs. boot_registry sample_boot sample_config boot_fs = (Inr (rp_handle boot_process, rp_cache boot_process), fs)"
proof -
  let ?c = "\<lparr>cache_url = ''u'', cache_dir = ''/opt/quiethop/state'', cache_pinned = [zero_key], cache_threshold = 1, current = None\<rparr>"
  have new: "cache_new ''u'' ''/opt/quiethop/state'' [zero_key] 1 = Inr ?c" by (simp add: cache_new_def)
  have "json_of_state boot_reg (state_of boot_reg boot_verified (as_bytes ''e'')) = Some [1]"
    by (simp add: boot_reg_def sample_env_def state_of_def boot_verified_def boot_state_def sample_doc_def)
  with accept_first [of boot_reg "as_bytes ''e''" ?c 1791383400 boot_verified "[1]" boot_fs] boot_verify boot_empty_state
  obtain fs where acc: "accept_body boot_reg no_faults (as_bytes ''e'') 1791383400 (?c, boot_fs) = (Inr (), ?c\<lparr>current := Some boot_verified\<rparr>, fs)"
    by simp
  have "reuse_stored boot_reg False 1791383400 ?c boot_fs = None"
    by (simp add: reuse_stored_def load_state_def boot_empty_state)
  then have "prime boot_reg False no_faults (Response 200 (Some (as_bytes ''e''))) 1791383400 (?c, boot_fs) =
      (Inr (), ?c\<lparr>current := Some boot_verified\<rparr>, fs)"
    using acc by (simp add: prime_def fetch_def)
  moreover have "is_usable_at (ver_document boot_verified) 1791383400 = Inr True"
    using is_usable_at_Inr [OF sample_accepts(1)] sample_accepts(4) by (simp add: boot_verified_def)
  ultimately show ?thesis
    by (simp add: boot_registry_def sample_boot_def sample_config_def new [unfolded One_nat_def] usable_def boot_process_def)
qed

lemma sample_boot_fields:
  "bo_args sample_boot = []" "bo_get sample_boot = sample_get" "bo_read_file sample_boot = (\<lambda>_. None)"
  "bo_parse_url sample_boot = (\<lambda>_. Some sample_url)" "bo_reg sample_boot = boot_reg" "bo_snow sample_boot = plain_snow"
  "bo_seeds sample_boot = (0, 0)" "bo_load_fault sample_boot = LoadRuns" "bo_http_builds sample_boot"
  "bo_get_pubkey sample_boot = (\<lambda>_ _. Reply 200 (Some ''k''))" "bo_spki_pem sample_boot = (\<lambda>_. Some toy_key)"
  "bo_pkcs1_pem sample_boot = (\<lambda>_. None)" "bo_acme_ok sample_boot"
  "outbound_connector (bo_addable sample_boot) (bo_certs sample_boot) = Inr [''ca'']"
  by (simp_all add: sample_boot_def outbound_connector_def)

lemma sample_boot_runs:
  "\<exists>fs. boot sample_boot boot_fs = (Inr boot_process,
     [BindRelay 9001, BindMetrics (SockV4 [127, 0, 0, 1] 9091), BindPort80, SpawnHeartbeat (pubkey_hex (replicate 32 1)),
      SpawnAccept, SpawnMetrics, SpawnRedirect ''r''], fs)"
proof -
  have "load_key plain_snow 0 0 LoadRuns ''/opt/quiethop/secrets/static.key'' boot_fs =
      Inr \<lparr>kp_public = replicate 32 1, kp_private = replicate 32 1\<rparr>"
    using from_parts_matches [OF plain_handshake_laws TrueI, of 0 0 "replicate 32 1" "replicate 32 1"]
    by (simp add: load_key_def boot_fs_def REQUIRED_MODE_def KEY_FILE_LEN_def wire_defs)
  moreover have "fetch_and_pin (\<lambda>_. Some sample_url) True (\<lambda>_ _. Reply 200 (Some ''k'')) (\<lambda>_. Some toy_key) (\<lambda>_. None) ''a'' = Inr toy_key"
    using trim_graphic [of "''k''"] by (simp add: fetch_and_pin_def parse_pubkey_def is_success_def graphic_def)
  moreover obtain fs where "boot_registry sample_boot sample_config boot_fs = (Inr (rp_handle boot_process, rp_cache boot_process), fs)"
    using sample_boot_registry by blast
  moreover have "start_tasks sample_boot boot_process fs = (Inr boot_process,
     [BindRelay 9001, BindMetrics (SockV4 [127, 0, 0, 1] 9091), BindPort80, SpawnHeartbeat (pubkey_hex (replicate 32 1)),
      SpawnAccept, SpawnMetrics, SpawnRedirect ''r''], fs)"
    by (simp add: start_tasks_def sample_boot_def boot_process_def sample_config_def)
  moreover have "static_key_path sample_config = ''/opt/quiethop/secrets/static.key''" "authority_pubkey_url sample_config = ''a''"
    "\<lparr>rp_ctx = \<lparr>cc_cfg = sample_config, cc_authority = toy_key,
        cc_static_key = \<lparr>kp_public = replicate 32 1, kp_private = replicate 32 1\<rparr>\<rparr>,
      rp_replay = window_new (replay_window_ttl sample_config), rp_handle = rp_handle boot_process, rp_cache = rp_cache boot_process\<rparr> = boot_process"
    by (simp_all add: sample_config_def boot_process_def)
  ultimately show ?thesis
    using boot_config by (simp add: boot_def boot_serve_def sample_boot_fields)
qed

theorem relay_serves_from_verified_registry_witness:
  "\<exists>p acts fs v body. boot sample_boot boot_fs = (Inr p, acts, fs) \<and> BindRelay 9001 \<in> set acts
     \<and> handle_usable (rp_handle p) 1791383400 = Some v \<and> endorsed boot_reg body [zero_key] 1 v"
proof -
  obtain acts fs where run: "boot sample_boot boot_fs = (Inr boot_process, acts, fs)" "BindRelay 9001 \<in> set acts"
    using sample_boot_runs by fastforce
  have "reg_env_laws boot_reg" by (simp add: reg_env_laws_def boot_reg_def sample_env_def)
  then have "intact_state boot_reg sample_config boot_fs"
    using cache_inv_start boot_empty_state by (simp add: intact_state_def cache_new_def sample_config_def)
  then have intact: "\<forall>cfg. from_source (bo_reg sample_boot) (bo_read_file sample_boot) (bo_parse_url sample_boot) (bo_get sample_boot) = Inr cfg
      \<longrightarrow> intact_state (bo_reg sample_boot) cfg boot_fs"
    using boot_config by (simp add: sample_boot_fields)
  have use: "handle_usable (rp_handle boot_process) 1791383400 = Some boot_verified"
    using iffD2 [OF is_usable_at_Inr [OF sample_accepts(1)] sample_accepts(4)]
    by (simp add: handle_usable_def boot_process_def publish_def handle_new_def boot_verified_def)
  note conjunct2 [OF relay_serves_from_verified_registry [OF run(1) intact], rule_format, of boot_process "[]" 1791383400 boot_verified "[]"]
  with use obtain body where "endorsed boot_reg body [zero_key] 1 boot_verified"
    by (auto simp: sample_boot_fields boot_process_def sample_config_def)
  with run use show ?thesis by blast
qed

end
