(* ===== verification/Relay_Http.thy ===== *)
theory Relay_Http
  imports Effects Rust_Text Token
begin

text \<open>
  The relay's two small HTTP responders: the redirector on port 80 (\<^verbatim>\<open>relay/src/port80.rs\<close>) and the
  metrics endpoint (\<^verbatim>\<open>relay/src/metrics.rs\<close>). A connection is its list of arrivals; running out of
  arrivals is where the read timeout fires. The Prometheus encoder is an argument.
\<close>

section \<open>Common parts\<close>

datatype http_stop = HttpIo IoError | HttpTimedOut | HttpInvalid string

datatype http_action = ToHttp bytes | HttpShutdown

definition MAX_REQUEST_HEAD :: nat where
  "MAX_REQUEST_HEAD = 4096"

definition crlf :: string where
  "crlf = [CHR 0x0D, CHR 0x0A]"

fun has_window :: "'a list \<Rightarrow> 'a list \<Rightarrow> bool" where
  "has_window w [] \<longleftrightarrow> w = []"
| "has_window w (x # xs) \<longleftrightarrow> take (length w) (x # xs) = w \<or> has_window w xs"

section \<open>The redirector\<close>

function redirect_read :: "bytes \<Rightarrow> arrival list \<Rightarrow> http_stop + bytes" where
  "redirect_read buf inn =
     (if length buf \<ge> MAX_REQUEST_HEAD then Inr buf
      else case read_some (MAX_REQUEST_HEAD - length buf) inn of
        (Pending, _) \<Rightarrow> Inl HttpTimedOut
      | (Failed e, _) \<Rightarrow> Inl (HttpIo e)
      | (Ready got, inn') \<Rightarrow>
          if got = [] then Inr buf
          else let buf' = buf @ got in
            if has_window [13, 10, 13, 10] buf' then Inr buf'
            else if 10 \<in> set buf' then Inr buf'
            else redirect_read buf' inn')"
  by pat_completeness auto
termination
  by (relation "measure (\<lambda>(buf, inn). MAX_REQUEST_HEAD - length buf)")
    (auto simp: diff_less_mono2 simp flip: length_greater_0_conv)

declare redirect_read.simps [simp del]

definition first_line :: "bytes \<Rightarrow> bytes" where
  "first_line buf =
     (let line = takeWhile (\<lambda>b. b \<noteq> 10) buf in if line \<noteq> [] \<and> last line = 13 then butlast line else line)"

definition printable :: "bytes \<Rightarrow> bool" where
  "printable target \<longleftrightarrow> list_all (\<lambda>b. 0x21 \<le> b \<and> b \<le> 0x7e) target"

definition parse_request_path :: "bytes \<Rightarrow> string" where
  "parse_request_path buf =
     (let target = (case split_at (\<lambda>b. b = 32) (first_line buf) of _ # t # _ \<Rightarrow> t | _ \<Rightarrow> as_bytes ''/'') in
      if \<not> printable target then ''/''
      else case from_utf8 target of Some s \<Rightarrow> s | None \<Rightarrow> ''/'')"

definition redirect_head :: "string \<Rightarrow> string \<Rightarrow> string" where
  "redirect_head hostname path =
     ''HTTP/1.1 301 Moved Permanently'' @ crlf @
     ''Location: https://'' @ hostname @ path @ crlf @
     ''Content-Type: text/plain; charset=utf-8'' @ crlf @
     ''Content-Length: 21'' @ crlf @
     ''Connection: close'' @ crlf @ crlf"

definition redirect_body :: string where
  "redirect_body = ''Redirecting to HTTPS'' @ [CHR 0x0A]"

definition serve_redirect :: "string \<Rightarrow> arrival list \<Rightarrow> (http_action, http_stop, unit) proc" where
  "serve_redirect hostname inn =
     bind (lift (redirect_read [] inn)) (\<lambda>buf.
     bind (write_all HttpIo (ToHttp (as_bytes (redirect_head hostname (parse_request_path buf))))) (\<lambda>_.
     bind (write_all HttpIo (ToHttp (as_bytes redirect_body))) (\<lambda>_.
       write_all HttpIo HttpShutdown)))"

section \<open>The metrics endpoint\<close>

record token_counters =
  verified_total :: nat
  rejected_total :: "string \<Rightarrow> nat"

definition record_verified :: "token_counters \<Rightarrow> token_counters" where
  "record_verified m = m\<lparr>verified_total := verified_total m + 1\<rparr>"

fun rejection_reason :: "TokenError \<Rightarrow> string" where
  "rejection_reason InvalidSignature = ''invalid_signature''"
| "rejection_reason Replayed = ''replayed''"
| "rejection_reason TokenTooShort = ''token_too_short''"

definition record_rejected :: "TokenError \<Rightarrow> token_counters \<Rightarrow> token_counters" where
  "record_rejected e m = m\<lparr>rejected_total := (rejected_total m)(rejection_reason e := rejected_total m (rejection_reason e) + 1)\<rparr>"

function metrics_read :: "bytes \<Rightarrow> arrival list \<Rightarrow> http_stop + bytes" where
  "metrics_read buf inn =
     (case read_some (MAX_REQUEST_HEAD - length buf) inn of
        (Pending, _) \<Rightarrow> Inl HttpTimedOut
      | (Failed e, _) \<Rightarrow> Inl (HttpIo e)
      | (Ready got, inn') \<Rightarrow>
          if got = [] then Inr buf
          else let buf' = buf @ got in
            if has_window [13, 10] buf' then Inr buf'
            else if length buf' \<ge> MAX_REQUEST_HEAD then Inl (HttpInvalid ''request line exceeds buffer'')
            else metrics_read buf' inn')"
  by pat_completeness auto
termination
  by (relation "measure (\<lambda>(buf, inn). MAX_REQUEST_HEAD - length buf)")
    (auto simp: diff_less_mono2 simp flip: length_greater_0_conv)

declare metrics_read.simps [simp del]

fun before_crlf :: "bytes \<Rightarrow> bytes option" where
  "before_crlf (a # b # bs) = (if a = 13 \<and> b = 10 then Some [] else map_option ((#) a) (before_crlf (b # bs)))"
| "before_crlf _ = None"

definition read_request_path :: "arrival list \<Rightarrow> http_stop + string" where
  "read_request_path inn =
     and_then (metrics_read [] inn) (\<lambda>head.
     and_then (ok_or (HttpInvalid ''no request line'') (before_crlf head)) (\<lambda>raw.
     and_then (ok_or (HttpInvalid ''non-utf8 request line'') (from_utf8 raw)) (\<lambda>line.
       case split_at (\<lambda>c. c = CHR '' '') line of
         _ # path # _ \<Rightarrow> Inr path
       | _ \<Rightarrow> Inl (HttpInvalid ''missing path''))))"

definition metrics_serve :: "string \<Rightarrow> (token_counters \<Rightarrow> http_stop + bytes) \<Rightarrow> token_counters \<Rightarrow> arrival list \<Rightarrow>
    (http_action, http_stop, unit) proc" where
  "metrics_serve format_type enc m inn =
     (case read_request_path inn of
        Inl e \<Rightarrow>
          (\<lambda>s. let s = snd (write_all HttpIo (ToHttp (as_bytes
                 (''HTTP/1.1 400 Bad Request'' @ crlf @ ''Content-Length: 0'' @ crlf @ ''Connection: close'' @ crlf @ crlf))) s)
               in (Inl e, snd (write_all HttpIo HttpShutdown s)))
      | Inr path \<Rightarrow>
          bind (if path = ''/metrics''
                then bind (lift (enc m)) (\<lambda>body.
                  bind (write_all HttpIo (ToHttp (as_bytes
                    (''HTTP/1.1 200 OK'' @ crlf @ ''Content-Type: '' @ format_type @ crlf @ ''Content-Length: '' @ show_nat (length body)
                     @ crlf @ ''Connection: close'' @ crlf @ crlf)))) (\<lambda>_.
                  write_all HttpIo (ToHttp body)))
                else write_all HttpIo (ToHttp (as_bytes
                  (''HTTP/1.1 404 Not Found'' @ crlf @ ''Content-Length: 0'' @ crlf @ ''Connection: close'' @ crlf @ crlf)))) (\<lambda>_.
            write_all HttpIo HttpShutdown))"

section \<open>Reading the request line\<close>

fun data_chunk :: "arrival \<Rightarrow> bool" where
  "data_chunk (Chunk bs) \<longleftrightarrow> bs \<noteq> []"
| "data_chunk _ \<longleftrightarrow> False"

lemma has_window_subset: "has_window w xs \<Longrightarrow> set w \<subseteq> set xs"
proof (induction xs)
  case (Cons x xs)
  then show ?case using set_take_subset [of "length w" "x # xs"] by auto
qed simp

text \<open>However the bytes of the request line are cut into arrivals, the loop ends with a buffer that holds it.\<close>

lemma redirect_read_line:
  assumes "list_all data_chunk inn" "10 \<notin> set buf" "10 \<in> set (take (MAX_REQUEST_HEAD - length buf) (inner_bytes inn))"
  shows "\<exists>out. redirect_read buf inn = Inr out \<and> takeWhile (\<lambda>b. b \<noteq> 10) out = takeWhile (\<lambda>b. b \<noteq> 10) (buf @ inner_bytes inn)"
  using assms
proof (induction buf inn rule: redirect_read.induct)
  case (1 buf inn)
  let ?room = "MAX_REQUEST_HEAD - length buf"
  obtain bs rest where inn: "inn = Chunk bs # rest" "bs \<noteq> []" "list_all data_chunk rest"
    using "1.prems"(1,3) by (cases inn; cases "hd inn") auto
  have room: "\<not> MAX_REQUEST_HEAD \<le> length buf" using "1.prems"(3) by (cases "MAX_REQUEST_HEAD \<le> length buf") auto
  let ?got = "take ?room bs" and ?inn = "if length bs \<le> ?room then rest else Chunk (drop ?room bs) # rest"
  have got: "?got \<noteq> []" using inn(2) room by simp
  have bytes: "inner_bytes inn = ?got @ inner_bytes ?inn" using inn(1) by simp
  show ?case
  proof (cases "10 \<in> set ?got")
    case True
    then have "redirect_read buf inn = Inr (buf @ ?got)"
      using room got inn(1) by (simp add: redirect_read.simps Let_def)
    moreover have "takeWhile (\<lambda>b. b \<noteq> 10) (buf @ ?got) = takeWhile (\<lambda>b. b \<noteq> 10) ((buf @ ?got) @ inner_bytes ?inn)"
      using True by (intro takeWhile_append1 [symmetric, of 10]) auto
    ultimately show ?thesis unfolding bytes by simp
  next
    case False
    then have none: "10 \<notin> set (buf @ ?got)" using "1.prems"(2) by simp
    then have win: "\<not> has_window [13, 10, 13, 10] (buf @ ?got)" using has_window_subset [of "[13, 10, 13, 10]" "buf @ ?got"] by auto
    then have step: "redirect_read buf inn = redirect_read (buf @ ?got) ?inn"
      using room got inn(1) none by (subst redirect_read.simps) (simp add: Let_def)
    have "list_all data_chunk ?inn" using inn(3) by simp
    moreover have "10 \<in> set (take (MAX_REQUEST_HEAD - length (buf @ ?got)) (inner_bytes ?inn))"
      using "1.prems"(3) False unfolding bytes by (auto simp: take_append)
    moreover have "(Ready ?got, ?inn) = read_some ?room inn" using inn(1) by simp
    ultimately have "\<exists>out. redirect_read (buf @ ?got) ?inn = Inr out
        \<and> takeWhile (\<lambda>b. b \<noteq> 10) out = takeWhile (\<lambda>b. b \<noteq> 10) ((buf @ ?got) @ inner_bytes ?inn)"
      using "1.IH" [OF room _ refl got refl win none] none by blast
    then show ?thesis unfolding step bytes by simp
  qed
qed

lemma printable_simps:
  assumes "printable bs" shows "10 \<notin> set bs" "13 \<notin> set bs" "32 \<notin> set bs" "0 \<notin> set bs"
  using assms by (auto simp: printable_def list_all_iff)

lemma printable_utf8: "printable bs \<Longrightarrow> from_utf8 bs = Some (of_bytes bs)"
proof -
  assume "printable bs"
  then have "utf8_valid (map unat bs)"
  proof (induction bs)
    case (Cons b bs)
    then have "b \<le> 0x7e" by (simp add: printable_def)
    then have "unat b < 128" by (simp add: word_le_nat_alt)
    with Cons show ?case by (simp add: printable_def)
  qed simp
  then show ?thesis by (simp add: from_utf8_def)
qed

lemma parse_request_path_printable: "printable (as_bytes (parse_request_path buf))"
proof -
  have "printable (as_bytes ''/'')" by (simp add: printable_def as_bytes_def of_char_def)
  then show ?thesis by (auto simp: parse_request_path_def Let_def printable_utf8)
qed

lemma parse_request_path_target:
  assumes "takeWhile (\<lambda>b. b \<noteq> 10) buf = meth @ [32] @ target @ [32] @ as_bytes ''HTTP/1.1'' @ [13]"
    and "32 \<notin> set meth" "printable target"
  shows "parse_request_path buf = of_bytes target"
proof -
  have "first_line buf = meth @ 32 # target @ 32 # as_bytes ''HTTP/1.1''"
    unfolding first_line_def assms(1) by (simp add: butlast_append)
  moreover have "list_all (\<lambda>b. b \<noteq> 32) meth" "list_all (\<lambda>b. b \<noteq> 32) target"
    using assms(2) printable_simps(3) [OF assms(3)] by (auto simp: list_all_iff)
  ultimately have "\<exists>ps. split_at (\<lambda>b. b = 32) (first_line buf) = meth # target # ps" by (simp add: split_at_append)
  then show ?thesis using assms(3) by (auto simp: parse_request_path_def printable_utf8)
qed

definition redirect_trace :: "string \<Rightarrow> string \<Rightarrow> http_action list" where
  "redirect_trace hostname path =
     [ToHttp (as_bytes (redirect_head hostname path)), ToHttp (as_bytes redirect_body), HttpShutdown]"

lemma serve_redirect_quiet:
  "redirect_read [] inn = Inr buf \<Longrightarrow> serve_redirect hostname inn (quiet []) = (Inr (), quiet (redirect_trace hostname (parse_request_path buf)))"
  by (simp add: serve_redirect_def redirect_trace_def bind_def)

text \<open>
  C29: What the port-80 redirector reflects. Whatever arrives, an answer is one 301 response whose
  Location is the relay's host name followed by printable characters only, so no request can add a
  header. And the target of a well-formed request line, in whatever pieces it arrives, follows the
  host name unchanged, also when it does not begin with a slash.
\<close>

theorem redirect_copies_printable_target:
  "(\<forall>s. serve_redirect hostname inn (quiet []) = (Inr (), s) \<longrightarrow>
      (\<exists>path. printable (as_bytes path) \<and> io_trace s = redirect_trace hostname path))
   \<and> (list_all data_chunk inn \<and> inner_bytes inn = meth @ [32] @ target @ [32] @ as_bytes ''HTTP/1.1'' @ [13, 10] @ rest
      \<and> length meth + length target + 12 \<le> MAX_REQUEST_HEAD \<and> 10 \<notin> set meth \<and> 32 \<notin> set meth \<and> printable target \<longrightarrow>
      serve_redirect hostname inn (quiet []) = (Inr (), quiet (redirect_trace hostname (of_bytes target))))"
proof (intro conjI impI allI)
  fix s assume "serve_redirect hostname inn (quiet []) = (Inr (), s)"
  moreover then obtain buf where "redirect_read [] inn = Inr buf"
    by (cases "redirect_read [] inn") (auto simp: serve_redirect_def lift_def)
  ultimately show "\<exists>path. printable (as_bytes path) \<and> io_trace s = redirect_trace hostname path"
    using parse_request_path_printable serve_redirect_quiet [of inn buf hostname]
    by (intro exI [of _ "parse_request_path buf"]) auto
next
  let ?line = "meth @ [32] @ target @ [32] @ as_bytes ''HTTP/1.1'' @ [13]"
  assume req: "list_all data_chunk inn \<and> inner_bytes inn = meth @ [32] @ target @ [32] @ as_bytes ''HTTP/1.1'' @ [13, 10] @ rest
      \<and> length meth + length target + 12 \<le> MAX_REQUEST_HEAD \<and> 10 \<notin> set meth \<and> 32 \<notin> set meth \<and> printable target"
  then have bytes: "inner_bytes inn = ?line @ 10 # rest" and len: "length ?line < MAX_REQUEST_HEAD" by simp_all
  have ver: "10 \<notin> set (as_bytes ''HTTP/1.1'')" by (simp add: as_bytes_def of_char_def)
  then have "b \<noteq> 10" if "b \<in> set ?line" for b using that req printable_simps(1) [of target] by auto
  then have line: "takeWhile (\<lambda>b. b \<noteq> 10) (inner_bytes inn) = ?line"
    unfolding bytes using takeWhile_append2 [of ?line "\<lambda>b. b \<noteq> 10" "10 # rest"] by simp
  have "10 \<in> set (take MAX_REQUEST_HEAD (inner_bytes inn))"
    unfolding bytes using len by (simp add: take_Cons')
  then obtain buf where buf: "redirect_read [] inn = Inr buf" "takeWhile (\<lambda>b. b \<noteq> 10) buf = ?line"
    using redirect_read_line [of inn "[]"] req line by auto
  then show "serve_redirect hostname inn (quiet []) = (Inr (), quiet (redirect_trace hostname (of_bytes target)))"
    using serve_redirect_quiet parse_request_path_target [OF buf(2)] req by simp
qed

theorem redirect_copies_printable_target_witness:
  "serve_redirect ''relay.example'' [Chunk (as_bytes ''GE''), Chunk (as_bytes ''T .evil.test HTTP/1.1'' @ [13, 10, 13, 10])] (quiet []) =
     (Inr (), quiet (redirect_trace ''relay.example'' ''.evil.test''))"
proof -
  have "printable (as_bytes ''.evil.test'')" by (simp add: printable_def as_bytes_def of_char_def)
  then show ?thesis
    using conjunct2 [OF redirect_copies_printable_target [of "''relay.example''"
        "[Chunk (as_bytes ''GE''), Chunk (as_bytes ''T .evil.test HTTP/1.1'' @ [13, 10, 13, 10])]" "as_bytes ''GET''" "as_bytes ''.evil.test''" "[13, 10]"]]
    by (simp add: inner_bytes_def MAX_REQUEST_HEAD_def) (simp add: as_bytes_def of_char_def)
qed

end
