(* ===== verification/Client_Sdk.thy ===== *)
theory Client_Sdk
  imports Dialer Client_Tokens Reg_Cache
begin

text \<open>
  The client library's interface (\<^verbatim>\<open>client/src/lib.rs\<close>): one value that holds the configuration, the
  session, the authority's key and the registry cache, and the operations the SOCKS5 daemon calls on
  it. The authority and the URL and PEM decoders are the fields of \<open>authority_api\<close>. Whether the HTTP
  client can be built and which certificates the system has are arguments of \<open>client_new\<close>.
\<close>

section \<open>State\<close>

record authority_api =
  url_join :: "string \<Rightarrow> string option"
  api_login :: "string \<Rightarrow> string \<Rightarrow> api_reply"
  api_pubkey :: api_reply
  api_issue :: "string \<Rightarrow> string \<Rightarrow> api_reply"
  json_token :: "string \<Rightarrow> string option"
  json_signed :: "string \<Rightarrow> string option"
  pem_key :: "string \<Rightarrow> RsaPublicKey option"

definition joins :: "authority_api \<Rightarrow> string \<Rightarrow> bool" where
  "joins A path \<longleftrightarrow> url_join A path \<noteq> None"

record QuietHopConfig =
  cfg_email :: string
  cfg_password :: string
  pinned_registry_keys :: "PinnedKey list"
  registry_threshold :: nat
  cfg_state_dir :: string
  cfg_operator_diversity :: bool

record QuietHopClient =
  qc_cfg :: QuietHopConfig
  qc_session :: "Session option"
  qc_pubkey :: "RsaPublicKey option"
  qc_registry :: RegistryCache

section \<open>Operations\<close>

text \<open>
  The TLS connector trusts the certificates of the operating system's store that can be added; with
  none of them it is an error.
\<close>

definition client_connector :: "('c \<Rightarrow> bool) \<Rightarrow> 'c list \<Rightarrow> ClientError + 'c list" where
  "client_connector addable certs =
     (let roots = filter addable certs in if roots = [] then Inl NativeRoots else Inr roots)"

definition client_new :: "authority_api \<Rightarrow> bool \<Rightarrow> ('c \<Rightarrow> bool) \<Rightarrow> 'c list \<Rightarrow> QuietHopConfig \<Rightarrow> ClientError + QuietHopClient" where
  "client_new A http_builds addable certs cfg =
     (if \<not> http_builds then Inl HttpClientBuild
      else and_then (client_connector addable certs) (\<lambda>_.
        and_then (ok_or (InvalidResponse (UrlJoin ''/api/v1/registry'')) (url_join A ''/api/v1/registry'')) (\<lambda>registry_url.
        and_then (map_err CRegistry
          (cache_new registry_url (cfg_state_dir cfg) (pinned_registry_keys cfg) (registry_threshold cfg))) (\<lambda>registry.
          Inr \<lparr>qc_cfg = cfg, qc_session = None, qc_pubkey = None, qc_registry = registry\<rparr>))))"

definition path_rules :: "QuietHopClient \<Rightarrow> PathRules" where
  "path_rules c = \<lparr>require_operator_diversity = cfg_operator_diversity (qc_cfg c)\<rparr>"

definition prime_registry :: "reg_env \<Rightarrow> bool \<Rightarrow> io_faults \<Rightarrow> http_response \<Rightarrow> int \<Rightarrow> QuietHopClient \<times> file_sys \<Rightarrow>
    (ClientError + unit) \<times> QuietHopClient \<times> file_sys" where
  "prime_registry E read_fails io resp now_unix s =
     (let (c, fs) = s; (r, cache, fs') = prime E read_fails io resp now_unix (qc_registry c, fs) in
      (map_err CRegistry r, c\<lparr>qc_registry := cache\<rparr>, fs'))"

definition refresh_registry :: "reg_env \<Rightarrow> io_faults \<Rightarrow> http_response \<Rightarrow> int \<Rightarrow> QuietHopClient \<times> file_sys \<Rightarrow>
    (ClientError + bool) \<times> QuietHopClient \<times> file_sys" where
  "refresh_registry E io resp now_unix s =
     (let (c, fs) = s; (r, _, cache, fs') = refresh_if_stale E io resp now_unix (qc_registry c, fs) in
      (map_err CRegistry r, c\<lparr>qc_registry := cache\<rparr>, fs'))"

definition build_path :: "QuietHopClient \<Rightarrow> int \<Rightarrow> (nat \<Rightarrow> nat) \<Rightarrow> (ClientError + SelectedPath) option" where
  "build_path c now_unix draw =
     (case usable (qc_registry c) now_unix of
        Inl e \<Rightarrow> Some (Inl (CRegistry e))
      | Inr verified \<Rightarrow> select_with (ver_document verified) (path_rules c) now_unix draw)"

definition client_login :: "authority_api \<Rightarrow> QuietHopClient \<Rightarrow> (ClientError + unit) \<times> QuietHopClient" where
  "client_login A c =
     (case login (joins A) (json_token A) (api_login A) (cfg_email (qc_cfg c)) (cfg_password (qc_cfg c)) of
        Inl e \<Rightarrow> (Inl e, c)
      | Inr session \<Rightarrow> (Inr (), c\<lparr>qc_session := Some session\<rparr>))"

definition issue_token :: "big_ops \<Rightarrow> (bytes \<Rightarrow> bytes) \<Rightarrow> authority_api \<Rightarrow> bytes \<Rightarrow> nat list \<Rightarrow> QuietHopClient \<Rightarrow>
    (ClientError + (bytes \<times> bytes)) option \<times> QuietHopClient" where
  "issue_token B sha A m_raw draws c =
     (case qc_session c of
        None \<Rightarrow> (Some (Inl NotLoggedIn), c)
      | Some session \<Rightarrow>
          (case (case qc_pubkey c of Some pk \<Rightarrow> Inr pk | None \<Rightarrow> fetch_pubkey (joins A) (pem_key A) (api_pubkey A)) of
             Inl e \<Rightarrow> (Some (Inl e), c)
           | Inr pk \<Rightarrow>
               (issue B sha (joins A) (json_signed A) (api_issue A) session pk m_raw draws, c\<lparr>qc_pubkey := Some pk\<rparr>)))"

definition client_dial :: "('b, 'h, 't) snow \<Rightarrow> nat \<times> nat \<times> nat \<Rightarrow> client_net \<Rightarrow> string \<Rightarrow> u16 \<Rightarrow> bytes \<Rightarrow> bytes \<Rightarrow>
    SelectedPath \<Rightarrow> (client_action, stop, 't circuit_task_state) proc" where
  "client_dial S seeds N destination_host destination_port m_raw token route =
     dial S seeds N route m_raw token destination_host destination_port"

end
