(* ===== verification/Socks_Daemon.thy ===== *)
theory Socks_Daemon
  imports Client_Sdk Relay_Config
begin

text \<open>
  The SOCKS5 daemon (\<^verbatim>\<open>quiethop-client/src/socks5.rs\<close>, \<^verbatim>\<open>main.rs\<close>): the negotiation on one local
  connection, the circuit it opens through the client library, and the daemon's startup. The
  daemon's reads have no timeout, so a peer that sends too little leaves the session waiting, which
  is the outcome \<open>SHangs\<close>. \<open>SPanics\<close> is the \<^verbatim>\<open>unreachable!\<close> of path selection. After the success reply
  the source copies bytes between the socket and the circuit; the model stops with the open circuit
  and what the socket has still to deliver.
\<close>

section \<open>Messages\<close>

definition VER :: byte where [wire_defs]: "VER = 0x05"
definition METHOD_NO_AUTH :: byte where [wire_defs]: "METHOD_NO_AUTH = 0x00"
definition METHOD_NONE_ACCEPTABLE :: byte where [wire_defs]: "METHOD_NONE_ACCEPTABLE = 0xFF"
definition CMD_CONNECT :: byte where [wire_defs]: "CMD_CONNECT = 0x01"
definition ATYP_IPV4 :: byte where [wire_defs]: "ATYP_IPV4 = 0x01"
definition ATYP_DOMAIN :: byte where [wire_defs]: "ATYP_DOMAIN = 0x03"
definition ATYP_IPV6 :: byte where [wire_defs]: "ATYP_IPV6 = 0x04"
definition REP_SUCCESS :: byte where [wire_defs]: "REP_SUCCESS = 0x00"
definition REP_GENERAL_FAILURE :: byte where [wire_defs]: "REP_GENERAL_FAILURE = 0x01"
definition REP_COMMAND_NOT_SUPPORTED :: byte where [wire_defs]: "REP_COMMAND_NOT_SUPPORTED = 0x07"
definition REP_ADDRESS_NOT_SUPPORTED :: byte where [wire_defs]: "REP_ADDRESS_NOT_SUPPORTED = 0x08"

datatype SocksError =
    SIo IoError | SClient ClientError | UnsupportedVersion byte | UnsupportedCommand byte
  | UnsupportedAtyp byte | NoAcceptableAuth

datatype socks_stop = SFails SocksError | SHangs | SPanics

datatype socks_action = ToSock bytes | Circ client_action

section \<open>Printing addresses\<close>

definition show_ipv4 :: "bytes \<Rightarrow> string" where
  "show_ipv4 a = show_nat (unat (a ! 0)) @ ''.'' @ show_nat (unat (a ! 1)) @ ''.'' @ show_nat (unat (a ! 2)) @ ''.''
     @ show_nat (unat (a ! 3))"

fun show_hex :: "nat \<Rightarrow> string" where
  "show_hex n = (if n < 16 then [hex_char n] else show_hex (n div 16) @ [hex_char (n mod 16)])"

declare show_hex.simps [simp del]

fun ipv6_segments :: "bytes \<Rightarrow> nat list" where
  "ipv6_segments (h # l # bs) = (unat h * 256 + unat l) # ipv6_segments bs"
| "ipv6_segments _ = []"

text \<open>
  \<^verbatim>\<open>Display for Ipv6Addr\<close>: the mapped form, else the first longest run of zero segments, when it
  has more than one, becomes a double colon.
\<close>

fun longest_zeros :: "nat \<Rightarrow> nat \<times> nat \<Rightarrow> nat \<times> nat \<Rightarrow> nat list \<Rightarrow> nat \<times> nat" where
  "longest_zeros i cur best [] = best"
| "longest_zeros i (start, len) best (s # ss) =
     (if s = 0
      then (let cur = (if len = 0 then i else start, len + 1) in
        longest_zeros (i + 1) cur (if snd cur > snd best then cur else best) ss)
      else longest_zeros (i + 1) (0, 0) best ss)"

fun show_segments :: "nat list \<Rightarrow> string" where
  "show_segments [] = []"
| "show_segments [s] = show_hex s"
| "show_segments (s # ss) = show_hex s @ '':'' @ show_segments ss"

definition show_ipv6 :: "bytes \<Rightarrow> string" where
  "show_ipv6 a =
     (if take 12 a = replicate 10 0 @ [0xFF, 0xFF] then ''::ffff:'' @ show_ipv4 (drop 12 a)
      else (let segs = ipv6_segments a; (start, len) = longest_zeros 0 (0, 0) (0, 0) segs in
        if len > 1 then show_segments (take start segs) @ ''::'' @ show_segments (drop (start + len) segs)
        else show_segments segs))"

section \<open>The negotiation\<close>

definition sock_read :: "nat \<Rightarrow> arrival list \<Rightarrow> (socks_action, socks_stop, bytes \<times> arrival list) proc" where
  "sock_read n inn =
     (case read_exact n inn of
        (Ready bs, rest) \<Rightarrow> lift (Inr (bs, rest))
      | (Failed e, _) \<Rightarrow> lift (Inl (SFails (SIo e)))
      | (Pending, _) \<Rightarrow> lift (Inl SHangs))"

definition socks_reply :: "byte \<Rightarrow> bytes" where
  "socks_reply rep = [VER, rep, 0x00, ATYP_IPV4, 0, 0, 0, 0, 0, 0]"

definition write_reply :: "byte \<Rightarrow> (socks_action, socks_stop, unit) proc" where
  "write_reply rep = write_all (\<lambda>e. SFails (SIo e)) (ToSock (socks_reply rep))"

text \<open>A write whose result is thrown away.\<close>

definition ignoring :: "('a, 'e, unit) proc \<Rightarrow> ('a, 'f, unit) proc" where
  "ignoring p s = (Inr (), snd (p s))"

definition refuse :: "byte \<Rightarrow> SocksError \<Rightarrow> (socks_action, socks_stop, 'v) proc" where
  "refuse rep e = bind (write_reply rep) (\<lambda>_. lift (Inl (SFails e)))"

definition read_greeting :: "arrival list \<Rightarrow> (socks_action, socks_stop, arrival list) proc" where
  "read_greeting inn =
     bind (sock_read 2 inn) (\<lambda>(greet, inn).
     if greet ! 0 \<noteq> VER then lift (Inl (SFails (UnsupportedVersion (greet ! 0))))
     else bind (sock_read (unat (greet ! 1)) inn) (\<lambda>(methods, inn).
       if METHOD_NO_AUTH \<notin> set methods
       then bind (ignoring (write_all id (ToSock [VER, METHOD_NONE_ACCEPTABLE]))) (\<lambda>_.
         lift (Inl (SFails NoAcceptableAuth)))
       else bind (write_all (\<lambda>e. SFails (SIo e)) (ToSock [VER, METHOD_NO_AUTH])) (\<lambda>_. lift (Inr inn))))"

definition read_host :: "byte \<Rightarrow> arrival list \<Rightarrow> (socks_action, socks_stop, string \<times> arrival list) proc" where
  "read_host atyp inn =
     (if atyp = ATYP_IPV4 then bind (sock_read 4 inn) (\<lambda>(a, inn). lift (Inr (show_ipv4 a, inn)))
      else if atyp = ATYP_IPV6 then bind (sock_read 16 inn) (\<lambda>(a, inn). lift (Inr (show_ipv6 a, inn)))
      else if atyp = ATYP_DOMAIN then
        bind (sock_read 1 inn) (\<lambda>(len, inn).
        bind (sock_read (unat (len ! 0)) inn) (\<lambda>(name, inn).
          case from_utf8 name of
            Some s \<Rightarrow> lift (Inr (s, inn))
          | None \<Rightarrow> refuse REP_ADDRESS_NOT_SUPPORTED (UnsupportedAtyp atyp)))
      else refuse REP_ADDRESS_NOT_SUPPORTED (UnsupportedAtyp atyp))"

definition read_request :: "arrival list \<Rightarrow> (socks_action, socks_stop, string \<times> u16 \<times> arrival list) proc" where
  "read_request inn =
     bind (read_greeting inn) (\<lambda>inn.
     bind (sock_read 4 inn) (\<lambda>(req_head, inn).
     if req_head ! 0 \<noteq> VER then lift (Inl (SFails (UnsupportedVersion (req_head ! 0))))
     else if req_head ! 1 \<noteq> CMD_CONNECT then refuse REP_COMMAND_NOT_SUPPORTED (UnsupportedCommand (req_head ! 1))
     else bind (read_host (req_head ! 3) inn) (\<lambda>(dest_host, inn).
       bind (sock_read 2 inn) (\<lambda>(port_buf, inn).
         lift (Inr (dest_host, from_be16 (port_buf ! 0) (port_buf ! 1), inn))))))"

section \<open>One session\<close>

text \<open>Running a procedure of the client library inside the session's own trace.\<close>

definition within :: "('a \<Rightarrow> 'b) \<Rightarrow> ('a, 'e, 'v) proc \<Rightarrow> ('b, 'e, 'v) proc" where
  "within f p s =
     (case p \<lparr>io_outcomes = io_outcomes s, io_trace = []\<rparr> of
        (r, s') \<Rightarrow> (r, \<lparr>io_outcomes = io_outcomes s', io_trace = io_trace s @ map f (io_trace s')\<rparr>))"

text \<open>
  What a session meets: the authority, the randomness it draws (the token message, the blinding
  candidates, the path index, the handshake seeds), the clock, the Noise library and the network.
\<close>

record ('b, 'h, 't) session_env =
  se_big :: big_ops
  se_sha :: "bytes \<Rightarrow> bytes"
  se_api :: authority_api
  se_m_raw :: bytes
  se_draws :: "nat list"
  se_pick :: "nat \<Rightarrow> nat"
  se_seeds :: "nat \<times> nat \<times> nat"
  se_now :: int
  se_snow :: "('b, 'h, 't) snow"
  se_net :: client_net

definition session_dial :: "('b, 'h, 't) session_env \<Rightarrow> string \<Rightarrow> u16 \<Rightarrow> bytes \<times> bytes \<Rightarrow> SelectedPath \<Rightarrow>
    (socks_action, stop, 't circuit_task_state) proc" where
  "session_dial E host port mt route =
     within Circ (client_dial (se_snow E) (se_seeds E) (se_net E) host port (fst mt) (snd mt) route)"

definition open_circuit :: "('b, 'h, 't) session_env \<Rightarrow> string \<Rightarrow> u16 \<Rightarrow> QuietHopClient \<Rightarrow> socks_action io \<Rightarrow>
    ((socks_stop + 't circuit_task_state) \<times> QuietHopClient) \<times> socks_action io" where
  "open_circuit E host port c s =
     (case issue_token (se_big E) (se_sha E) (se_api E) (se_m_raw E) (se_draws E) c of
        (None, c) \<Rightarrow> ((Inl SHangs, c), s)
      | (Some (Inl e), c) \<Rightarrow> ((Inl (SFails (SClient e)), c), s)
      | (Some (Inr mt), c) \<Rightarrow>
          (case build_path c (se_now E) (se_pick E) of
             None \<Rightarrow> ((Inl SPanics, c), s)
           | Some (Inl e) \<Rightarrow> ((Inl (SFails (SClient e)), c), s)
           | Some (Inr route) \<Rightarrow>
               (case session_dial E host port mt route s of
                  (Inl (Fails e), s) \<Rightarrow> ((Inl (SFails (SClient e)), c), s)
                | (Inl Hangs, s) \<Rightarrow> ((Inl SHangs, c), s)
                | (Inr circuit, s) \<Rightarrow> ((Inr circuit, c), s))))"

definition serve :: "('b, 'h, 't) session_env \<Rightarrow> arrival list \<Rightarrow> QuietHopClient \<Rightarrow> socks_action io \<Rightarrow>
    ((socks_stop + 't circuit_task_state \<times> arrival list) \<times> QuietHopClient) \<times> socks_action io" where
  "serve E inn c s =
     (case read_request inn s of
        (Inl e, s) \<Rightarrow> ((Inl e, c), s)
      | (Inr (dest_host, dest_port, inn), s) \<Rightarrow>
          (case open_circuit E dest_host dest_port c s of
             ((Inl (SFails e), c), s) \<Rightarrow>
               ((Inl (SFails e), c), attempt (write_reply REP_GENERAL_FAILURE) s)
           | ((Inl stuck, c), s) \<Rightarrow> ((Inl stuck, c), s)
           | ((Inr circuit, c), s) \<Rightarrow>
               (case write_reply REP_SUCCESS s of
                  (Inl e, s) \<Rightarrow> ((Inl e, c), s)
                | (Inr _, s) \<Rightarrow> ((Inr (circuit, inn), c), s))))"

section \<open>What a session writes\<close>

text \<open>The socket messages that announce no success: the two method choices and the error replies.\<close>

definition no_success :: "socks_action \<Rightarrow> bool" where
  "no_success a \<longleftrightarrow> a \<in> {ToSock [VER, METHOD_NO_AUTH], ToSock [VER, METHOD_NONE_ACCEPTABLE],
     ToSock (socks_reply REP_COMMAND_NOT_SUPPORTED), ToSock (socks_reply REP_ADDRESS_NOT_SUPPORTED),
     ToSock (socks_reply REP_GENERAL_FAILURE)}"

lemma no_success_reply: "\<not> no_success (ToSock (socks_reply REP_SUCCESS))" "\<not> no_success (Circ a)"
  by (simp_all add: no_success_def socks_reply_def wire_defs)

lemma emits_sock_read: "emits P (\<lambda>_. True) (sock_read n inn)"
  by (auto simp: sock_read_def intro: emits_lift split: prod.splits poll.splits)

lemma emits_ignoring: "emits P (\<lambda>_. True) p \<Longrightarrow> emits P (\<lambda>_. True) (ignoring p)"
  by (auto simp: emits_def ignoring_def) (metis prod.collapse)

lemma emits_refuse: "P (ToSock (socks_reply rep)) \<Longrightarrow> emits P Q (refuse rep e)"
  unfolding refuse_def write_reply_def by (intro emit_rules) auto

lemma emits_read_greeting: "emits no_success (\<lambda>_. True) (read_greeting inn)"
  unfolding read_greeting_def split_def
  by (intro emit_rules emits_sock_read emits_ignoring) (auto simp: no_success_def)

lemma emits_read_host: "emits no_success (\<lambda>_. True) (read_host atyp inn)"
  unfolding read_host_def split_def
  by (intro emit_rules emits_sock_read emits_refuse | auto simp: no_success_def intro: emits_lift emits_refuse split: option.split)+

lemma emits_read_request: "emits no_success (\<lambda>_. True) (read_request inn)"
  unfolding read_request_def split_def
  by (intro emit_rules emits_sock_read emits_refuse emits_read_greeting emits_read_host) (auto simp: no_success_def)

lemma within_trace: "within f p s = (r, s') \<Longrightarrow> \<exists>new. io_trace s' = io_trace s @ map f new"
  by (auto simp: within_def split: prod.splits)

lemma write_reply_trace: "write_reply rep s = (r, s') \<Longrightarrow> io_trace s' = io_trace s @ [ToSock (socks_reply rep)]"
  by (auto simp: write_reply_def write_all_def bind_def note_io_def next_outcome_def split: list.splits option.splits)

lemma session_dial_trace: "session_dial E host port mt route s = (r, s') \<Longrightarrow> \<exists>new. io_trace s' = io_trace s @ map Circ new"
  unfolding session_dial_def by (rule within_trace)

lemma attempt_reply_trace: "io_trace (attempt (write_reply rep) s) = io_trace s @ [ToSock (socks_reply rep)]"
  using write_reply_trace [of rep s] by (cases "write_reply rep s") (simp add: attempt_def)

lemma open_circuit_trace:
  assumes "open_circuit E host port c s = ((r, c'), s')"
  shows "\<exists>new. io_trace s' = io_trace s @ map Circ new"
    "r = Inr circuit \<Longrightarrow> \<exists>mt route. issue_token (se_big E) (se_sha E) (se_api E) (se_m_raw E) (se_draws E) c = (Some (Inr mt), c')
       \<and> build_path c' (se_now E) (se_pick E) = Some (Inr route) \<and> session_dial E host port mt route s = (Inr circuit, s')"
proof -
  show "\<exists>new. io_trace s' = io_trace s @ map Circ new"
    using assms session_dial_trace [of E host port _ _ s]
    by (auto simp: open_circuit_def split: prod.splits option.splits sum.splits stop.splits)
  show "\<exists>mt route. issue_token (se_big E) (se_sha E) (se_api E) (se_m_raw E) (se_draws E) c = (Some (Inr mt), c')
       \<and> build_path c' (se_now E) (se_pick E) = Some (Inr route) \<and> session_dial E host port mt route s = (Inr circuit, s')"
    if "r = Inr circuit"
    using assms that by (auto simp: open_circuit_def split: prod.splits option.splits sum.splits stop.splits)
qed


definition sample_request :: bytes where
  "sample_request = [5, 1, 0] @ [5, 1, 0, 3] @ [1, 100] @ [1, 187]"

lemma sample_request_read:
  "read_request [Chunk sample_request] (quiet tr) = (Inr (''d'', 443, []), quiet (tr @ [ToSock [VER, METHOD_NO_AUTH]]))"
proof -
  have "from_utf8 [100] = Some ''d''" using from_utf8_as_bytes [of "''d''"] by (simp add: is_str_def as_bytes_def)
  moreover have "from_be16 1 187 = 443" by (simp add: from_be16_def)
  ultimately show ?thesis
    using read_exact_chunk [of "[5, 1]" 2 "[0, 5, 1, 0, 3, 1, 100, 1, 187]" "[]"] read_exact_chunk [of "[0]" 1 "[5, 1, 0, 3, 1, 100, 1, 187]" "[]"]
      read_exact_chunk [of "[5, 1, 0, 3]" 4 "[1, 100, 1, 187]" "[]"] read_exact_chunk [of "[1]" 1 "[100, 1, 187]" "[]"]
      read_exact_chunk [of "[100]" 1 "[1, 187]" "[]"] read_exact_chunk [of "[1, 187]" 2 "[]" "[]"]
    by (simp add: read_request_def read_greeting_def read_host_def sock_read_def sample_request_def bind_def lift_def wire_defs)
qed

definition sample_client :: QuietHopClient where
  "sample_client = \<lparr>qc_cfg = \<lparr>cfg_email = ''e'', cfg_password = ''p'', pinned_registry_keys = [sample_pin], registry_threshold = 1,
       cfg_state_dir = ''s'', cfg_operator_diversity = True\<rparr>,
     qc_session = None, qc_pubkey = None, qc_registry = sample_cache\<rparr>"

definition sample_api :: authority_api where
  "sample_api = \<lparr>url_join = Some, api_login = \<lambda>_ _. NoConnection, api_pubkey = NoConnection, api_issue = \<lambda>_ _. NoConnection,
     json_token = Some, json_signed = Some, pem_key = \<lambda>_. None\<rparr>"

definition sample_session :: "(unit, nat, nat \<times> nat) session_env" where
  "sample_session = \<lparr>se_big = big_model, se_sha = (\<lambda>_. []), se_api = sample_api, se_m_raw = replicate 32 0, se_draws = [],
     se_pick = (\<lambda>_. 0), se_seeds = (0, 0, 0), se_now = 0, se_snow = plain_snow,
     se_net = \<lparr>cn_tcp_connect = \<lambda>_. None, cn_nodelay = \<lambda>_. None, cn_server_name = \<lambda>_. True, cn_tls = \<lambda>_ _. Inr []\<rparr>\<rparr>"


section \<open>Starting the daemon\<close>

text \<open>
  Every failure before the listener is bound is logged and ends the process with exit code 1; the
  constructors name the step. The environment returns nothing for a variable that is unset or is
  not Unicode.
\<close>

datatype daemon_failure =
    BadAuthorityUrl | NoEmail | NoPassword | BadPinnedKeys | BadThreshold | NoStateDirectory
  | BadFlag | ClientInit ClientError | LoginFailed ClientError | RegistryFailed ClientError | BindFailed

fun pinned_pieces :: "reg_env \<Rightarrow> string list \<Rightarrow> PinnedKey list \<Rightarrow> RegistryError option + PinnedKey list" where
  "pinned_pieces E [] out = Inr out"
| "pinned_pieces E (piece # rest) out =
     (let t = trim piece in
      if t = [] then pinned_pieces E rest out
      else and_then (map_err Some (pinned_from_hex E t)) (\<lambda>k. pinned_pieces E rest (out @ [k])))"

definition pinned_keys :: "reg_env \<Rightarrow> env_source \<Rightarrow> RegistryError option + PinnedKey list" where
  "pinned_keys E get =
     and_then (ok_or None (get ''QUIETHOP_REGISTRY_PUBKEY'')) (\<lambda>raw.
     and_then (pinned_pieces E (split_at (\<lambda>c. c = CHR '','') raw) []) (\<lambda>out.
       if out = [] then Inl None else Inr out))"

definition parse_flag :: "env_source \<Rightarrow> string \<Rightarrow> string + bool" where
  "parse_flag get name =
     (case get name of
        None \<Rightarrow> Inr False
      | Some v \<Rightarrow>
          if v = [] then Inr False
          else (let w = to_ascii_lowercase (trim v) in
            if w \<in> {''true'', ''1'', ''yes''} then Inr True
            else if w \<in> {''false'', ''0'', ''no''} then Inr False
            else Inl w))"

definition set_var :: "env_source \<Rightarrow> string \<Rightarrow> string option" where
  "set_var get name = (case get name of Some (c # cs) \<Rightarrow> Some (c # cs) | _ \<Rightarrow> None)"

definition daemon_config :: "reg_env \<Rightarrow> (string \<Rightarrow> Url option) \<Rightarrow> env_source \<Rightarrow> daemon_failure + QuietHopConfig \<times> string" where
  "daemon_config E parse_url get =
     and_then (ok_or BadAuthorityUrl (Option.bind (set_var get ''AUTHORITY_URL'') parse_url)) (\<lambda>_.
     and_then (ok_or NoEmail (set_var get ''CLIENT_EMAIL'')) (\<lambda>email.
     and_then (ok_or NoPassword (set_var get ''CLIENT_PASSWORD'')) (\<lambda>password.
     let bind_addr = (case get ''SOCKS5_BIND'' of Some b \<Rightarrow> b | None \<Rightarrow> ''127.0.0.1:1080'') in
     and_then (map_err (\<lambda>_. BadPinnedKeys) (pinned_keys E get)) (\<lambda>pinned.
     and_then (case set_var get ''QUIETHOP_REGISTRY_THRESHOLD'' of
                 Some v \<Rightarrow> ok_or BadThreshold (parse_uint 64 v) | None \<Rightarrow> Inr 1) (\<lambda>threshold.
     and_then (map_err (\<lambda>_. NoStateDirectory) (state_dir get)) (\<lambda>dir.
     and_then (map_err (\<lambda>_. BadFlag) (parse_flag get ''QUIETHOP_REQUIRE_OPERATOR_DIVERSITY'')) (\<lambda>diversity.
       Inr (\<lparr>cfg_email = email, cfg_password = password, pinned_registry_keys = pinned, registry_threshold = threshold,
             cfg_state_dir = dir, cfg_operator_diversity = diversity\<rparr>, bind_addr))))))))"

record 'c daemon_env =
  da_reg :: reg_env
  da_parse_url :: "string \<Rightarrow> Url option"
  da_get :: env_source
  da_api :: authority_api
  da_http_builds :: bool
  da_addable :: "'c \<Rightarrow> bool"
  da_certs :: "'c list"
  da_read_fails :: bool
  da_io :: io_faults
  da_registry :: http_response
  da_now :: int
  da_binds :: "string \<Rightarrow> bool"

definition daemon_start :: "'c daemon_env \<Rightarrow> file_sys \<Rightarrow> (daemon_failure + QuietHopClient) \<times> file_sys" where
  "daemon_start D fs =
     (case daemon_config (da_reg D) (da_parse_url D) (da_get D) of
        Inl e \<Rightarrow> (Inl e, fs)
      | Inr (cfg, bind_addr) \<Rightarrow>
     (case client_new (da_api D) (da_http_builds D) (da_addable D) (da_certs D) cfg of
        Inl e \<Rightarrow> (Inl (ClientInit e), fs)
      | Inr client \<Rightarrow>
     (case client_login (da_api D) client of
        (Inl e, _) \<Rightarrow> (Inl (LoginFailed e), fs)
      | (Inr _, client) \<Rightarrow>
     (case prime_registry (da_reg D) (da_read_fails D) (da_io D) (da_registry D) (da_now D) (client, fs) of
        (Inl e, _, fs') \<Rightarrow> (Inl (RegistryFailed e), fs')
      | (Inr _, client, fs') \<Rightarrow>
          if da_binds D bind_addr then (Inr client, fs') else (Inl BindFailed, fs')))))"

text \<open>One wake-up of the refresh task; the outcome is only logged.\<close>

definition daemon_tick :: "reg_env \<Rightarrow> io_faults \<Rightarrow> http_response \<Rightarrow> int \<Rightarrow> QuietHopClient \<times> file_sys \<Rightarrow> QuietHopClient \<times> file_sys" where
  "daemon_tick E io resp now_unix s = snd (refresh_registry E io resp now_unix s)"

text \<open>
  A daemon that serves is logged in, enforces the configured path rules and holds a registry
  document endorsed by its pinned keys.
\<close>

lemma prime_current: "prime E rf io resp now s = (Inr (), c', fs') \<Longrightarrow> current c' \<noteq> None"
  by (auto simp: prime_def accept_body_def split: prod.splits option.splits sum.splits)

lemma daemon_started:
  assumes "daemon_start D fs = (Inr client, fs')"
  shows "\<exists>cfg addr. daemon_config (da_reg D) (da_parse_url D) (da_get D) = Inr (cfg, addr) \<and> qc_cfg client = cfg
     \<and> pinned_registry_keys cfg \<noteq> [] \<and> 0 < registry_threshold cfg \<and> registry_threshold cfg \<le> length (pinned_registry_keys cfg)"
    "qc_session client \<noteq> None" "current (qc_registry client) \<noteq> None"
  using assms prime_current
  by (auto simp: daemon_start_def client_new_def client_login_def prime_registry_def cache_new_def result_simps
      split: sum.splits prod.splits if_splits)

end
