(* ===== verification/Go_Text.thy ===== *)
theory Go_Text
  imports Registry Rust_Text
begin

text \<open>
  What the authority uses of Go's standard library on text: RFC 3339 printing of a UTC time
  (\<^verbatim>\<open>time.Format\<close>), addresses (\<^verbatim>\<open>net/netip\<close>) with their canonical printing, and \<^verbatim>\<open>net.SplitHostPort\<close>. A time
  is a number of seconds since 1970: the fraction of a second that \<^verbatim>\<open>time.Now\<close> also has is dropped by
  every operation the authority applies to it, and no comparison with a whole second changes. The
  parsers on the Rust side read back what is printed here.
\<close>

section \<open>Timestamps\<close>

definition year_len :: "nat \<Rightarrow> nat" where
  "year_len y = (if is_leap_year (int y) then 366 else 365)"

function civil_year :: "nat \<Rightarrow> nat \<Rightarrow> nat \<times> nat" where
  "civil_year y d = (if d < year_len y then (y, d) else civil_year (Suc y) (d - year_len y))"
  by pat_completeness auto
termination by (relation "measure snd") (auto simp: year_len_def)

declare civil_year.simps [simp del]

function civil_month :: "nat \<Rightarrow> nat \<Rightarrow> nat \<Rightarrow> nat \<times> nat" where
  "civil_month y m d =
     (if 12 \<le> m \<or> int d < days_in_month (int y) (int m) then (m, Suc d)
      else civil_month y (Suc m) (d - nat (days_in_month (int y) (int m))))"
  by pat_completeness auto
termination by (relation "measure (\<lambda>(y, m, d). 12 - m)") auto

declare civil_month.simps [simp del]

definition year_text :: "nat \<Rightarrow> string" where
  "year_text y = (if y < 10000 then pad2 (y div 100) @ pad2 (y mod 100) else show_nat y)"

text \<open>\<^verbatim>\<open>t.UTC().Format(time.RFC3339)\<close>.\<close>

definition format_rfc3339 :: "nat \<Rightarrow> string" where
  "format_rfc3339 t =
     (let (y, yday) = civil_year 1970 (t div 86400); (m, d) = civil_month y 1 yday; s = t mod 86400 in
      year_text y @ ''-'' @ pad2 m @ ''-'' @ pad2 d @ ''T'' @ pad2 (s div 3600) @ '':'' @ pad2 (s div 60 mod 60)
      @ '':'' @ pad2 (s mod 60) @ ''Z'')"

lemma days_from_civil_year_len: "days_from_civil (int (Suc y)) 1 1 = days_from_civil (int y) 1 1 + int (year_len y)"
proof -
  have "days_from_civil (int y + 1) 1 1 = days_from_civil (int y) 1 1 + (march_years (int y) - march_years (int y - 1))"
    by (simp add: days_from_civil_closed)
  also have "march_years (int y) - march_years (int y - 1) = int (year_len y)"
    using leap_step [of "int y"] by (simp add: year_len_def)
  finally show ?thesis by (simp add: add.commute)
qed

lemma civil_year_spec:
  "civil_year y d = (y', r) \<Longrightarrow> days_from_civil (int y') 1 1 + int r = days_from_civil (int y) 1 1 + int d
     \<and> r < year_len y' \<and> y \<le> y'"
proof (induction y d rule: civil_year.induct)
  case (1 y d)
  show ?case
  proof (cases "d < year_len y")
    case True
    then show ?thesis using "1.prems" by (simp add: civil_year.simps [of y d])
  next
    case False
    then have "civil_year (Suc y) (d - year_len y) = (y', r)" using "1.prems" by (simp add: civil_year.simps [of y d])
    from "1.IH" [OF False this] show ?thesis
      using False days_from_civil_year_len [of y] by (simp del: of_nat_Suc add: of_nat_diff)
  qed
qed

lemma civil_month_spec:
  assumes "civil_month y m d = (m', d')" "1 \<le> m" "m \<le> 12"
    "days_from_civil (int y) (int m) 1 + int d < days_from_civil (int y + 1) 1 1"
  shows "valid_date (int y) (int m') (int d')
    \<and> days_from_civil (int y) (int m') (int d') = days_from_civil (int y) (int m) 1 + int d"
  using assms
proof (induction y m d rule: civil_month.induct)
  case (1 y m d)
  let ?n = "days_in_month (int y) (int m)"
  have n: "28 \<le> ?n" using days_in_month_ge [of "int m" "int y"] "1.prems"(2,3) by simp
  have first: "days_from_civil (int y) (int m) (int (Suc d)) = days_from_civil (int y) (int m) 1 + int d"
    using days_from_civil_day [of "int y" "int m" 1 "int d"] by (simp add: add.commute)
  show ?case
  proof (cases "12 \<le> m \<or> int d < ?n")
    case True
    then have r: "m' = m" "d' = Suc d" using "1.prems"(1) by (simp_all add: civil_month.simps [of y m d])
    have "int d < ?n"
    proof (cases "int d < ?n")
      case False
      with True "1.prems"(3) have m: "m = 12" by simp
      have "days_from_civil (int y + 1) 1 1 = days_from_civil (int y) 12 1 + 31"
        using days_from_civil_year [of "int y"] days_from_civil_day [of "int y" 12 1 30] by simp
      then have "int d < 31" using "1.prems"(4) m by simp
      then show ?thesis using m by (simp add: days_in_month_def)
    qed
    then show ?thesis using r first "1.prems"(2,3) by (simp add: valid_date_def)
  next
    case False
    then have rec: "civil_month y (Suc m) (d - nat ?n) = (m', d')" using "1.prems"(1) by (simp add: civil_month.simps [of y m d])
    have "days_from_civil (int y) (int m + 1) 1 = days_from_civil (int y) (int m) 1 + ?n"
      using days_from_civil_month [of "int m" "int y"] days_from_civil_day [of "int y" "int m" 1 "?n - 1"]
        False "1.prems"(2) by simp
    then have "days_from_civil (int y) (int (Suc m)) 1 + int (d - nat ?n) = days_from_civil (int y) (int m) 1 + int d"
      using False n by (simp add: of_nat_diff nat_le_iff add.commute)
    with "1.IH" [OF False rec] show ?thesis using False "1.prems" by simp
  qed
qed

lemma days_from_civil_years: "days_from_civil (int (y + k)) 1 1 \<ge> days_from_civil (int y) 1 1"
  by (induction k) (use days_from_civil_year_len in \<open>auto simp del: of_nat_Suc of_nat_add\<close>)

lemma clock_fields:
  fixes s :: nat
  assumes "s < 86400"
  shows "s div 3600 \<le> 23" "s div 60 mod 60 \<le> 59" "s mod 60 \<le> 60"
    "s div 3600 * 3600 + (s div 60 mod 60 * 60 + s mod 60) = s"
proof -
  have "s div 3600 < 24" using assms by (simp add: less_mult_imp_div_less)
  then show "s div 3600 \<le> 23" by simp
  show "s div 60 mod 60 \<le> 59" "s mod 60 \<le> 60"
    using mod_less_divisor [of 60 "s div 60"] mod_less_divisor [of 60 s] by linarith+
  have "s div 3600 = s div 60 div 60" by (simp add: div_mult2_eq [of s 60 60, simplified])
  then show "s div 3600 * 3600 + (s div 60 mod 60 * 60 + s mod 60) = s"
    using div_mult_mod_eq [of "s div 60" 60] div_mult_mod_eq [of s 60] by linarith
qed

text \<open>Up to the end of the year 9999 the parser of the Rust programs reads back what is printed.\<close>

lemma parse_format_rfc3339:
  assumes "t < 253402300800" shows "parse_rfc3339 (format_rfc3339 t) = Inr (int t)"
proof -
  obtain y r where y: "civil_year 1970 (t div 86400) = (y, r)" by fastforce
  obtain m d where m: "civil_month y 1 r = (m, d)" by fastforce
  note ys = civil_year_spec [OF y, unfolded of_nat_numeral days_from_civil_epoch]
  have "days_from_civil (int y) 1 1 + int r < days_from_civil (int y + 1) 1 1"
    using ys days_from_civil_year_len [of y] by (simp add: add.commute)
  then have md: "valid_date (int y) (int m) (int d)" "days_from_civil (int y) (int m) (int d) = int (t div 86400)"
    using civil_month_spec [OF m] ys by simp_all
  have "days_from_civil 10000 1 1 = 2932897" by (simp add: days_from_civil_closed march_years_def)
  moreover have "t div 86400 < 2932897" using assms by (simp add: less_mult_imp_div_less)
  ultimately have y4: "y < 10000"
    using days_from_civil_years [of 10000 "y - 10000"] ys by (cases "y < 10000") simp_all
  have small: "m < 100" "d < 100" using md(1) days_in_month_le [of "int y" "int m"] by (auto simp: valid_date_def)
  define s where "s = t mod 86400"
  have "s < 86400" by (simp add: s_def)
  note s = clock_fields [OF this]
  have "format_rfc3339 t = rfc3339 y m d (s div 3600) (s div 60 mod 60) (s mod 60)"
    using y4 by (simp add: format_rfc3339_def y m [unfolded One_nat_def] s_def rfc3339_def year_text_def Let_def)
  moreover have "s div 3600 < 100" "s div 60 mod 60 < 100" "s mod 60 < 100" using s by linarith+
  ultimately have "parse_rfc3339 (format_rfc3339 t) =
      Inr (int (t div 86400) * 86400 + int (s div 3600) * 3600 + int (s div 60 mod 60) * 60 + int (s mod 60))"
    using parse_rfc3339_print [OF y4 small, of "s div 3600" "s div 60 mod 60" "s mod 60"] md s(1-3) by (simp only: simp_thms if_True)
  also have "int (t div 86400) * 86400 + int (s div 3600) * 3600 + int (s div 60 mod 60) * 60 + int (s mod 60) =
      int (t div 86400 * 86400 + (s div 3600 * 3600 + (s div 60 mod 60 * 60 + s mod 60)))"
    by (simp only: of_nat_add of_nat_mult of_nat_numeral add.assoc)
  also have "\<dots> = int t" unfolding s(4) unfolding s_def by (simp only: div_mult_mod_eq)
  finally show ?thesis .
qed

section \<open>Addresses\<close>

text \<open>
  \<^verbatim>\<open>netip.Addr.String\<close>: dotted decimal, or hexadecimal groups with the first longest run of at least
  two zero groups as a double colon.
\<close>

fun digits_of :: "nat \<Rightarrow> nat \<Rightarrow> nat list" where
  "digits_of b n = (if n < b \<or> b < 2 then [n] else digits_of b (n div b) @ [n mod b])"

declare digits_of.simps [simp del]

definition hex_text :: "nat \<Rightarrow> string" where
  "hex_text n = map hex_char (digits_of 16 n)"

fun groups_of :: "bytes \<Rightarrow> nat list" where
  "groups_of (a # b # bs) = unat (from_be16 a b) # groups_of bs"
| "groups_of _ = []"

fun groups_text :: "nat \<Rightarrow> nat list \<Rightarrow> string" where
  "groups_text i [] = []"
| "groups_text i (g # gs) = (if 0 < i then '':'' else []) @ hex_text g @ groups_text (Suc i) gs"

definition zeros_at :: "nat list \<Rightarrow> nat \<Rightarrow> nat" where
  "zeros_at gs i = length (takeWhile (\<lambda>g. g = 0) (drop i gs))"

definition zero_run :: "nat list \<Rightarrow> (nat \<times> nat) option" where
  "zero_run gs = fold (\<lambda>i best. let l = zeros_at gs i in
     if 2 \<le> l \<and> (case best of None \<Rightarrow> 0 | Some (s, e) \<Rightarrow> e - s) < l then Some (i, i + l) else best)
     [0..<length gs] None"

definition v4_text :: "bytes \<Rightarrow> string" where
  "v4_text bs = concat (map (\<lambda>i. (if 0 < i then ''.'' else []) @ show_nat (unat (bs ! i))) [0..<4])"

definition v6_text :: "bytes \<Rightarrow> string" where
  "v6_text bs =
     (let gs = groups_of bs in
      case zero_run gs of
        None \<Rightarrow> groups_text 0 gs
      | Some (s, e) \<Rightarrow> groups_text 0 (take s gs) @ ''::'' @ groups_text 0 (drop e gs))"

text \<open>An address with its zone; the zone of an address without one is empty.\<close>

type_synonym go_addr = "IpAddr \<times> string"

fun addr_text :: "go_addr \<Rightarrow> string" where
  "addr_text (V4 bs, zone) = v4_text bs"
| "addr_text (V6 bs, zone) =
     (case to_ipv4_mapped bs of Some v4 \<Rightarrow> ''::ffff:'' @ v4_text v4 | None \<Rightarrow> v6_text bs)
     @ (if zone = [] then [] else CHR ''%'' # zone)"

text \<open>
  \<^verbatim>\<open>netip.ParseAddr\<close>. Without a percent sign the accepted strings and their values are those of Rust's
  parser; a percent sign ends an IPv6 address and starts a zone, which has to be non-empty.
\<close>

definition ParseAddr :: "string \<Rightarrow> go_addr option" where
  "ParseAddr s =
     (let pre = takeWhile (\<lambda>c. c \<noteq> CHR ''%'') s; post = dropWhile (\<lambda>c. c \<noteq> CHR ''%'') s in
      if post = [] then map_option (\<lambda>ip. (ip, [])) (parse_ip s)
      else if tl post = [] then None
      else case read_ipv6_addr pre of Some (v6, []) \<Rightarrow> Some (V6 v6, tl post) | _ \<Rightarrow> None)"

fun Unmap :: "go_addr \<Rightarrow> go_addr" where
  "Unmap (V4 bs, zone) = (V4 bs, zone)"
| "Unmap (V6 bs, zone) = (case to_ipv4_mapped bs of Some v4 \<Rightarrow> (V4 v4, []) | None \<Rightarrow> (V6 bs, zone))"

text \<open>\<^verbatim>\<open>net.SplitHostPort\<close>; the errors are not told apart by the caller.\<close>

definition SplitHostPort :: "string \<Rightarrow> (string \<times> string) option" where
  "SplitHostPort s =
     (if CHR '':'' \<notin> set s then None
      else
        (let port = rev (takeWhile (\<lambda>c. c \<noteq> CHR '':'') (rev s)); i = length s - Suc (length port) in
         if take 1 s = ''['' then
           (let e = length (takeWhile (\<lambda>c. c \<noteq> CHR '']'') s) in
            if e = length s \<or> Suc e \<noteq> i then None
            else if CHR ''['' \<in> set (drop 1 s) \<or> CHR '']'' \<in> set (drop (Suc e) s) then None
            else Some (slice 1 e s, port))
         else if CHR '':'' \<in> set (take i s) then None
         else if CHR ''['' \<in> set s \<or> CHR '']'' \<in> set s then None
         else Some (take i s, port)))"

subsection \<open>Rust reads what Go prints\<close>

lemma digits_of_less: "2 \<le> b \<Longrightarrow> d \<in> set (digits_of b n) \<Longrightarrow> d < b"
proof (induction b n rule: digits_of.induct)
  case (1 b n)
  then show ?case by (cases "n < b") (auto simp: digits_of.simps [of b n])
qed

lemma digits_of_value: "2 \<le> b \<Longrightarrow> foldl (\<lambda>a d. b * a + d) 0 (digits_of b n) = n"
proof (induction b n rule: digits_of.induct)
  case (1 b n)
  then show ?case by (cases "n < b") (simp_all add: digits_of.simps [of b n])
qed

lemma digits_of_length: "2 \<le> b \<Longrightarrow> n < b ^ k \<Longrightarrow> 0 < k \<Longrightarrow> length (digits_of b n) \<le> k"
proof (induction b n arbitrary: k rule: digits_of.induct)
  case (1 b n)
  show ?case
  proof (cases "n < b")
    case False
    obtain j where j: "k = Suc j" using "1.prems"(3) by (cases k) auto
    then have k: "k = Suc j" "0 < j" using False "1.prems"(2) by (cases j; simp)+
    then have "n div b < b ^ j" using "1.prems" by (simp add: less_mult_imp_div_less mult.commute)
    then show ?thesis using "1.IH" [of j] False k "1.prems"(1) by (simp add: digits_of.simps [of b n])
  qed (use "1.prems" in \<open>simp add: digits_of.simps [of b n]\<close>)
qed

lemma digits_of_hd: "2 \<le> b \<Longrightarrow> 1 < length (digits_of b n) \<Longrightarrow> hd (digits_of b n) \<noteq> 0"
proof (induction b n rule: digits_of.induct)
  case (1 b n)
  show ?case
  proof (cases "n < b")
    case False
    show ?thesis
    proof (cases "n div b < b")
      case True
      then show ?thesis using False "1.prems"(1) div_greater_zero_iff [of n b]
        by (simp add: digits_of.simps [of b n] digits_of.simps [of b "n div b"])
    next
      case F: False
      then have "1 < length (digits_of b (n div b))" "digits_of b (n div b) \<noteq> []"
        using "1.prems"(1) by (simp_all add: digits_of.simps [of b "n div b"] digits_of.simps [of b "n div b div b"])
      then show ?thesis using False "1.IH" "1.prems"(1) by (simp add: digits_of.simps [of b n])
    qed
  qed (use "1.prems" in \<open>simp add: digits_of.simps [of b n]\<close>)
qed

lemma digits_of_not_Nil [simp]: "digits_of b n \<noteq> []"
  by (simp add: digits_of.simps)

lemma show_nat_digits: "show_nat n = map hex_char (digits_of 10 n)"
proof (induction n rule: show_nat.induct)
  case (1 n)
  then show ?case
    by (cases "n < 10") (simp_all add: show_nat.simps [of n] digits_of.simps [of 10 n] hex_char_def)
qed

lemma radix_digit_hex_char: "d < radix \<Longrightarrow> radix \<le> 16 \<Longrightarrow> radix_digit radix (hex_char d) = Some d"
  by (simp add: radix_digit_def hex_digit_hex_char)

definition no_digit :: "nat \<Rightarrow> string \<Rightarrow> bool" where
  "no_digit radix s \<longleftrightarrow> (case s of [] \<Rightarrow> True | c # _ \<Rightarrow> radix_digit radix c = None)"

lemma read_digits_print:
  assumes "\<And>d. d \<in> set ds \<Longrightarrow> d < radix" "radix \<le> 16" "count + length ds \<le> m" "no_digit radix rest"
  shows "read_digits radix (Some m) acc count (map hex_char ds @ rest) =
    Some (foldl (\<lambda>a d. radix * a + d) acc ds, count + length ds, rest)"
  using assms
proof (induction ds arbitrary: acc count)
  case Nil
  then show ?case by (cases rest) (auto simp: no_digit_def)
qed (simp add: radix_digit_hex_char)

lemma read_number_print:
  assumes "2 \<le> radix" "radix \<le> 16" "n < radix ^ m" "0 < m" "n < bound" "no_digit radix rest"
  shows "read_number radix (Some m) z bound (map hex_char (digits_of radix n) @ rest) = Some (n, rest)"
proof -
  let ?ds = "digits_of radix n"
  have "length ?ds \<le> m" using assms by (intro digits_of_length)
  then have "read_digits radix (Some m) 0 0 (map hex_char ?ds @ rest) = Some (n, length ?ds, rest)"
    using assms read_digits_print [of ?ds radix 0 m rest 0] digits_of_less [of radix _ n] by (simp add: digits_of_value)
  moreover have "hd ?ds \<noteq> 0 \<Longrightarrow> hex_char (hd ?ds) \<noteq> CHR ''0''"
    using hex_digit_hex_char [of "hd ?ds"] digits_of_less [OF assms(1), of "hd ?ds" n] assms(2)
    by (auto simp: hex_digit_def Let_def of_char_def)
  then have "\<not> (take 1 (map hex_char ?ds @ rest) = ''0'' \<and> 1 < length ?ds)"
    using digits_of_hd [OF assms(1), of n] by (cases ?ds) auto
  ultimately show ?thesis using assms(5) by (simp add: read_number_def)
qed
lemma no_digit_dot: "no_digit 10 (CHR ''.'' # s)"
  by (simp add: no_digit_def radix_digit_of_char of_char_def)

lemma no_digit_colon: "no_digit 16 (CHR '':'' # s)"
  by (simp add: no_digit_def radix_digit_of_char of_char_def)

lemma no_digit_Nil: "no_digit radix []"
  by (simp add: no_digit_def)

lemma read_octet_print: "no_digit 10 rest \<Longrightarrow> read_octet (show_nat (unat (b :: byte)) @ rest) = Some (unat b, rest)"
  unfolding read_octet_def show_nat_digits
  by (intro read_number_print) (simp_all add: less_trans [OF unat_byte_lt [of b]])

lemma read_ipv4_print:
  assumes "length bs = 4" "no_digit 10 rest"
  shows "read_ipv4_addr (v4_text bs @ rest) = Some (bs, rest)"
proof -
  obtain a b c d where bs: "bs = [a, b, c, d]"
    using assms(1) by (auto simp: length_Suc_conv eval_nat_numeral)
  have "v4_text bs = show_nat (unat a) @ CHR ''.'' # show_nat (unat b) @ CHR ''.'' # show_nat (unat c) @ CHR ''.'' # show_nat (unat d)"
    by (simp add: v4_text_def bs upt_rec)
  then show ?thesis
    using assms(2) by (simp add: read_ipv4_addr_def read_separator_def read_octet_print no_digit_dot bs)
qed

lemma read_digits_suffix: "read_digits radix m a k s = Some (v, n, rest) \<Longrightarrow> set rest \<subseteq> set s"
  by (induction radix m a k s arbitrary: v n rest rule: read_digits.induct) (fastforce split: option.splits if_splits)+

lemma read_number_suffix: "read_number radix m z b s = Some (v, rest) \<Longrightarrow> set rest \<subseteq> set s"
  by (auto simp: read_number_def dest!: read_digits_suffix split: option.splits if_splits)

lemma read_ipv4_needs_dot:
  assumes "CHR ''.'' \<notin> set s" shows "read_ipv4_addr s = None"
proof (cases "read_octet s")
  case (Some r)
  obtain a t where r: "r = (a, t)" by (cases r)
  then have "set t \<subseteq> set s" using Some read_number_suffix by (auto simp: read_octet_def)
  then have "read_given_char CHR ''.'' t = None" using assms by (cases t) auto
  then show ?thesis by (simp add: read_ipv4_addr_def read_separator_def Some r)
qed (simp add: read_ipv4_addr_def read_separator_def)

lemma hex_char_plain: "d < 16 \<Longrightarrow> hex_char d \<noteq> CHR ''.'' \<and> hex_char d \<noteq> CHR '':'' \<and> hex_char d \<noteq> CHR ''%''"
  using hex_digit_hex_char [of d] by (auto simp: hex_digit_def Let_def of_char_def)

lemma groups_text_plain: "CHR ''.'' \<notin> set (groups_text i gs) \<and> CHR ''%'' \<notin> set (groups_text i gs)"
proof (induction gs arbitrary: i)
  case (Cons g gs)
  have "CHR ''.'' \<notin> set (hex_text g) \<and> CHR ''%'' \<notin> set (hex_text g)"
    using digits_of_less [of 16 _ g] hex_char_plain by (force simp: hex_text_def)
  with Cons [of "Suc i"] show ?case by simp
qed simp

lemma read_group_print:
  "g < 65536 \<Longrightarrow> no_digit 16 rest \<Longrightarrow> read_number 16 (Some 4) True 65536 (hex_text g @ rest) = Some (g, rest)"
  unfolding hex_text_def by (intro read_number_print) simp_all

definition stops :: "string \<Rightarrow> bool" where
  "stops s \<longleftrightarrow> s = [] \<or> (\<exists>r. s = CHR '':'' # CHR '':'' # r)"

lemma read_number_none: "no_digit radix s \<Longrightarrow> read_number radix m z b s = None"
  by (cases s) (simp_all add: read_number_def no_digit_def)

lemma stops_no_group: "stops s \<Longrightarrow> read_separator CHR '':'' i (read_number 16 (Some 4) True 65536) s = None"
  by (auto simp: stops_def read_separator_def read_number_none no_digit_Nil no_digit_colon)

lemma read_separator_no_dot:
  "CHR ''.'' \<notin> set s \<Longrightarrow> read_separator CHR '':'' i read_ipv4_addr s = None"
  by (cases s) (auto simp: read_separator_def read_ipv4_needs_dot)

lemma stops_no_digit: "stops s \<Longrightarrow> no_digit 16 s"
  by (cases s) (auto simp: stops_def no_digit_Nil no_digit_colon)

lemma read_groups_print:
  assumes "\<And>g. g \<in> set gs \<Longrightarrow> g < 65536" "length gs \<le> n" "stops rest" "CHR ''.'' \<notin> set rest"
  shows "read_groups limit i n (groups_text i gs @ rest) =
    ((concat (map (\<lambda>g. to_be16 (word_of_nat g)) gs), i + length gs, False), rest)"
  using assms
proof (induction gs arbitrary: i n)
  case Nil
  then show ?case by (cases n) (simp_all add: stops_no_group read_separator_no_dot)
next
  case (Cons g gs)
  then obtain k where n: "n = Suc k" by (cases n) auto
  let ?r = "groups_text (Suc i) gs @ rest"
  have dots: "CHR ''.'' \<notin> set (groups_text i (g # gs) @ rest)"
    using groups_text_plain [of i "g # gs"] Cons.prems(4) by (simp only: set_append Un_iff simp_thms)
  have "no_digit 16 ?r" using Cons.prems(3) by (cases gs) (simp_all add: stops_no_digit no_digit_colon)
  then have "read_separator CHR '':'' i (read_number 16 (Some 4) True 65536) (groups_text i (g # gs) @ rest) = Some (g, ?r)"
    using Cons.prems(1) by (cases "0 < i") (auto simp: read_separator_def read_group_print)
  moreover have "read_groups limit (Suc i) k ?r =
      ((concat (map (\<lambda>g. to_be16 (word_of_nat g)) gs), Suc i + length gs, False), rest)"
    using Cons by (intro Cons.IH) (simp_all add: n)
  ultimately show ?case
    unfolding n read_groups.simps read_separator_no_dot [OF dots] by simp
qed

lemma groups_of_length: "length (groups_of bs) = length bs div 2"
  by (induction bs rule: groups_of.induct) simp_all

lemma groups_of_less: "g \<in> set (groups_of bs) \<Longrightarrow> g < 65536"
  by (induction bs rule: groups_of.induct) auto

lemma groups_of_bytes: "even (length bs) \<Longrightarrow> concat (map (\<lambda>g. to_be16 (word_of_nat g)) (groups_of bs)) = bs"
  by (induction bs rule: groups_of.induct) simp_all

lemma zero_run_spec:
  assumes "zero_run gs = Some (s, e)"
  shows "s + 2 \<le> e \<and> e \<le> length gs \<and> gs = take s gs @ replicate (e - s) 0 @ drop e gs"
proof -
  have run: "take (zeros_at gs i) (drop i gs) = replicate (zeros_at gs i) 0" for i
  proof -
    have "takeWhile (\<lambda>g. g = 0) xs = replicate (length (takeWhile (\<lambda>g. g = 0) xs)) 0" for xs :: "nat list"
      by (rule replicate_eqI) (auto dest: set_takeWhileD)
    then show ?thesis by (metis takeWhile_eq_take zeros_at_def)
  qed
  have ok: "i + zeros_at gs i \<le> length gs \<and> gs = take i gs @ replicate (zeros_at gs i) 0 @ drop (i + zeros_at gs i) gs"
    if "2 \<le> zeros_at gs i" for i
  proof
    show "i + zeros_at gs i \<le> length gs"
      using that length_takeWhile_le [of "\<lambda>g. g = 0" "drop i gs"] by (simp add: zeros_at_def)
    have "drop i gs = replicate (zeros_at gs i) 0 @ drop (zeros_at gs i) (drop i gs)"
      using run [of i] append_take_drop_id [of "zeros_at gs i" "drop i gs"] by simp
    then show "gs = take i gs @ replicate (zeros_at gs i) 0 @ drop (i + zeros_at gs i) gs"
      by (metis add.commute append_take_drop_id drop_drop)
  qed
  define good where "good s e \<longleftrightarrow> s + 2 \<le> e \<and> e \<le> length gs \<and> gs = take s gs @ replicate (e - s) 0 @ drop e gs" for s e
  have step: "good i (i + zeros_at gs i)" if "2 \<le> zeros_at gs i" for i
    unfolding good_def add_diff_cancel_left' add_le_cancel_left using ok [OF that] that by blast
  have "pred_option (\<lambda>(s, e). good s e) (fold (\<lambda>i best. let l = zeros_at gs i in
     if 2 \<le> l \<and> (case best of None \<Rightarrow> 0 | Some (s, e) \<Rightarrow> e - s) < l then Some (i, i + l) else best) is best)"
    if "pred_option (\<lambda>(s, e). good s e) best" for "is" best
    using that by (induction "is" arbitrary: best) (simp_all add: Let_def step)
  from this [of None "[0..<length gs]"] assms have "good s e" unfolding zero_run_def [symmetric] by simp
  then show ?thesis unfolding good_def .
qed

lemma read_ipv6_print:
  assumes "length bs = 16" shows "read_ipv6_addr (v6_text bs) = Some (bs, [])"
proof -
  define gs where "gs = groups_of bs"
  define enc where "enc = (\<lambda>gs. concat (map (\<lambda>g. to_be16 (word_of_nat g)) gs))"
  have len: "length gs = 8" using assms by (simp add: gs_def groups_of_length)
  have gs: "\<And>g. g \<in> set gs \<Longrightarrow> g < 65536" "enc gs = bs"
    using assms groups_of_less groups_of_bytes [of bs] by (auto simp: gs_def enc_def)
  have enc: "enc (xs @ ys) = enc xs @ enc ys" "length (enc xs) = 2 * length xs" "enc (replicate k 0) = replicate (2 * k) 0" for xs ys k
    by (auto simp: enc_def length_concat comp_def to_be16_def sum_list_triv) (induction k; simp)
  show ?thesis
  proof (cases "zero_run gs")
    case None
    have "read_groups 8 0 8 (groups_text 0 gs) = ((enc gs, 8, False), [])"
      using read_groups_print [of gs 8 "[]" 8 0] gs(1) len by (simp add: stops_def enc_def)
    then show ?thesis using None gs(2) by (simp add: v6_text_def gs_def [symmetric] Let_def read_ipv6_addr_def)
  next
    case (Some r)
    obtain s e where r: "r = (s, e)" by (cases r)
    have se: "s + 2 \<le> e" "e \<le> 8" and split: "gs = take s gs @ replicate (e - s) 0 @ drop e gs"
      using zero_run_spec [OF Some [unfolded r], unfolded len] by blast+
    let ?tail = "groups_text 0 (drop e gs)"
    have "\<And>g. g \<in> set (take s gs) \<Longrightarrow> g < 65536" "\<And>g. g \<in> set (drop e gs) \<Longrightarrow> g < 65536"
      using gs(1) by (auto dest: in_set_takeD in_set_dropD)
    note ends = read_groups_print [OF this(1)] read_groups_print [OF this(2)]
    have "read_groups 8 0 8 (groups_text 0 (take s gs) @ CHR '':'' # CHR '':'' # ?tail) =
        ((enc (take s gs), s, False), CHR '':'' # CHR '':'' # ?tail)"
      using ends(1) [where n = 8 and rest = "CHR '':'' # CHR '':'' # ?tail" and limit = 8 and i = 0] len se groups_text_plain by (simp add: stops_def enc_def)
    moreover have "read_groups (8 - (s + 1)) 0 (8 - (s + 1)) ?tail = ((enc (drop e gs), 8 - e, False), [])"
      using ends(2) [where n = "8 - (s + 1)" and rest = "[]" and limit = "8 - (s + 1)" and i = 0] len se by (simp add: stops_def enc_def)
    moreover have "enc (take s gs) @ replicate (16 - length (enc (take s gs)) - length (enc (drop e gs))) 0 @ enc (drop e gs) = bs"
    proof -
      have "16 - length (enc (take s gs)) - length (enc (drop e gs)) = 2 * (e - s)" using se len by (simp add: enc(2))
      moreover have "bs = enc (take s gs) @ enc (replicate (e - s) 0) @ enc (drop e gs)"
        using arg_cong [OF split, of enc] unfolding gs(2) enc(1) .
      ultimately show ?thesis by (simp add: enc(3))
    qed
    ultimately show ?thesis
      using Some r se len by (simp add: v6_text_def gs_def [symmetric] Let_def read_ipv6_addr_def)
  qed
qed
lemma v6_text_plain: "CHR ''.'' \<notin> set (v6_text bs) \<and> CHR ''%'' \<notin> set (v6_text bs)"
  using groups_text_plain by (auto simp: v6_text_def Let_def split: option.split)

lemma parse_ip_text:
  assumes "wf_ip a" "to_canonical a = a" shows "parse_ip (addr_text (a, [])) = Some a"
proof (cases a)
  case (V4 bs)
  then show ?thesis using assms(1) read_ipv4_print [of bs "[]"] by (simp add: parse_ip_def read_ip_addr_def no_digit_Nil)
next
  case (V6 bs)
  then have "to_ipv4_mapped bs = None" using assms(2) by (auto split: option.splits)
  then show ?thesis
    using V6 assms(1) v6_text_plain [of bs]
    by (simp add: parse_ip_def read_ip_addr_def read_ipv4_needs_dot read_ipv6_print)
qed

text \<open>
  An unmapped address without a zone is read back as itself, so two such addresses print alike only
  if they are the same.
\<close>

lemma ParseAddr_plain:
  "CHR ''%'' \<notin> set s \<Longrightarrow> ParseAddr s = map_option (\<lambda>ip. (ip, [])) (parse_ip s)"
  by (simp add: ParseAddr_def Let_def)

lemma fst_Unmap: "fst (Unmap a) = to_canonical (fst a)"
  by (cases a rule: Unmap.cases) (auto split: option.split)

lemma Unmap_zone: "snd (Unmap (a, [])) = []"
  by (cases a) (auto split: option.split)

lemma ParseAddr_wf:
  assumes "ParseAddr s = Some a" shows "wf_ip (fst a)"
proof (cases "dropWhile (\<lambda>c. c \<noteq> CHR ''%'') s = []")
  case True
  then show ?thesis using assms parse_ip_wf [of s] by (auto simp: ParseAddr_def Let_def simp del: dropWhile_eq_Nil_conv)
next
  case False
  define pre where "pre = takeWhile (\<lambda>c. c \<noteq> CHR ''%'') s"
  obtain v6 where "read_ipv6_addr pre = Some (v6, [])" "fst a = V6 v6"
    using assms False unfolding ParseAddr_def Let_def pre_def [symmetric]
    by (auto simp del: dropWhile_eq_Nil_conv split: if_splits option.splits list.splits)
  then show ?thesis using read_ipv6_length [of pre] by simp
qed

end
