(* ===== verification/Authority_Db.thy ===== *)
theory Authority_Db
  imports Go_Text
begin

text \<open>
  The state the authority works on and how its request handlers run. The tables are those of
  \<^verbatim>\<open>authority/migrations\<close>; \<open>memories\<close> is what each running instance keeps in memory. A handler is a
  program that does one atomic thing at a time: a statement of the database, or a critical section
  of its instance. Between two steps of one handler any other handler of any instance may run, which
  \<open>pool_step\<close> says: a schedule picks the next handler to make a step, or an event of the environment.
  How the next statement ends is part of the environment: it succeeds, it fails, or it takes effect
  and its reply is lost.
\<close>

section \<open>Programs\<close>

datatype ('s, 'a) prog = Ret 'a | Step "'s \<Rightarrow> ('s, 'a) prog \<times> 's"

lemma prog_induct [case_names Ret Step]:
  assumes "\<And>a. P (Ret a)" "\<And>f. (\<And>s. P (fst (f s))) \<Longrightarrow> P (Step f)"
  shows "P p"
proof (induction p)
  case (Step f)
  have "P (fst (f s))" for s by (rule Step [OF rangeI [of f s]]) (cases "f s", simp)
  then show ?case by (rule assms(2))
qed (rule assms(1))

primrec seq :: "('s, 'a) prog \<Rightarrow> ('a \<Rightarrow> ('s, 'b) prog) \<Rightarrow> ('s, 'b) prog" where
  "seq (Ret a) k = k a"
| "seq (Step f) k = Step (\<lambda>s. map_prod (\<lambda>p. seq p k) id (f s))"

definition atomically :: "('s \<Rightarrow> 'a \<times> 's) \<Rightarrow> ('s, 'a) prog" where
  "atomically f = Step (\<lambda>s. map_prod Ret id (f s))"

text \<open>Alone, with the environment's functions applied before each step.\<close>

primrec run_in :: "('s, 'a) prog \<Rightarrow> ('s \<Rightarrow> 's) list \<Rightarrow> 's \<Rightarrow> 'a \<times> 's" where
  "run_in (Ret a) = (\<lambda>env s. (a, s))"
| "run_in (Step f) = (\<lambda>env s.
     (case map_prod (\<lambda>p. run_in p) id (f (case env of [] \<Rightarrow> s | g # _ \<Rightarrow> g s)) of (w, t) \<Rightarrow> w (tl env) t))"

text \<open>Together.\<close>

datatype 'e sched = Env 'e | Run nat

fun pool_step :: "('s \<Rightarrow> 'e \<Rightarrow> 's) \<Rightarrow> ('s, 'a) prog list \<times> 's \<Rightarrow> 'e sched \<Rightarrow> ('s, 'a) prog list \<times> 's" where
  "pool_step env (ps, s) (Env e) = (ps, env s e)"
| "pool_step env (ps, s) (Run i) =
     (if i < length ps then
        (case ps ! i of
           Ret a \<Rightarrow> (ps, s)
         | Step f \<Rightarrow> (case f s of (p, t) \<Rightarrow> (ps[i := p], t)))
      else (ps, s))"

section \<open>What a program ensures under interference\<close>

text \<open>
  \<open>ensures inv below Q p s\<close>: started when the state is \<open>s\<close> or later in the order \<open>below\<close>, every step of
  \<open>p\<close>, taken in any later state with the invariant, keeps the invariant and only moves up, and the
  result satisfies \<open>Q\<close> in the state it is returned in.
\<close>

primrec ensures :: "('s \<Rightarrow> bool) \<Rightarrow> ('s \<Rightarrow> 's \<Rightarrow> bool) \<Rightarrow> ('s \<Rightarrow> 'a \<Rightarrow> bool) \<Rightarrow> ('s, 'a) prog \<Rightarrow> 's \<Rightarrow> bool" where
  "ensures holds below Q (Ret a) = (\<lambda>s. Q s a)"
| "ensures holds below Q (Step f) = (\<lambda>s. \<forall>t. holds t \<longrightarrow> below s t \<longrightarrow>
     (case map_prod (ensures holds below Q) id (f t) of (w, u) \<Rightarrow> holds u \<and> below t u \<and> w u))"

context event_system
begin

lemma ensures_later:
  assumes "ensures inv below Q p s" "below s t" "\<And>a s t. Q s a \<Longrightarrow> below s t \<Longrightarrow> Q t a"
  shows "ensures inv below Q p t"
  using assms by (cases p) (auto intro: below_trans)

lemma ensures_atomically:
  assumes "\<And>t. inv t \<Longrightarrow> below s t \<Longrightarrow> inv (snd (f t)) \<and> below t (snd (f t)) \<and> Q (snd (f t)) (fst (f t))"
  shows "ensures inv below Q (atomically f) s"
  using assms by (auto simp: atomically_def map_prod_def split: prod.split) (metis fst_conv snd_conv)+

lemma ensures_seq:
  assumes "ensures inv below R p s" "\<And>t a. below s t \<Longrightarrow> R t a \<Longrightarrow> ensures inv below Q (k a) t"
  shows "ensures inv below Q (seq p k) s"
  using assms
proof (induction p arbitrary: s rule: prog_induct)
  case (Ret a)
  then show ?case using below_refl by simp
next
  case (Step f)
  show ?case
  proof (clarsimp simp: map_prod_def split: prod.splits)
    fix t p u assume t: "inv t" "below s t" and f: "f t = (p, u)"
    from Step.prems(1) t f have u: "inv u" "below t u" "ensures inv below R p u" by fastforce+
    have "ensures inv below Q (seq p k) u"
    proof (rule Step.IH [of t, unfolded f fst_conv])
      show "ensures inv below Q (k a) v" if "below u v" "R v a" for v a
        using Step.prems(2) that below_trans [OF t(2) below_trans [OF u(2) that(1)]] by blast
    qed (rule u(3))
    then show "inv u \<and> below t u \<and> ensures inv below Q (seq p k) u" using u by blast
  qed
qed

lemma ensures_mono:
  assumes "ensures inv below R p s" "\<And>t a. R t a \<Longrightarrow> Q t a"
  shows "ensures inv below Q p s"
proof -
  have "ensures inv below Q (seq p Ret) s" by (rule ensures_seq [OF assms(1)]) (use assms(2) in simp)
  moreover have "seq p Ret = p"
  proof (induction p rule: prog_induct)
    case (Step f)
    then have "map_prod (\<lambda>p. seq p Ret) id (f s) = f s" for s by (simp add: map_prod_def split_beta)
    then show ?case by simp
  qed simp
  ultimately show ?thesis by simp
qed

text \<open>Whatever the schedule, the invariant holds and every handler that has returned has ensured its result.\<close>

lemma pool_ensures:
  assumes "inv s" "\<And>i. i < length ps \<Longrightarrow> ensures inv below (Q i) (ps ! i) s"
    and stable: "\<And>i a s t. Q i s a \<Longrightarrow> below s t \<Longrightarrow> Q i t a"
    and "foldl (pool_step step) (ps, s) es = (qs, t)"
  shows "inv t \<and> below s t \<and> length qs = length ps \<and> (\<forall>i < length ps. ensures inv below (Q i) (qs ! i) t)"
  using assms(1,2,4)
proof (induction es arbitrary: ps s)
  case Nil
  then show ?case by (auto simp: below_refl)
next
  case (Cons e es)
  obtain ps' s' where e: "pool_step step (ps, s) e = (ps', s')" by (metis prod.exhaust)
  have later: "ensures inv below (Q i) (ps ! i) u" if "i < length ps" "below s u" for i u
    using Cons.prems(2) [OF that(1)] that(2) stable by (rule ensures_later)
  have next_state: "inv s' \<and> below s s' \<and> length ps' = length ps
      \<and> (\<forall>i < length ps. ensures inv below (Q i) (ps' ! i) s')"
  proof (cases e)
    case (Env v)
    then show ?thesis using e Cons.prems(1) inv_step below_step later by auto
  next
    case (Run i)
    show ?thesis
    proof (cases "i < length ps \<and> (\<exists>f. ps ! i = Step f)")
      case True
      then obtain f p u where f: "i < length ps" "ps ! i = Step f" "f s = (p, u)" by (metis prod.exhaust)
      then have u: "inv u" "below s u" "ensures inv below (Q i) p u"
        using Cons.prems(1) Cons.prems(2) [OF f(1)] below_refl [of s] by fastforce+
      have "ps' = ps[i := p]" "s' = u" using e Run f by auto
      then show ?thesis
        using u f(1) later by (auto simp: nth_list_update)
    next
      case False
      then have "ps' = ps" "s' = s" using e Run by (auto split: prog.splits)
      then show ?thesis using Cons.prems below_refl by auto
    qed
  qed
  have "inv t \<and> below s' t \<and> length qs = length ps' \<and> (\<forall>i < length ps'. ensures inv below (Q i) (qs ! i) t)"
    using Cons.prems(3) e next_state by (intro Cons.IH) auto
  then show ?case using next_state below_trans by auto
qed

end

section \<open>Tables\<close>

record relay_row =
  rn_id :: string
  rn_api_key_hash :: string
  rn_tls_name :: string
  rn_region :: string
  rn_role :: string
  rn_status :: string
  rn_ip :: IpAddr
  rn_port :: int
  rn_static_pubkey :: bytes
  rn_operator_id :: string
  rn_host_id :: string
  rn_last_heartbeat :: "nat option"
  rn_created_at :: nat

record doc_row =
  rd_version :: int
  rd_valid_after :: nat
  rd_document :: bytes
  rd_signatures :: bytes

record subscriber_row =
  su_id :: string
  su_email :: string
  su_password :: string
  su_role :: string
  su_created_at :: nat

record session_row =
  se_id :: string
  se_subscriber_id :: string
  se_expires_at :: nat

record subscription_row =
  sb_subscriber_id :: string
  sb_tier :: string
  sb_status :: string
  sb_tokens_issued :: int
  sb_created_at :: nat
  sb_bandwidth_used :: int
  sb_period_start :: nat
  sb_period_end :: nat

record event_row =
  ev_id :: string
  ev_subscriber_id :: string
  ev_issued_at :: nat

text \<open>
  What an instance keeps in memory: the publisher's last document and the rate limiter's attempts
  by address.
\<close>

record memory =
  lastDoc :: "bytes option"
  lastSigs :: "SignatureEntry list"
  lastTil :: nat
  attempts :: "string \<Rightarrow> nat list"

definition fresh_memory :: memory where
  "fresh_memory = \<lparr>lastDoc = None, lastSigs = [], lastTil = 0, attempts = \<lambda>_. []\<rparr>"

datatype stmt_outcome = StmtDone | StmtFailed | ReplyLost

record authority =
  relay_nodes :: "relay_row list"
  registry_documents :: "doc_row list"
  subscribers :: "subscriber_row list"
  sessions :: "session_row list"
  subscriptions :: "subscription_row list"
  token_issuance_events :: "event_row list"
  db_clock :: nat
  stmt_outcome :: stmt_outcome
  memories :: "nat \<Rightarrow> memory"

definition empty_authority :: authority where
  "empty_authority = \<lparr>relay_nodes = [], registry_documents = [], subscribers = [], sessions = [], subscriptions = [],
     token_issuance_events = [], db_clock = 0, stmt_outcome = StmtDone, memories = \<lambda>_. fresh_memory\<rparr>"

section \<open>Statements\<close>

datatype sql_error = NoRows | UniqueViolation | SqlError

type_synonym 'a sql = "authority \<Rightarrow> (sql_error + 'a) \<times> authority"
type_synonym 'a handler = "(authority, 'a) prog"

text \<open>A statement as the handler sees it.\<close>

definition exec_sql :: "'a sql \<Rightarrow> 'a sql" where
  "exec_sql q s =
     (case stmt_outcome s of
        StmtDone \<Rightarrow> q s
      | StmtFailed \<Rightarrow> (Inl SqlError, s)
      | ReplyLost \<Rightarrow> (Inl SqlError, snd (q s)))"

definition sql :: "'a sql \<Rightarrow> (sql_error + 'a) handler" where
  "sql q = atomically (exec_sql q)"

text \<open>The first row of a query: \<^verbatim>\<open>QueryRow(...).Scan(...)\<close>.\<close>

definition query_row :: "(authority \<Rightarrow> 'a list) \<Rightarrow> 'a sql" where
  "query_row rows s = (case rows s of [] \<Rightarrow> Inl NoRows | r # _ \<Rightarrow> Inr r, s)"

text \<open>The database's clock counts microseconds, the resolution of its timestamps.\<close>

definition db_secs :: "nat \<Rightarrow> nat" where
  "db_secs n = n * 1000000"

text \<open>The environment: how the next statements end, the database's clock, and restarts of an instance.\<close>

datatype db_event = Outcome stmt_outcome | Tick nat | InstanceRestart nat

fun db_env :: "authority \<Rightarrow> db_event \<Rightarrow> authority" where
  "db_env s (Outcome r) = s\<lparr>stmt_outcome := r\<rparr>"
| "db_env s (Tick n) = s\<lparr>db_clock := db_clock s + n\<rparr>"
| "db_env s (InstanceRestart i) = s\<lparr>memories := (memories s)(i := fresh_memory)\<rparr>"

text \<open>A critical section of the instance \<open>i\<close>.\<close>

definition locked :: "nat \<Rightarrow> (memory \<Rightarrow> 'a \<times> memory) \<Rightarrow> 'a handler" where
  "locked i f = atomically (\<lambda>s. case f (memories s i) of (a, m) \<Rightarrow> (a, s\<lparr>memories := (memories s)(i := m)\<rparr>))"

lemma exec_sql_state: "snd (exec_sql q s) = s \<or> snd (exec_sql q s) = snd (q s)"
  by (simp add: exec_sql_def split: stmt_outcome.split)

lemma exec_sql_Inr: "fst (exec_sql q s) = Inr a \<Longrightarrow> exec_sql q s = q s"
  by (auto simp: exec_sql_def split: stmt_outcome.splits)

lemma exec_sql_StmtDone: "stmt_outcome s = StmtDone \<Longrightarrow> exec_sql q s = q s"
  by (simp add: exec_sql_def)

lemma query_row_state [simp]: "snd (query_row rows s) = s"
  by (simp add: query_row_def)

lemma query_row_Inr: "fst (query_row rows s) = Inr a \<longleftrightarrow> (\<exists>rs. rows s = a # rs)"
  by (auto simp: query_row_def split: list.split)

lemma exec_query [simp]: "snd (exec_sql (query_row rows) s) = s"
  using exec_sql_state [of "query_row rows" s] by auto

section \<open>Requests and responses\<close>

text \<open>
  An absent header reads as the empty string. Bodies are decoded by \<^verbatim>\<open>encoding/json\<close>, whose decoders for
  each request type are arguments of the handlers, with \<open>None\<close> for an error.
\<close>

record http_request =
  RemoteAddr :: string
  Authorization :: string
  CF_Connecting_IP :: string
  jwt_cookie :: "string option"
  session_cookie :: "string option"
  Body :: bytes

datatype json = JNull | JStr string | JNum int | JObj "(string \<times> json) list" | JArr "json list"

record http_response =
  status_code :: nat
  content :: "json option"
  set_cookies :: "(string \<times> string) list"

definition writeJSON :: "nat \<Rightarrow> json \<Rightarrow> http_response" where
  "writeJSON status v = \<lparr>status_code = status, content = Some v, set_cookies = []\<rparr>"

abbreviation error_json :: "nat \<Rightarrow> string \<Rightarrow> http_response" where
  "error_json status e \<equiv> writeJSON status (JObj [(''error'', JStr e)])"

abbreviation no_content :: http_response where
  "no_content \<equiv> \<lparr>status_code = 204, content = None, set_cookies = []\<rparr>"

lemma writeJSON_simps [simp]:
  "status_code (writeJSON n v) = n" "content (writeJSON n v) = Some v" "set_cookies (writeJSON n v) = []"
  by (simp_all add: writeJSON_def)

text \<open>The token of a header of the form \<^verbatim>\<open>Bearer\<close> and a space.\<close>

definition bearer :: "string \<Rightarrow> string option" where
  "bearer h = (if take 7 h = ''Bearer '' then Some (drop 7 h) else None)"

section \<open>Programs that differ only in their result\<close>

lemma seq_assoc: "seq (seq p k) l = seq p (\<lambda>x. seq (k x) l)"
proof (induction p rule: prog_induct)
  case (Step f)
  then show ?case by (auto simp: map_prod_def split_beta fun_eq_iff)
qed simp

lemma run_in_result: "run_in (seq p (\<lambda>x. Ret (f x))) env s = map_prod f id (run_in p env s)"
proof (induction p arbitrary: env s rule: prog_induct)
  case (Step g)
  then show ?case by (simp add: map_prod_def split_beta)
qed simp

lemma run_in_seq_sql:
  "run_in (seq (sql q) k) env s =
     (let s0 = (case env of [] \<Rightarrow> s | g # _ \<Rightarrow> g s) in run_in (k (fst (exec_sql q s0))) (tl env) (snd (exec_sql q s0)))"
  by (simp add: sql_def atomically_def Let_def map_prod_def split_beta)
end
