(* ===== verification/Relay_Admin.thy ===== *)
theory Relay_Admin
  imports Authority_Db
begin

text \<open>
  Relays at the authority (\<^verbatim>\<open>authority/internal/relay/relay.go\<close>, \<^verbatim>\<open>handlers/relay.go\<close>): provisioning,
  heartbeats and the sweep of silent relays. SHA-256 and the JSON decoders are arguments. A text in an
  \<^verbatim>\<open>INET\<close> column is read as an address: the handlers only pass what \<^verbatim>\<open>netip\<close> prints. The listing for the
  administrator only reads and is not modelled.
\<close>

section \<open>Data\<close>

datatype relay_error =
  ErrInvalidRole | ErrUnknownRelay | ErrInvalidStaticKey | ErrMissingIdentifier | ErrInvalidAddress
  | ErrStaticKeyMismatch string | ErrRandom | ErrDatabase

definition StaticKeyLen :: nat where
  "StaticKeyLen = 32"

definition ValidateStaticKey :: "bytes \<Rightarrow> bool" where
  "ValidateStaticKey key \<longleftrightarrow> length key = StaticKeyLen"

definition validRole :: "string \<Rightarrow> bool" where
  "validRole role \<longleftrightarrow> role = ''guard'' \<or> role = ''middle'' \<or> role = ''exit''"

definition hexEncode :: "bytes \<Rightarrow> string" where
  "hexEncode bs = concat (map hex_byte bs)"

lemma decode_hex_hexEncode [simp]: "decode_hex (hexEncode bs) = Some bs"
  by (simp add: hexEncode_def)

lemma hexEncode_digits: "length (hexEncode bs) = 2 * length bs"
  "list_all (\<lambda>b. hex_digit b \<noteq> None) (as_bytes (hexEncode bs))"
proof -
  have "unat c div 16 < 16" "unat c mod 16 < 16" for c :: byte using unat_byte_lt [of c] by (simp_all add: div_less_iff_less_mult)
  then show "list_all (\<lambda>b. hex_digit b \<noteq> None) (as_bytes (hexEncode bs))"
    by (induction bs) (simp_all add: hexEncode_def hex_byte_def nibble_def as_bytes_def hex_digit_hex_char)
  show "length (hexEncode bs) = 2 * length bs"
    by (induction bs) (simp_all add: hexEncode_def hex_byte_def)
qed

definition hashAPIKey :: "(bytes \<Rightarrow> bytes) \<Rightarrow> string \<Rightarrow> string \<Rightarrow> string" where
  "hashAPIKey sha salt plaintext = hexEncode (sha (as_bytes salt @ as_bytes plaintext))"

text \<open>The draw of \<^verbatim>\<open>crypto/rand\<close> is an argument; \<open>None\<close> is its error.\<close>

definition generateAPIKey :: "bytes option \<Rightarrow> relay_error + string" where
  "generateAPIKey draw = ok_or ErrRandom (map_option hexEncode draw)"

section \<open>Statements\<close>

text \<open>
  The constraints of the migrations on a row of \<^verbatim>\<open>relay_nodes\<close>. An identifier is a \<^verbatim>\<open>uuid\<close>, so it has a
  text, and a \<^verbatim>\<open>text\<close> column holds UTF-8.
\<close>

definition relay_constraints :: "relay_row \<Rightarrow> bool" where
  "relay_constraints r \<longleftrightarrow> length (rn_static_pubkey r) = 32 \<and> 1 \<le> rn_port r \<and> rn_port r \<le> 65535
     \<and> rn_operator_id r \<noteq> [] \<and> rn_host_id r \<noteq> [] \<and> to_canonical (rn_ip r) = rn_ip r
     \<and> rn_id r \<noteq> [] \<and> list_all is_str [rn_tls_name r, rn_region r, rn_operator_id r, rn_host_id r]"

text \<open>The column \<^verbatim>\<open>created_at\<close> defaults to the time of the statement.\<close>

definition insert_relay :: "relay_row \<Rightarrow> string sql" where
  "insert_relay r s =
     (if rn_id r \<in> rn_id ` set (relay_nodes s) then (Inl UniqueViolation, s)
      else if \<not> relay_constraints r then (Inl SqlError, s)
      else (Inr (rn_id r), s\<lparr>relay_nodes := relay_nodes s @ [r\<lparr>rn_created_at := db_clock s\<rparr>]\<rparr>))"

definition heartbeat_matches :: "string \<Rightarrow> bytes option \<Rightarrow> relay_row \<Rightarrow> bool" where
  "heartbeat_matches hash offered r \<longleftrightarrow> rn_api_key_hash r = hash
     \<and> (case offered of None \<Rightarrow> True | Some k \<Rightarrow> rn_static_pubkey r = k)"

definition update_heartbeat :: "string \<Rightarrow> bytes option \<Rightarrow> string sql" where
  "update_heartbeat hash offered s =
     (let hit = heartbeat_matches hash offered;
          rows = map (\<lambda>r. if hit r then r\<lparr>rn_status := ''active'', rn_last_heartbeat := Some (db_clock s)\<rparr> else r) (relay_nodes s)
      in (case filter hit (relay_nodes s) of [] \<Rightarrow> Inl NoRows | r # _ \<Rightarrow> Inr (rn_id r), s\<lparr>relay_nodes := rows\<rparr>))"

definition silent :: "nat \<Rightarrow> nat \<Rightarrow> relay_row \<Rightarrow> bool" where
  "silent now secs r \<longleftrightarrow> rn_status r = ''active''
     \<and> (case rn_last_heartbeat r of None \<Rightarrow> True | Some t \<Rightarrow> t + db_secs secs < now)"

definition update_inactive :: "nat \<Rightarrow> nat sql" where
  "update_inactive secs s =
     (let hit = silent (db_clock s) secs in
      (Inr (length (filter hit (relay_nodes s))),
       s\<lparr>relay_nodes := map (\<lambda>r. if hit r then r\<lparr>rn_status := ''inactive''\<rparr> else r) (relay_nodes s)\<rparr>))"

section \<open>Operations\<close>

definition ProvisionRelay :: "(bytes \<Rightarrow> bytes) \<Rightarrow> string \<Rightarrow> string \<Rightarrow> string \<Rightarrow> string \<Rightarrow> string \<Rightarrow> int \<Rightarrow> bytes \<Rightarrow>
    string \<Rightarrow> string \<Rightarrow> bytes option \<Rightarrow> string \<Rightarrow> (relay_error + string \<times> string) handler" where
  "ProvisionRelay sha salt tlsName region role ip port staticPubkey operatorID hostID draw uuid =
     (if \<not> validRole role then Ret (Inl ErrInvalidRole)
      else if operatorID = [] \<or> hostID = [] then Ret (Inl ErrMissingIdentifier)
      else if \<not> ValidateStaticKey staticPubkey then Ret (Inl ErrInvalidStaticKey)
      else case ParseAddr ip of
        None \<Rightarrow> Ret (Inl ErrInvalidAddress)
      | Some addr \<Rightarrow>
          if port < 1 \<or> port > 65535 then Ret (Inl ErrInvalidAddress)
          else case generateAPIKey draw of
            Inl e \<Rightarrow> Ret (Inl e)
          | Inr plaintext \<Rightarrow>
              (case parse_ip (addr_text (Unmap addr)) of
                 None \<Rightarrow> Ret (Inl ErrDatabase)
               | Some inet \<Rightarrow>
                   seq (sql (insert_relay \<lparr>rn_id = uuid, rn_api_key_hash = hashAPIKey sha salt plaintext, rn_tls_name = tlsName,
                       rn_region = region, rn_role = role, rn_status = ''inactive'', rn_ip = inet, rn_port = port,
                       rn_static_pubkey = staticPubkey, rn_operator_id = operatorID, rn_host_id = hostID,
                       rn_last_heartbeat = None, rn_created_at = 0\<rparr>))
                     (\<lambda>res. Ret (case res of Inl _ \<Rightarrow> Inl ErrDatabase | Inr rid \<Rightarrow> Inr (rid, plaintext)))))"

definition RecordHeartbeat :: "(bytes \<Rightarrow> bytes) \<Rightarrow> string \<Rightarrow> string \<Rightarrow> bytes option \<Rightarrow> (relay_error + string) handler" where
  "RecordHeartbeat sha salt plaintext offered =
     (if (case offered of None \<Rightarrow> False | Some k \<Rightarrow> \<not> ValidateStaticKey k) then Ret (Inl ErrInvalidStaticKey)
      else (let hash = hashAPIKey sha salt plaintext in
        seq (sql (update_heartbeat hash offered)) (\<lambda>res.
          case res of
            Inr rid \<Rightarrow> Ret (Inr rid)
          | Inl e \<Rightarrow>
              if e \<noteq> NoRows then Ret (Inl ErrDatabase)
              else seq (sql (query_row (\<lambda>s. filter (\<lambda>r. rn_api_key_hash r = hash) (relay_nodes s)))) (\<lambda>known.
                Ret (Inl (case known of
                  Inl _ \<Rightarrow> ErrUnknownRelay
                | Inr r \<Rightarrow>
                    if (case offered of None \<Rightarrow> False | Some k \<Rightarrow> k \<noteq> rn_static_pubkey r)
                    then ErrStaticKeyMismatch (rn_id r) else ErrUnknownRelay))))))"

definition SweepInactiveRelays :: "nat \<Rightarrow> (sql_error + nat) handler" where
  "SweepInactiveRelays ttl = sql (update_inactive (if ttl < 1 then 1 else ttl))"

section \<open>Handlers\<close>

definition canonicalIP :: "string \<Rightarrow> string" where
  "canonicalIP host = (case ParseAddr host of None \<Rightarrow> host | Some addr \<Rightarrow> addr_text (Unmap addr))"

definition peerIP :: "http_request \<Rightarrow> string" where
  "peerIP r =
     (let host = canonicalIP (case SplitHostPort (RemoteAddr r) of None \<Rightarrow> RemoteAddr r | Some (h, _) \<Rightarrow> h) in
      if (host = ''127.0.0.1'' \<or> host = ''::1'') \<and> CF_Connecting_IP r \<noteq> []
      then canonicalIP (trim (CF_Connecting_IP r)) else host)"

definition NewRelayHandler :: "string list \<Rightarrow> string set" where
  "NewRelayHandler allowedIPs = set (map canonicalIP (filter (\<lambda>ip. ip \<noteq> []) (map trim allowedIPs)))"

definition HandleRelayHeartbeat :: "(bytes \<Rightarrow> bytes) \<Rightarrow> (bytes \<Rightarrow> string option) \<Rightarrow> string \<Rightarrow> string set \<Rightarrow>
    http_request \<Rightarrow> http_response handler" where
  "HandleRelayHeartbeat sha json_heartbeat salt allowedIPs r =
     (if peerIP r \<notin> allowedIPs then Ret (error_json 401 ''unauthorized'')
      else case bearer (Authorization r) of
        None \<Rightarrow> Ret (error_json 401 ''unauthorized'')
      | Some key \<Rightarrow>
          (case (case json_heartbeat (Body r) of
                   Some k \<Rightarrow> if k \<noteq> [] then map_option Some (decode_hex k) else Some None
                 | None \<Rightarrow> Some None) of
             None \<Rightarrow> Ret (error_json 400 ''invalid_static_pubkey'')
           | Some offered \<Rightarrow>
               seq (RecordHeartbeat sha salt key offered) (\<lambda>res. Ret (case res of
                 Inr _ \<Rightarrow> no_content
               | Inl (ErrStaticKeyMismatch _) \<Rightarrow> error_json 409 ''static_pubkey_mismatch''
               | Inl _ \<Rightarrow> error_json 401 ''unauthorized''))))"

record provisionRelayRequest =
  pr_tls_name :: string
  pr_ip :: string
  pr_port :: int
  pr_region :: string
  pr_role :: string
  pr_static_pubkey :: string
  pr_operator_id :: string
  pr_host_id :: string

definition HandleProvisionRelay :: "(bytes \<Rightarrow> bytes) \<Rightarrow> (bytes \<Rightarrow> provisionRelayRequest option) \<Rightarrow> string \<Rightarrow>
    bytes option \<Rightarrow> string \<Rightarrow> http_request \<Rightarrow> http_response handler" where
  "HandleProvisionRelay sha json_provision salt draw uuid r =
     (case json_provision (Body r) of
        None \<Rightarrow> Ret (error_json 400 ''invalid_request'')
      | Some req \<Rightarrow>
          if pr_tls_name req = [] \<or> pr_region req = [] \<or> pr_ip req = [] \<or> pr_static_pubkey req = []
             \<or> pr_operator_id req = [] \<or> pr_host_id req = []
          then Ret (error_json 400 ''missing_fields'')
          else case decode_hex (pr_static_pubkey req) of
            None \<Rightarrow> Ret (error_json 400 ''invalid_static_pubkey'')
          | Some pubkey \<Rightarrow>
              seq (ProvisionRelay sha salt (pr_tls_name req) (pr_region req) (pr_role req) (pr_ip req) (pr_port req) pubkey
                     (pr_operator_id req) (pr_host_id req) draw uuid)
                (\<lambda>res. Ret (case res of
                   Inl ErrInvalidRole \<Rightarrow> error_json 400 ''invalid_role''
                 | Inl ErrInvalidStaticKey \<Rightarrow> error_json 400 ''invalid_static_pubkey''
                 | Inl ErrInvalidAddress \<Rightarrow> error_json 400 ''invalid_address''
                 | Inl ErrMissingIdentifier \<Rightarrow> error_json 400 ''missing_fields''
                 | Inl _ \<Rightarrow> error_json 500 ''internal''
                 | Inr (rid, plaintext) \<Rightarrow> writeJSON 201 (JObj [(''id'', JStr rid), (''api_key'', JStr plaintext)]))))"

text \<open>One turn of \<^verbatim>\<open>runRelayHealthSweep\<close>.\<close>

definition relay_health_sweep :: "unit handler" where
  "relay_health_sweep = seq (SweepInactiveRelays 90) (\<lambda>_. Ret ())"

section \<open>The table of relays\<close>

text \<open>
  A row is what the Rust programs need of an entry, and only its status and the time of its last
  heartbeat ever change.
\<close>

definition relay_ok :: "relay_row \<Rightarrow> bool" where
  "relay_ok r \<longleftrightarrow> relay_constraints r \<and> validRole (rn_role r) \<and> wf_ip (rn_ip r) \<and> rn_tls_name r \<noteq> []
     \<and> (rn_status r = ''inactive'' \<or> rn_status r = ''active'' \<and> rn_last_heartbeat r \<noteq> None)"

definition relays_ok :: "authority \<Rightarrow> bool" where
  "relays_ok s \<longleftrightarrow> list_all relay_ok (relay_nodes s) \<and> distinct (map rn_id (relay_nodes s))"

definition frozen :: "relay_row \<Rightarrow> relay_row" where
  "frozen r = r\<lparr>rn_status := [], rn_last_heartbeat := None\<rparr>"

definition relays_below :: "authority \<Rightarrow> authority \<Rightarrow> bool" where
  "relays_below s t \<longleftrightarrow> (\<exists>new. map frozen (relay_nodes t) = map frozen (relay_nodes s) @ new)"

lemma relays_below_refl [simp]: "relay_nodes t = relay_nodes s \<Longrightarrow> relays_below s t"
  by (simp add: relays_below_def)

lemma relays_below_trans: "relays_below s t \<Longrightarrow> relays_below t u \<Longrightarrow> relays_below s u"
  by (auto simp: relays_below_def)

lemma relays_map:
  assumes "relay_nodes t = map f (relay_nodes s)" "\<And>r. frozen (f r) = frozen r" "\<And>r. relay_ok r \<Longrightarrow> relay_ok (f r)"
    and "relays_ok s"
  shows "relays_ok t \<and> relays_below s t"
proof -
  have "rn_id (f r) = rn_id r" for r using arg_cong [OF assms(2), of rn_id r] by (simp add: frozen_def)
  then have "map rn_id (relay_nodes t) = map rn_id (relay_nodes s)" "map frozen (relay_nodes t) = map frozen (relay_nodes s)"
    using assms(1,2) by simp_all
  moreover have "list_all relay_ok (relay_nodes t)" using assms(1,3,4) by (auto simp: relays_ok_def list_all_iff)
  ultimately show ?thesis using assms(4) by (simp add: relays_ok_def relays_below_def)
qed

lemma update_heartbeat_ok:
  assumes "relays_ok s" shows "relays_ok (snd (update_heartbeat hash offered s)) \<and> relays_below s (snd (update_heartbeat hash offered s))"
  by (rule relays_map [where f = "\<lambda>r. if heartbeat_matches hash offered r
        then r\<lparr>rn_status := ''active'', rn_last_heartbeat := Some (db_clock s)\<rparr> else r", OF _ _ _ assms])
    (auto simp: update_heartbeat_def Let_def frozen_def relay_ok_def relay_constraints_def)

lemma update_inactive_ok:
  assumes "relays_ok s" shows "relays_ok (snd (update_inactive secs s)) \<and> relays_below s (snd (update_inactive secs s))"
  by (rule relays_map [where f = "\<lambda>r. if silent (db_clock s) secs r then r\<lparr>rn_status := ''inactive''\<rparr> else r", OF _ _ _ assms])
    (auto simp: update_inactive_def Let_def frozen_def relay_ok_def relay_constraints_def)

lemma insert_relay_ok:
  assumes "relays_ok s" "validRole (rn_role r)" "wf_ip (rn_ip r)" "rn_tls_name r \<noteq> []" "rn_status r = ''inactive''"
  shows "relays_ok (snd (insert_relay r s)) \<and> relays_below s (snd (insert_relay r s))"
  using assms by (auto simp: insert_relay_def relays_ok_def relays_below_def relay_ok_def relay_constraints_def image_iff)

section \<open>Addresses\<close>

lemma canonicalIP_same:
  assumes "ParseAddr h = Some (a, [])" "ParseAddr k = Some (b, [])"
  shows "canonicalIP h = canonicalIP k \<longleftrightarrow> to_canonical a = to_canonical b"
proof -
  have shown: "canonicalIP h = addr_text (to_canonical a, [])" "canonicalIP k = addr_text (to_canonical b, [])"
    using assms fst_Unmap [of "(a, [])"] fst_Unmap [of "(b, [])"] Unmap_zone [of a] Unmap_zone [of b]
    by (simp_all add: canonicalIP_def) (metis prod.collapse)+
  have "wf_ip a" "wf_ip b" using assms [THEN ParseAddr_wf] by simp_all
  then have "parse_ip (addr_text (to_canonical a, [])) = Some (to_canonical a)"
    "parse_ip (addr_text (to_canonical b, [])) = Some (to_canonical b)"
    by (simp_all add: parse_ip_text)
  then show ?thesis using shown by (metis option.inject)
qed

section \<open>Properties\<close>

text \<open>The rows that a heartbeat request is for.\<close>

definition admits_heartbeat :: "(bytes \<Rightarrow> bytes) \<Rightarrow> (bytes \<Rightarrow> string option) \<Rightarrow> string \<Rightarrow> string set \<Rightarrow> http_request \<Rightarrow> relay_row \<Rightarrow> bool" where
  "admits_heartbeat sha jh salt allowed r row \<longleftrightarrow> peerIP r \<in> allowed
     \<and> (\<exists>key. bearer (Authorization r) = Some key \<and> rn_api_key_hash row = hashAPIKey sha salt key)
     \<and> (\<forall>k. jh (Body r) = Some k \<longrightarrow> k \<noteq> [] \<longrightarrow> decode_hex k = Some (rn_static_pubkey row))"

definition beat :: "(relay_row \<Rightarrow> bool) \<Rightarrow> authority \<Rightarrow> authority" where
  "beat hit s = s\<lparr>relay_nodes := map (\<lambda>row. if hit row
     then row\<lparr>rn_status := ''active'', rn_last_heartbeat := Some (db_clock s)\<rparr> else row) (relay_nodes s)\<rparr>"

lemma beat_cong: "(\<And>row. row \<in> set (relay_nodes s) \<Longrightarrow> hit row = hit' row) \<Longrightarrow> beat hit s = beat hit' s"
  by (simp add: beat_def cong: map_cong)

lemma beat_none: "(\<And>row. row \<in> set (relay_nodes s) \<Longrightarrow> \<not> hit row) \<Longrightarrow> beat hit s = s"
  using beat_cong [of s hit "\<lambda>_. False"] by (simp add: beat_def)

lemma run_RecordHeartbeat:
  assumes "stmt_outcome s = StmtDone" "\<And>k. offered = Some k \<Longrightarrow> length k = 32"
  shows "\<exists>res. run_in (RecordHeartbeat sha salt key offered) [] s =
      (res, beat (heartbeat_matches (hashAPIKey sha salt key) offered) s)
    \<and> ((\<exists>rid. res = Inr rid) \<longleftrightarrow> (\<exists>row \<in> set (relay_nodes s). heartbeat_matches (hashAPIKey sha salt key) offered row))"
proof -
  let ?hit = "heartbeat_matches (hashAPIKey sha salt key) offered"
  have upd: "exec_sql (update_heartbeat (hashAPIKey sha salt key) offered) s =
      (case filter ?hit (relay_nodes s) of [] \<Rightarrow> Inl NoRows | r # _ \<Rightarrow> Inr (rn_id r), beat ?hit s)"
    using assms(1) by (simp add: exec_sql_StmtDone update_heartbeat_def Let_def beat_def)
  have valid: "\<not> (case offered of None \<Rightarrow> False | Some k \<Rightarrow> \<not> ValidateStaticKey k)"
    using assms(2) by (auto simp: ValidateStaticKey_def StaticKeyLen_def split: option.splits)
  have "(\<exists>row \<in> set (relay_nodes s). ?hit row) \<longleftrightarrow> filter ?hit (relay_nodes s) \<noteq> []" by (auto simp: filter_empty_conv)
  then show ?thesis
    unfolding RecordHeartbeat_def if_not_P [OF valid] Let_def run_in_seq_sql list.case upd fst_conv snd_conv
    by (cases "filter ?hit (relay_nodes s)") (simp_all add: run_in_seq_sql Let_def)
qed

text \<open>
  C21: A heartbeat marks exactly the relay it authenticates. With the database up, the rows of the table
  that become active, with the time of the database's clock, are those whose API key hash is that of
  the presented key, when the caller's canonical address is on the allowlist and a static public key
  in the body, if there is one, is the provisioned one; everything else in the state is as before, and
  the answer is 204 exactly if there is such a row. The stored keys, roles and addresses never change.
\<close>

theorem heartbeat_exact:
  assumes "stmt_outcome s = StmtDone" "relays_ok s" "run_in (HandleRelayHeartbeat sha jh salt allowed r) [] s = (resp, t)"
  shows "t = s\<lparr>relay_nodes := map (\<lambda>row. if admits_heartbeat sha jh salt allowed r row
          then row\<lparr>rn_status := ''active'', rn_last_heartbeat := Some (db_clock s)\<rparr> else row) (relay_nodes s)\<rparr>
    \<and> (status_code resp = 204 \<longleftrightarrow> (\<exists>row \<in> set (relay_nodes s). admits_heartbeat sha jh salt allowed r row))
    \<and> map frozen (relay_nodes t) = map frozen (relay_nodes s)"
proof -
  let ?ok = "admits_heartbeat sha jh salt allowed r"
  define offered where "offered = (case jh (Body r) of
    Some k \<Rightarrow> if k \<noteq> [] then map_option Some (decode_hex k) else Some None | None \<Rightarrow> Some None)"
  have key32: "length (rn_static_pubkey row) = 32" if "row \<in> set (relay_nodes s)" for row
    using assms(2) that by (auto simp: relays_ok_def list_all_iff relay_ok_def relay_constraints_def)
  note hdef = HandleRelayHeartbeat_def [of sha jh salt allowed r, folded offered_def]
  have main: "t = beat ?ok s \<and> (status_code resp = 204 \<longleftrightarrow> (\<exists>row \<in> set (relay_nodes s). ?ok row))"
  proof (cases "peerIP r \<notin> allowed \<or> bearer (Authorization r) = None \<or> offered = None")
    case True
    then have "\<not> ?ok row" for row by (auto simp: admits_heartbeat_def offered_def split: option.splits if_splits)
    moreover have "t = s" "status_code resp \<noteq> 204" using assms(3) True by (auto simp: hdef split: option.splits if_splits)
    ultimately show ?thesis using beat_none [of s ?ok] by simp
  next
    case False
    then obtain key off where gate: "peerIP r \<in> allowed" "bearer (Authorization r) = Some key" "offered = Some off" by auto
    let ?hit = "heartbeat_matches (hashAPIKey sha salt key) off"
    have hit: "?ok row = ?hit row" for row
      using gate by (auto simp: admits_heartbeat_def heartbeat_matches_def offered_def split: option.splits if_splits)
    have run: "(resp, t) = map_prod (\<lambda>res. case res of Inr _ \<Rightarrow> no_content
        | Inl (ErrStaticKeyMismatch _) \<Rightarrow> error_json 409 ''static_pubkey_mismatch'' | Inl _ \<Rightarrow> error_json 401 ''unauthorized'')
        id (run_in (RecordHeartbeat sha salt key off) [] s)"
      using assms(3) gate by (simp add: hdef run_in_result)
    show ?thesis
    proof (cases "\<exists>k. off = Some k \<and> length k \<noteq> 32")
      case True
      then have "\<not> ?hit row" if "row \<in> set (relay_nodes s)" for row
        using key32 [OF that] by (auto simp: heartbeat_matches_def)
      moreover have "RecordHeartbeat sha salt key off = Ret (Inl ErrInvalidStaticKey)"
        using True by (auto simp: RecordHeartbeat_def ValidateStaticKey_def StaticKeyLen_def)
      ultimately show ?thesis using run beat_none [of s ?ok] by (auto simp: hit)
    next
      case False
      then obtain res where "run_in (RecordHeartbeat sha salt key off) [] s = (res, beat ?hit s)"
        "(\<exists>rid. res = Inr rid) \<longleftrightarrow> (\<exists>row \<in> set (relay_nodes s). ?hit row)"
        using run_RecordHeartbeat [OF assms(1), of off sha salt key] by auto
      then show ?thesis using run beat_cong [of s ?ok ?hit] by (auto simp: hit split: sum.splits relay_error.splits)
    qed
  qed
  moreover have "map frozen (relay_nodes (beat ?ok s)) = map frozen (relay_nodes s)" by (simp add: beat_def frozen_def)
  ultimately show ?thesis by (simp only: beat_def)
qed

text \<open>An instance: a relay whose address is written as an IPv4-mapped one by its listener.\<close>

definition sample_node :: relay_row where
  "sample_node = \<lparr>rn_id = ''r'', rn_api_key_hash = hexEncode (as_bytes ''saltkey''), rn_tls_name = ''r.example'', rn_region = ''eu'',
     rn_role = ''guard'', rn_status = ''inactive'', rn_ip = V4 [203, 0, 113, 7], rn_port = 443,
     rn_static_pubkey = replicate 32 9, rn_operator_id = ''o'', rn_host_id = ''h'', rn_last_heartbeat = None, rn_created_at = 0\<rparr>"

definition sample_beat :: http_request where
  "sample_beat = \<lparr>RemoteAddr = ''203.0.113.7:9'', Authorization = ''Bearer key'', CF_Connecting_IP = [],
     jwt_cookie = None, session_cookie = None, Body = []\<rparr>"

theorem heartbeat_exact_witness:
  "\<exists>resp t. run_in (HandleRelayHeartbeat id (\<lambda>_. Some (hexEncode (replicate 32 9))) ''salt'' {''203.0.113.7''} sample_beat) []
      (empty_authority\<lparr>relay_nodes := [sample_node], db_clock := 5\<rparr>) = (resp, t)
    \<and> status_code resp = 204 \<and> relay_nodes t = [sample_node\<lparr>rn_status := ''active'', rn_last_heartbeat := Some 5\<rparr>]"
proof -
  let ?s = "empty_authority\<lparr>relay_nodes := [sample_node], db_clock := 5\<rparr>"
  obtain resp t where run: "run_in (HandleRelayHeartbeat id (\<lambda>_. Some (hexEncode (replicate 32 9))) ''salt'' {''203.0.113.7''} sample_beat) [] ?s
      = (resp, t)" by (metis prod.exhaust)
  have "peerIP sample_beat = ''203.0.113.7''"
    by (simp add: peerIP_def sample_beat_def SplitHostPort_def canonicalIP_def ParseAddr_plain parse_eval v4_text_def upt_rec show_nat.simps char_of_def bit_0)
  then have "admits_heartbeat id (\<lambda>_. Some (hexEncode (replicate 32 9))) ''salt'' {''203.0.113.7''} sample_beat sample_node"
    by (simp add: admits_heartbeat_def sample_beat_def bearer_def hashAPIKey_def sample_node_def as_bytes_def)
  moreover have "relays_ok ?s"
    by (simp add: relays_ok_def relay_ok_def relay_constraints_def sample_node_def validRole_def is_str_def of_char_def)
  ultimately show ?thesis
    using heartbeat_exact [OF _ _ run] run by (auto simp: empty_authority_def)
qed
end
