(* ===== verification/Reg_Publish.thy ===== *)
theory Reg_Publish
  imports Relay_Admin
begin

text \<open>
  The authority's registry (\<^verbatim>\<open>authority/internal/registry\<close>, \<^verbatim>\<open>handlers/registry.go\<close>): the signing key, the
  document of an hour, its signature, and the publisher that stores one document per hour and serves
  it. Ed25519, SHA-256, base64, JSON and the database's own text formats are the fields of
  \<open>registry_lib\<close>. The laws of the libraries that a property needs are its hypotheses.
\<close>

unbundle bit_operations_syntax

section \<open>Data\<close>

record GoRelayEntry =
  ge_id :: string
  ge_operator_id :: string
  ge_host_id :: string
  ge_role :: string
  ge_ip :: string
  ge_port :: int
  ge_tls_name :: string
  ge_static_pubkey :: string

record GoDocument =
  gd_version :: int
  gd_valid_after :: string
  gd_fresh_until :: string
  gd_valid_until :: string
  gd_relays :: "GoRelayEntry list"

record registry_lib =
  json_marshal :: "GoDocument \<Rightarrow> bytes option"
  marshal_sigs :: "SignatureEntry list \<Rightarrow> bytes option"
  unmarshal_sigs :: "bytes \<Rightarrow> SignatureEntry list option"
  jsonb :: "bytes \<Rightarrow> bytes"
  host_text :: "IpAddr \<Rightarrow> string"
  ed_public :: "bytes \<Rightarrow> bytes"
  ed_sign :: "bytes \<Rightarrow> bytes \<Rightarrow> bytes"
  go_sha256 :: "bytes \<Rightarrow> bytes"
  go_b64 :: "bytes \<Rightarrow> string"

definition FreshWindow :: nat where
  "FreshWindow = 3600"

definition ValidWindow :: nat where
  "ValidWindow = 6 * 3600"

definition VersionFor :: "nat \<Rightarrow> int" where
  "VersionFor validAfter = int validAfter div 3600"

definition HourOf :: "nat \<Rightarrow> nat" where
  "HourOf t = t - t mod 3600"

definition stamp :: "nat \<Rightarrow> string" where
  "stamp t = format_rfc3339 t"

section \<open>The signing key\<close>

record RegSigner =
  sg_seed :: bytes
  sg_pub :: bytes
  sg_key_id :: string

definition KeyIDFor :: "registry_lib \<Rightarrow> bytes \<Rightarrow> string" where
  "KeyIDFor L pub = hexEncode (take 8 (go_sha256 L pub))"

datatype key_error = ErrKeyMissing | ErrKeyMode | ErrKeyLength | ErrKeyExists | ErrKeyUnreadable | ErrKeyIo

text \<open>
  A file is its content and its permission bits. \<open>stat_fails\<close> and \<open>read_fails\<close> are I/O errors other than
  a missing file.
\<close>

type_synonym file_mode = "32 word"
type_synonym key_files = "string \<Rightarrow> (bytes \<times> file_mode) option"

definition requiredMode :: file_mode where
  "requiredMode = 0x180"

definition new_signer :: "registry_lib \<Rightarrow> bytes \<Rightarrow> RegSigner" where
  "new_signer L seed = \<lparr>sg_seed = seed, sg_pub = ed_public L seed, sg_key_id = KeyIDFor L (ed_public L seed)\<rparr>"

definition LoadSigner :: "registry_lib \<Rightarrow> bool \<Rightarrow> bool \<Rightarrow> key_files \<Rightarrow> string \<Rightarrow> key_error + RegSigner" where
  "LoadSigner L stat_fails read_fails fs path =
     (if stat_fails then Inl ErrKeyUnreadable
      else case fs path of
        None \<Rightarrow> Inl ErrKeyMissing
      | Some (seed, mode) \<Rightarrow>
          if (mode AND 0x1FF) AND NOT requiredMode \<noteq> 0 then Inl ErrKeyMode
          else if read_fails then Inl ErrKeyUnreadable
          else if length seed \<noteq> 32 then Inl ErrKeyLength
          else Inr (new_signer L seed))"

text \<open>
  \<open>seed\<close> is the draw of the generator. A write that fails leaves the first \<open>n\<close> bytes, and the file is
  created with the permissions that the process's mask leaves of 0600.
\<close>

record keygen_faults =
  draw_fails :: bool
  create_fails :: bool
  write_stops :: "nat option"
  close_fails :: bool

definition GenerateKeyFile :: "registry_lib \<Rightarrow> keygen_faults \<Rightarrow> file_mode \<Rightarrow> bytes \<Rightarrow> key_files \<Rightarrow> string \<Rightarrow>
    (key_error + string) \<times> key_files" where
  "GenerateKeyFile L fl umask seed fs path =
     (if draw_fails fl then (Inl ErrKeyIo, fs)
      else if fs path \<noteq> None then (Inl ErrKeyExists, fs)
      else if create_fails fl then (Inl ErrKeyIo, fs)
      else (let mode = requiredMode AND NOT umask in
        case write_stops fl of
          Some n \<Rightarrow> (Inl ErrKeyIo, fs(path \<mapsto> (take n seed, mode)))
        | None \<Rightarrow>
            (if close_fails fl then Inl ErrKeyIo else Inr (hexEncode (ed_public L seed)), fs(path \<mapsto> (seed, mode)))))"

section \<open>Signing\<close>

definition Domain :: bytes where
  "Domain = as_bytes ''quiethop/v1/registry''"

definition signedMessage :: "bytes \<Rightarrow> bytes" where
  "signedMessage document = Domain @ [0] @ document"

definition Sign :: "registry_lib \<Rightarrow> RegSigner \<Rightarrow> bytes \<Rightarrow> SignatureEntry" where
  "Sign L s document = \<lparr>sig_key_id = sg_key_id s, sig = go_b64 L (ed_sign L (sg_seed s) (signedMessage document))\<rparr>"

section \<open>The publisher\<close>

definition hexOf :: "bytes \<Rightarrow> string" where
  "hexOf b = concat (map (\<lambda>c. [''0123456789abcdef'' ! unat (drop_bit 4 c), ''0123456789abcdef'' ! unat (c AND 0x0F)]) b)"

definition entry_of :: "registry_lib \<Rightarrow> relay_row \<Rightarrow> GoRelayEntry" where
  "entry_of L r = \<lparr>ge_id = rn_id r, ge_operator_id = rn_operator_id r, ge_host_id = rn_host_id r, ge_role = rn_role r,
     ge_ip = host_text L (rn_ip r), ge_port = rn_port r, ge_tls_name = rn_tls_name r,
     ge_static_pubkey = hexOf (rn_static_pubkey r)\<rparr>"

definition activeRelays :: "registry_lib \<Rightarrow> (sql_error + GoRelayEntry list) handler" where
  "activeRelays L = sql (\<lambda>s. (Inr (map (entry_of L) (sort_key rn_id (filter (\<lambda>r. rn_status r = ''active'') (relay_nodes s)))), s))"

text \<open>\<^verbatim>\<open>INSERT ... ON CONFLICT (valid_after) DO NOTHING\<close> with the table's constraints; the result is the number of rows.\<close>

definition doc_constraints :: "doc_row \<Rightarrow> bool" where
  "doc_constraints r \<longleftrightarrow> 0 < rd_version r \<and> rd_document r \<noteq> [] \<and> rd_valid_after r mod 3600 = 0
     \<and> rd_version r = int (rd_valid_after r) div 3600"

definition insert_document :: "doc_row \<Rightarrow> nat sql" where
  "insert_document r s =
     (if \<not> doc_constraints r then (Inl SqlError, s)
      else if rd_valid_after r \<in> rd_valid_after ` set (registry_documents s) then (Inr 0, s)
      else if rd_version r \<in> rd_version ` set (registry_documents s) then (Inl UniqueViolation, s)
      else (Inr 1, s\<lparr>registry_documents := registry_documents s @ [r]\<rparr>))"

datatype pub_error = ErrNoDocument | LoadNoRows | LoadFailed | PublishFailed

definition load :: "registry_lib \<Rightarrow> nat \<Rightarrow> (pub_error + bytes \<times> SignatureEntry list) handler" where
  "load L hour =
     seq (sql (query_row (\<lambda>s. filter (\<lambda>r. rd_valid_after r = hour) (registry_documents s)))) (\<lambda>res.
       Ret (case res of
              Inl e \<Rightarrow> Inl (if e = NoRows then LoadNoRows else LoadFailed)
            | Inr r \<Rightarrow> (case unmarshal_sigs L (rd_signatures r) of
                None \<Rightarrow> Inl LoadFailed
              | Some sigs \<Rightarrow> Inr (rd_document r, sigs))))"

definition document_for :: "nat \<Rightarrow> GoRelayEntry list \<Rightarrow> GoDocument" where
  "document_for hour rs = \<lparr>gd_version = VersionFor hour, gd_valid_after = stamp hour,
     gd_fresh_until = stamp (hour + FreshWindow), gd_valid_until = stamp (hour + ValidWindow), gd_relays = rs\<rparr>"

definition publish_doc :: "registry_lib \<Rightarrow> RegSigner \<Rightarrow> nat \<Rightarrow> (pub_error + bytes \<times> SignatureEntry list) handler" where
  "publish_doc L sg hour =
     seq (activeRelays L) (\<lambda>res.
       case res of
         Inl _ \<Rightarrow> Ret (Inl PublishFailed)
       | Inr rs \<Rightarrow>
           (case json_marshal L (document_for hour rs) of
              None \<Rightarrow> Ret (Inl PublishFailed)
            | Some bs \<Rightarrow>
                (let sigs = [Sign L sg bs] in
                 case marshal_sigs L sigs of
                   None \<Rightarrow> Ret (Inl PublishFailed)
                 | Some sigsJSON \<Rightarrow>
                     seq (sql (insert_document \<lparr>rd_version = VersionFor hour, rd_valid_after = hour, rd_document = bs,
                            rd_signatures = jsonb L sigsJSON\<rparr>)) (\<lambda>tag.
                       case tag of
                         Inl _ \<Rightarrow> Ret (Inl PublishFailed)
                       | Inr n \<Rightarrow> if n = 1 then Ret (Inr (bs, sigs)) else load L hour))))"

definition remember_doc :: "nat \<Rightarrow> bytes \<Rightarrow> SignatureEntry list \<Rightarrow> nat \<Rightarrow> unit handler" where
  "remember_doc i doc sigs until = locked i (\<lambda>m. ((), m\<lparr>lastDoc := Some doc, lastSigs := sigs, lastTil := until\<rparr>))"

definition cached :: "nat \<Rightarrow> nat \<Rightarrow> (bytes \<times> SignatureEntry list) option handler" where
  "cached i now = locked i (\<lambda>m.
     (case lastDoc m of None \<Rightarrow> None | Some doc \<Rightarrow> if \<not> now < lastTil m then None else Some (doc, lastSigs m), m))"

definition Current :: "registry_lib \<Rightarrow> RegSigner \<Rightarrow> nat \<Rightarrow> nat \<Rightarrow> (pub_error + bytes \<times> SignatureEntry list) handler" where
  "Current L sg i now =
     (let hour = HourOf now;
          or_cached = (\<lambda>e. seq (cached i now) (\<lambda>c. Ret (case c of Some x \<Rightarrow> Inr x | None \<Rightarrow> Inl e)));
          keep = (\<lambda>(doc, sigs). seq (remember_doc i doc sigs (hour + ValidWindow)) (\<lambda>_. Ret (Inr (doc, sigs)))) in
      seq (load L hour) (\<lambda>res.
        case res of
          Inr x \<Rightarrow> keep x
        | Inl e \<Rightarrow>
            if e \<noteq> LoadNoRows then or_cached ErrNoDocument
            else seq (publish_doc L sg hour) (\<lambda>built.
              case built of Inl e \<Rightarrow> or_cached e | Inr x \<Rightarrow> keep x)))"

definition signature_json :: "SignatureEntry \<Rightarrow> json" where
  "signature_json s = JObj [(''key_id'', JStr (sig_key_id s)), (''sig'', JStr (sig s))]"

definition HandleRegistry :: "registry_lib \<Rightarrow> RegSigner \<Rightarrow> nat \<Rightarrow> nat \<Rightarrow> http_response handler" where
  "HandleRegistry L sg i now =
     seq (Current L sg i now) (\<lambda>res. Ret (case res of
       Inl e \<Rightarrow> if e = ErrNoDocument then error_json 503 ''unavailable'' else error_json 500 ''internal''
     | Inr (doc, sigs) \<Rightarrow>
         writeJSON 200 (JObj [(''document'', JStr (go_b64 L doc)), (''signatures'', JArr (map signature_json sigs))])))"

section \<open>What is stored and served\<close>

text \<open>What the JSON library and the column type promise of a list of signatures.\<close>

definition sigs_law :: "registry_lib \<Rightarrow> bool" where
  "sigs_law L \<longleftrightarrow> (\<forall>sigs raw. marshal_sigs L sigs = Some raw \<longrightarrow> unmarshal_sigs L (jsonb L raw) = Some sigs)"

definition published :: "registry_lib \<Rightarrow> RegSigner \<Rightarrow> doc_row \<Rightarrow> bool" where
  "published L sg row \<longleftrightarrow> doc_constraints row \<and> unmarshal_sigs L (rd_signatures row) = Some [Sign L sg (rd_document row)]
     \<and> (\<exists>rs. json_marshal L (document_for (rd_valid_after row) rs) = Some (rd_document row)
          \<and> (\<forall>e \<in> set rs. \<exists>r. relay_ok r \<and> rn_status r = ''active'' \<and> e = entry_of L r))"

definition remembered :: "registry_lib \<Rightarrow> RegSigner \<Rightarrow> doc_row list \<Rightarrow> memory \<Rightarrow> bool" where
  "remembered L sg docs m \<longleftrightarrow> (case lastDoc m of None \<Rightarrow> True | Some d \<Rightarrow>
     lastSigs m = [Sign L sg d] \<and> (\<exists>row \<in> set docs. rd_document row = d \<and> lastTil m = rd_valid_after row + ValidWindow))"

definition pub_inv :: "registry_lib \<Rightarrow> RegSigner \<Rightarrow> authority \<Rightarrow> bool" where
  "pub_inv L sg s \<longleftrightarrow> sigs_law L \<and> relays_ok s \<and> list_all (published L sg) (registry_documents s)
     \<and> distinct (map rd_valid_after (registry_documents s)) \<and> (\<forall>i. remembered L sg (registry_documents s) (memories s i))"

definition pub_below :: "authority \<Rightarrow> authority \<Rightarrow> bool" where
  "pub_below s t \<longleftrightarrow> relays_below s t \<and> (\<exists>new. registry_documents t = registry_documents s @ new)"

lemma pub_below_docs: "pub_below s t \<Longrightarrow> row \<in> set (registry_documents s) \<Longrightarrow> row \<in> set (registry_documents t)"
  by (auto simp: pub_below_def)

lemma pub_below_same [simp]:
  "relay_nodes t = relay_nodes s \<Longrightarrow> registry_documents t = registry_documents s \<Longrightarrow> pub_below s t"
  by (simp add: pub_below_def)

interpretation pub: event_system db_env "pub_inv L sg" pub_below for L sg
proof
  fix s e assume "pub_inv L sg s"
  then show "pub_inv L sg (db_env s e)"
    by (cases e) (auto simp: pub_inv_def relays_ok_def remembered_def fresh_memory_def)
  show "pub_below s (db_env s e)" by (cases e) simp_all
next
  show "pub_below s s" for s by simp
  show "pub_below s t \<Longrightarrow> pub_below t u \<Longrightarrow> pub_below s u" for s t u
    by (auto simp: pub_below_def dest: relays_below_trans)
qed

lemma pub_sql:
  assumes "\<And>t. pub_inv L sg t \<Longrightarrow> pub_inv L sg (snd (q t)) \<and> pub_below t (snd (q t))"
    and "\<And>t a. pub_inv L sg t \<Longrightarrow> fst (q t) = Inr a \<Longrightarrow> Q (snd (q t)) (Inr a)" "\<And>t e. Q t (Inl e)"
  shows "ensures (pub_inv L sg) pub_below Q (sql q) s"
  unfolding sql_def
proof (rule pub.ensures_atomically, intro conjI)
  fix t assume t: "pub_inv L sg t"
  show "pub_inv L sg (snd (exec_sql q t))" "pub_below t (snd (exec_sql q t))"
    using exec_sql_state [of q t] assms(1) [OF t] t by auto
  show "Q (snd (exec_sql q t)) (fst (exec_sql q t))"
    using assms(2) [OF t] assms(3) exec_sql_Inr [of q t] by (cases "fst (exec_sql q t)") auto
qed

lemma pub_query:
  assumes "\<And>t a rs. pub_inv L sg t \<Longrightarrow> rows t = a # rs \<Longrightarrow> Q t (Inr a)" "\<And>t e. Q t (Inl e)"
  shows "ensures (pub_inv L sg) pub_below Q (sql (query_row rows)) s"
  using assms by (intro pub_sql) (auto simp: query_row_Inr)

definition at_hour :: "registry_lib \<Rightarrow> RegSigner \<Rightarrow> nat \<Rightarrow> authority \<Rightarrow> pub_error + bytes \<times> SignatureEntry list \<Rightarrow> bool" where
  "at_hour L sg hour s res \<longleftrightarrow> (case res of Inl _ \<Rightarrow> True | Inr (doc, sigs) \<Rightarrow> sigs = [Sign L sg doc]
     \<and> (\<exists>row \<in> set (registry_documents s). rd_document row = doc \<and> rd_valid_after row = hour))"

lemma load_ensures: "ensures (pub_inv L sg) pub_below (at_hour L sg hour) (load L hour) s"
  unfolding load_def
proof (rule pub.ensures_seq, rule pub_query)
  fix t row rs
  assume t: "pub_inv L sg t" and "filter (\<lambda>r. rd_valid_after r = hour) (registry_documents t) = row # rs"
  then have "row \<in> set (filter (\<lambda>r. rd_valid_after r = hour) (registry_documents t))" by simp
  then have "row \<in> set (registry_documents t)" "rd_valid_after row = hour" by simp_all
  with t show "(\<lambda>s res. case res of Inl _ \<Rightarrow> True | Inr row \<Rightarrow> row \<in> set (registry_documents s)
      \<and> rd_valid_after row = hour \<and> published L sg row) t (Inr row)"
    by (simp add: pub_inv_def list_all_iff)
qed (auto simp: at_hour_def published_def split: sum.splits)

lemma insert_document_ok:
  assumes "pub_inv L sg t" "doc_constraints row \<Longrightarrow> published L sg row"
  shows "pub_inv L sg (snd (insert_document row t)) \<and> pub_below t (snd (insert_document row t))"
proof (cases "snd (insert_document row t) = t")
  case True
  then show ?thesis using assms(1) pub.below_refl by simp
next
  case False
  then have row: "doc_constraints row" "rd_valid_after row \<notin> rd_valid_after ` set (registry_documents t)"
    "snd (insert_document row t) = t\<lparr>registry_documents := registry_documents t @ [row]\<rparr>"
    by (auto simp: insert_document_def split: if_splits)
  moreover have "remembered L sg (registry_documents t @ [row]) m" if "remembered L sg (registry_documents t) m" for m
    using that by (auto simp: remembered_def split: option.splits)
  ultimately show ?thesis
    using assms by (auto simp: pub_inv_def relays_ok_def pub_below_def image_iff)
qed

lemma active_entries_ok:
  assumes "relays_ok s" "e \<in> set (map (entry_of L) (sort_key rn_id (filter (\<lambda>r. rn_status r = ''active'') (relay_nodes s))))"
  shows "\<exists>r. relay_ok r \<and> rn_status r = ''active'' \<and> e = entry_of L r"
  using assms by (auto simp: relays_ok_def list_all_iff)

lemma publish_ensures:
  assumes "sigs_law L" shows "ensures (pub_inv L sg) pub_below (at_hour L sg hour) (publish_doc L sg hour) s"
  unfolding publish_doc_def activeRelays_def
proof (rule pub.ensures_seq, rule pub_sql)
  fix t rs
  assume "pub_inv L sg t"
    "fst (Inr (map (entry_of L) (sort_key rn_id (filter (\<lambda>r. rn_status r = ''active'') (relay_nodes t)))), t) = Inr rs"
  then show "(\<lambda>s res. case res of Inl _ \<Rightarrow> True
      | Inr rs \<Rightarrow> \<forall>e \<in> set rs. \<exists>r. relay_ok r \<and> rn_status r = ''active'' \<and> e = entry_of L r)
      (snd (Inr (map (entry_of L) (sort_key rn_id (filter (\<lambda>r. rn_status r = ''active'') (relay_nodes t)))), t)) (Inr rs)"
    using active_entries_ok [of t _ L] by (auto simp: pub_inv_def)
next
  fix t and res :: "sql_error + GoRelayEntry list"
  assume rs: "case res of Inl _ \<Rightarrow> True | Inr rs \<Rightarrow> \<forall>e \<in> set rs. \<exists>r. relay_ok r \<and> rn_status r = ''active'' \<and> e = entry_of L r"
  let ?ins = "\<lambda>bs raw. \<lparr>rd_version = VersionFor hour, rd_valid_after = hour, rd_document = bs, rd_signatures = jsonb L raw\<rparr>"
  have ins: "ensures (pub_inv L sg) pub_below (at_hour L sg hour)
      (seq (sql (insert_document (?ins bs raw))) (\<lambda>tag. case tag of Inl _ \<Rightarrow> Ret (Inl PublishFailed)
         | Inr n \<Rightarrow> if n = 1 then Ret (Inr (bs, [Sign L sg bs])) else load L hour)) t"
    if bs: "json_marshal L (document_for hour rs) = Some bs" "marshal_sigs L [Sign L sg bs] = Some raw" "res = Inr rs" for bs raw rs
  proof (rule pub.ensures_seq, rule pub_sql)
    have "published L sg (?ins bs raw)" if "doc_constraints (?ins bs raw)"
      using that assms bs rs by (auto simp: published_def sigs_law_def)
    then show "pub_inv L sg (snd (insert_document (?ins bs raw) u)) \<and> pub_below u (snd (insert_document (?ins bs raw) u))"
      if "pub_inv L sg u" for u using that by (intro insert_document_ok)
    show "(\<lambda>u tag. tag = Inr 1 \<longrightarrow> ?ins bs raw \<in> set (registry_documents u)) (snd (insert_document (?ins bs raw) u)) (Inr n)"
      if "fst (insert_document (?ins bs raw) u) = Inr n" for u n
      using that by (auto simp: insert_document_def split: if_splits)
    show "ensures (pub_inv L sg) pub_below (at_hour L sg hour) (case tag of Inl _ \<Rightarrow> Ret (Inl PublishFailed)
         | Inr n \<Rightarrow> if n = 1 then Ret (Inr (bs, [Sign L sg bs])) else load L hour) u"
      if "tag = Inr 1 \<longrightarrow> ?ins bs raw \<in> set (registry_documents u)" for u tag
      using that by (auto simp: at_hour_def load_ensures split: sum.split intro!: bexI [of _ "?ins bs raw"])
  qed simp
  show "ensures (pub_inv L sg) pub_below (at_hour L sg hour) (case res of Inl _ \<Rightarrow> Ret (Inl PublishFailed)
       | Inr rs \<Rightarrow> (case json_marshal L (document_for hour rs) of None \<Rightarrow> Ret (Inl PublishFailed)
          | Some bs \<Rightarrow> (let sigs = [Sign L sg bs] in case marshal_sigs L sigs of None \<Rightarrow> Ret (Inl PublishFailed)
               | Some sigsJSON \<Rightarrow> seq (sql (insert_document (?ins bs sigsJSON))) (\<lambda>tag. case tag of
                   Inl _ \<Rightarrow> Ret (Inl PublishFailed) | Inr n \<Rightarrow> if n = 1 then Ret (Inr (bs, sigs)) else load L hour)))) t"
    using ins by (simp add: Let_def at_hour_def del: One_nat_def split: sum.split option.split)
qed (auto split: sum.split)
definition served :: "registry_lib \<Rightarrow> RegSigner \<Rightarrow> nat \<Rightarrow> authority \<Rightarrow> pub_error + bytes \<times> SignatureEntry list \<Rightarrow> bool" where
  "served L sg now s res \<longleftrightarrow> (case res of Inl _ \<Rightarrow> True | Inr (doc, sigs) \<Rightarrow> sigs = [Sign L sg doc]
     \<and> (\<exists>row \<in> set (registry_documents s). rd_document row = doc \<and> now < rd_valid_after row + ValidWindow))"

lemma HourOf_window: "now < HourOf now + ValidWindow"
  using mod_less_divisor [of 3600 now] unfolding HourOf_def ValidWindow_def by linarith

lemma served_stable: "served L sg now s res \<Longrightarrow> pub_below s t \<Longrightarrow> served L sg now t res"
  by (auto simp: served_def split: sum.splits dest: pub_below_docs)

lemma pub_locked:
  assumes "\<And>t. pub_inv L sg t \<Longrightarrow> pub_below s t \<Longrightarrow> remembered L sg (registry_documents t) (snd (f (memories t i)))"
    and "\<And>t M. pub_inv L sg t \<Longrightarrow> pub_below s t \<Longrightarrow> Q (t\<lparr>memories := M\<rparr>) (fst (f (memories t i)))"
  shows "ensures (pub_inv L sg) pub_below Q (locked i f) s"
  unfolding locked_def
proof (rule pub.ensures_atomically)
  fix t assume t: "pub_inv L sg t" "pub_below s t"
  obtain a m where f: "f (memories t i) = (a, m)" by (metis prod.exhaust)
  have "pub_inv L sg (t\<lparr>memories := (memories t)(i := m)\<rparr>)"
    using t(1) assms(1) [OF t] f by (simp add: pub_inv_def relays_ok_def)
  then show "pub_inv L sg (snd (case f (memories t i) of (a, m) \<Rightarrow> (a, t\<lparr>memories := (memories t)(i := m)\<rparr>)))
      \<and> pub_below t (snd (case f (memories t i) of (a, m) \<Rightarrow> (a, t\<lparr>memories := (memories t)(i := m)\<rparr>)))
      \<and> Q (snd (case f (memories t i) of (a, m) \<Rightarrow> (a, t\<lparr>memories := (memories t)(i := m)\<rparr>)))
          (fst (case f (memories t i) of (a, m) \<Rightarrow> (a, t\<lparr>memories := (memories t)(i := m)\<rparr>)))"
    using assms(2) [OF t, of "(memories t)(i := m)"] f by simp
qed

lemma cached_ensures:
  "ensures (pub_inv L sg) pub_below (served L sg now) (seq (cached i now) (\<lambda>c. Ret (case c of Some x \<Rightarrow> Inr x | None \<Rightarrow> Inl e))) s"
proof (rule pub.ensures_seq)
  have mem: "remembered L sg (registry_documents t) (memories t i)" if "pub_inv L sg t" for t
    using that by (simp add: pub_inv_def)
  show "ensures (pub_inv L sg) pub_below (\<lambda>s c. served L sg now s (case c of Some x \<Rightarrow> Inr x | None \<Rightarrow> Inl e)) (cached i now) s"
    unfolding cached_def
    by (rule pub_locked; drule mem) (auto simp: served_def remembered_def split: option.splits)
qed simp

lemma remember_ensures:
  assumes "at_hour L sg hour s (Inr (doc, sigs))" "now < hour + ValidWindow"
  shows "ensures (pub_inv L sg) pub_below (served L sg now)
    (seq (remember_doc i doc sigs (hour + ValidWindow)) (\<lambda>_. Ret (Inr (doc, sigs)))) s"
proof (rule pub.ensures_seq)
  have row: "\<exists>row \<in> set (registry_documents t). rd_document row = doc \<and> rd_valid_after row = hour \<and> sigs = [Sign L sg doc]"
    if "pub_below s t" for t
    using assms(1) pub_below_docs [OF that] by (auto simp: at_hour_def)
  show "ensures (pub_inv L sg) pub_below (\<lambda>s _. served L sg now s (Inr (doc, sigs))) (remember_doc i doc sigs (hour + ValidWindow)) s"
    unfolding remember_doc_def
    by (rule pub_locked; drule row) (use assms(2) in \<open>auto simp: remembered_def served_def\<close>)
qed simp

lemma Current_ensures:
  assumes "sigs_law L" shows "ensures (pub_inv L sg) pub_below (served L sg now) (Current L sg i now) s"
  unfolding Current_def Let_def
proof (rule pub.ensures_seq [OF load_ensures])
  fix t res assume res: "at_hour L sg (HourOf now) t res"
  let ?keep = "\<lambda>(doc, sigs). seq (remember_doc i doc sigs (HourOf now + ValidWindow)) (\<lambda>_. Ret (Inr (doc, sigs)))"
  let ?cached = "\<lambda>e. seq (cached i now) (\<lambda>c. Ret (case c of Some x \<Rightarrow> Inr x | None \<Rightarrow> Inl e))"
  note keep = remember_ensures [OF _ HourOf_window [of now], of L sg _ _ _ i]
  have "ensures (pub_inv L sg) pub_below (served L sg now)
      (seq (publish_doc L sg (HourOf now)) (\<lambda>built. case built of Inl e \<Rightarrow> ?cached e | Inr x \<Rightarrow> ?keep x)) t"
    by (rule pub.ensures_seq [OF publish_ensures [OF assms]]) (auto simp: cached_ensures keep split: sum.split)
  then show "ensures (pub_inv L sg) pub_below (served L sg now) (case res of Inl e \<Rightarrow> if e \<noteq> LoadNoRows then ?cached ErrNoDocument
      else seq (publish_doc L sg (HourOf now)) (\<lambda>built. case built of Inl e \<Rightarrow> ?cached e | Inr x \<Rightarrow> ?keep x) | Inr x \<Rightarrow> ?keep x) t"
    using res cached_ensures keep by (cases res) auto
qed
end
