(* ===== verification/Accounts.thy ===== *)
theory Accounts
  imports Relay_Admin
begin

text \<open>
  Subscribers at the authority (\<^verbatim>\<open>authority/internal/auth\<close>, \<^verbatim>\<open>handlers/auth.go\<close>, \<^verbatim>\<open>middleware.go\<close> and the
  approval of \<^verbatim>\<open>admin.go\<close>): password hashes, JSON web tokens, sessions, the rate limiter, login, logout and
  registration, and the two guards in front of other handlers. Argon2, base64, the JWT library, the
  mail address parser and the JSON decoder are the fields of \<open>auth_lib\<close>. Argon2
  panics on zero rounds or threads, which no stored hash has.
\<close>

section \<open>Data\<close>

record Claims =
  cl_sub :: string
  cl_role :: string
  cl_tier :: string
  cl_exp :: "nat option"

record auth_lib =
  IDKey :: "bytes \<Rightarrow> bytes \<Rightarrow> nat \<Rightarrow> nat \<Rightarrow> nat \<Rightarrow> nat \<Rightarrow> bytes"
  raw_b64 :: "bytes \<Rightarrow> string"
  raw_b64_decode :: "string \<Rightarrow> bytes option"
  jwt_sign :: "string \<Rightarrow> Claims \<Rightarrow> string option"
  jwt_decode :: "string \<Rightarrow> string \<Rightarrow> (string \<times> Claims) option"
  mail_ok :: "string \<Rightarrow> bool"
  json_credentials :: "bytes \<Rightarrow> (string \<times> string) option"

section \<open>Passwords\<close>

definition argon2_Version :: nat where "argon2_Version = 19"
definition argonTime :: nat where "argonTime = 1"
definition argonMemory :: nat where "argonMemory = 64 * 1024"
definition argonThreads :: nat where "argonThreads = 4"
definition argonKeyLen :: nat where "argonKeyLen = 32"

text \<open>The salt is the draw of \<^verbatim>\<open>crypto/rand\<close>; \<open>None\<close> is its error.\<close>

definition HashPassword :: "auth_lib \<Rightarrow> bytes option \<Rightarrow> string \<Rightarrow> string option" where
  "HashPassword A draw password =
     map_option (\<lambda>salt.
       ''$argon2id$v='' @ show_nat argon2_Version @ ''$m='' @ show_nat argonMemory @ '',t='' @ show_nat argonTime
       @ '',p='' @ show_nat argonThreads @ ''$'' @ raw_b64 A salt @ ''$''
       @ raw_b64 A (IDKey A (as_bytes password) salt argonTime argonMemory argonThreads argonKeyLen)) draw"

text \<open>
  \<^verbatim>\<open>fmt.Sscanf\<close> with the verb \<^verbatim>\<open>%d\<close>: white space other than a newline is skipped, then digits, with an error
  on overflow; a sign is accepted for a signed variable only. What follows the last verb is ignored.
\<close>

definition scan_space :: "string \<Rightarrow> string" where
  "scan_space s = strip_leading (filter (\<lambda>w. w \<noteq> [char_of (10 :: nat)]) white_chars) s"

definition scan_uint :: "nat \<Rightarrow> string \<Rightarrow> (nat \<times> string) option" where
  "scan_uint bits s =
     (let s = scan_space s; ds = takeWhile (\<lambda>c. dec_digit c \<noteq> None) s in
      Option.bind (parse_nat ds) (\<lambda>v. if v < 2 ^ bits then Some (v, drop (length ds) s) else None))"

definition scan_int :: "string \<Rightarrow> (int \<times> string) option" where
  "scan_int s =
     (let s = scan_space s; sign = take 1 s; rest = (if sign = ''-'' \<or> sign = ''+'' then drop 1 s else s);
          ds = takeWhile (\<lambda>c. dec_digit c \<noteq> None) rest in
      Option.bind (parse_nat ds) (\<lambda>v.
        if sign = ''-'' then (if v \<le> 2 ^ 63 then Some (- int v, drop (length ds) rest) else None)
        else if v < 2 ^ 63 then Some (int v, drop (length ds) rest) else None))"

definition scan_literal :: "string \<Rightarrow> string \<Rightarrow> string option" where
  "scan_literal lit s = (if take (length lit) s = lit then Some (drop (length lit) s) else None)"

definition scan_params :: "string \<Rightarrow> (nat \<times> nat \<times> nat) option" where
  "scan_params s =
     Option.bind (scan_literal ''m='' s) (\<lambda>s. Option.bind (scan_uint 32 s) (\<lambda>(memory, s).
     Option.bind (scan_literal '',t='' s) (\<lambda>s. Option.bind (scan_uint 32 s) (\<lambda>(time, s).
     Option.bind (scan_literal '',p='' s) (\<lambda>s. Option.bind (scan_uint 8 s) (\<lambda>(threads, _).
       Some (memory, time, threads)))))))"

text \<open>The error and the answer \<^verbatim>\<open>false\<close> are one to the caller.\<close>

definition VerifyPassword :: "auth_lib \<Rightarrow> string \<Rightarrow> string \<Rightarrow> bool" where
  "VerifyPassword A password encoded =
     (let parts = split_at (\<lambda>c. c = CHR ''$'') encoded in
      length parts = 6 \<and> parts ! 1 = ''argon2id''
      \<and> (case Option.bind (scan_literal ''v='' (parts ! 2)) scan_int of None \<Rightarrow> False
         | Some (v, _) \<Rightarrow> v = int argon2_Version)
      \<and> (case (scan_params (parts ! 3), raw_b64_decode A (parts ! 4), raw_b64_decode A (parts ! 5)) of
           (Some (memory, time, threads), Some salt, Some expected) \<Rightarrow>
             expected = IDKey A (as_bytes password) salt time memory threads (length expected)
         | _ \<Rightarrow> False))"

section \<open>Tokens\<close>

definition jwt_ttl :: nat where "jwt_ttl = 8 * 3600"

definition GenerateToken :: "auth_lib \<Rightarrow> string \<Rightarrow> nat \<Rightarrow> string \<Rightarrow> string \<Rightarrow> string \<Rightarrow> string option" where
  "GenerateToken A secret now sub role tier =
     jwt_sign A secret \<lparr>cl_sub = sub, cl_role = role, cl_tier = tier, cl_exp = Some (now + jwt_ttl)\<rparr>"

text \<open>
  \<open>jwt_decode\<close> checks the signature under the method the token names and returns that method; the method
  has to be HS256, and the expiry has to be present and in the future.
\<close>

definition ValidateToken :: "auth_lib \<Rightarrow> string \<Rightarrow> nat \<Rightarrow> string \<Rightarrow> Claims option" where
  "ValidateToken A secret now token =
     (case jwt_decode A secret token of
        None \<Rightarrow> None
      | Some (alg, claims) \<Rightarrow>
          if alg \<noteq> ''HS256'' then None
          else case cl_exp claims of None \<Rightarrow> None | Some e \<Rightarrow> if now < e then Some claims else None)"

section \<open>Sessions\<close>

definition CreateSession :: "string \<Rightarrow> string \<Rightarrow> (sql_error + string) handler" where
  "CreateSession uuid subscriberID = sql (\<lambda>s.
     if uuid \<in> se_id ` set (sessions s) then (Inl UniqueViolation, s)
     else if subscriberID \<notin> su_id ` set (subscribers s) then (Inl SqlError, s)
     else (Inr uuid, s\<lparr>sessions := sessions s @ [\<lparr>se_id = uuid, se_subscriber_id = subscriberID, se_expires_at = db_clock s + db_secs (8 * 3600)\<rparr>]\<rparr>))"

definition GetSession :: "string \<Rightarrow> (sql_error + session_row) handler" where
  "GetSession sessionID = sql (query_row (\<lambda>s. filter (\<lambda>r. se_id r = sessionID \<and> se_expires_at r > db_clock s) (sessions s)))"

definition DeleteSession :: "string \<Rightarrow> (sql_error + unit) handler" where
  "DeleteSession sessionID = sql (\<lambda>s. (Inr (), s\<lparr>sessions := filter (\<lambda>r. se_id r \<noteq> sessionID) (sessions s)\<rparr>))"

definition CleanExpiredSessions :: "(sql_error + nat) handler" where
  "CleanExpiredSessions = sql (\<lambda>s.
     (Inr (length (filter (\<lambda>r. se_expires_at r < db_clock s) (sessions s))),
      s\<lparr>sessions := filter (\<lambda>r. \<not> se_expires_at r < db_clock s) (sessions s)\<rparr>))"

section \<open>The rate limiter\<close>

text \<open>Its instants are in nanoseconds.\<close>

definition rl_limit :: nat where "rl_limit = 5"
definition rl_window :: nat where "rl_window = 5 * 60 * 1000000000"

definition rl_check :: "nat \<Rightarrow> nat \<Rightarrow> string \<Rightarrow> bool handler" where
  "rl_check i now ip = locked i (\<lambda>m.
     (let fresh = filter (\<lambda>t. now < t + rl_window) (attempts m ip) in
      (length fresh < rl_limit, m\<lparr>attempts := (attempts m)(ip := fresh)\<rparr>)))"

definition rl_record :: "nat \<Rightarrow> nat \<Rightarrow> string \<Rightarrow> unit handler" where
  "rl_record i now ip = locked i (\<lambda>m. ((), m\<lparr>attempts := (attempts m)(ip := attempts m ip @ [now])\<rparr>))"

section \<open>Handlers\<close>

text \<open>
  The newest subscription of a subscriber: \<^verbatim>\<open>ORDER BY created_at DESC LIMIT 1\<close>. A later row of the table is
  not older.
\<close>

definition latest_subscription :: "string \<Rightarrow> authority \<Rightarrow> subscription_row list" where
  "latest_subscription subID s = take 1 (rev (sort_key sb_created_at (filter (\<lambda>r. sb_subscriber_id r = subID) (subscriptions s))))"

text \<open>\<open>ns\<close> and \<open>ns2\<close> are the instants, in nanoseconds, at which the handler reads the clock.\<close>

definition Login :: "auth_lib \<Rightarrow> string \<Rightarrow> nat \<Rightarrow> nat \<Rightarrow> nat \<Rightarrow> string \<Rightarrow> http_request \<Rightarrow> http_response handler" where
  "Login A secret i ns ns2 uuid r =
     (let ip = peerIP r; refuse = seq (rl_record i ns2 ip) (\<lambda>_. Ret (error_json 401 ''invalid_credentials'')) in
      seq (rl_check i ns ip) (\<lambda>allowed.
      if \<not> allowed then Ret (error_json 429 ''rate_limited'')
      else case json_credentials A (Body r) of
        None \<Rightarrow> Ret (error_json 400 ''invalid_request'')
      | Some (email, password) \<Rightarrow>
          seq (sql (query_row (\<lambda>s. filter (\<lambda>u. su_email u = email) (subscribers s)))) (\<lambda>found.
          case found of
            Inl _ \<Rightarrow> refuse
          | Inr u \<Rightarrow>
              if \<not> VerifyPassword A password (su_password u) then refuse
              else
                seq (sql (query_row (latest_subscription (su_id u)))) (\<lambda>sub.
                (let tier = (case sub of Inl _ \<Rightarrow> ''free'' | Inr b \<Rightarrow> sb_tier b) in
                 seq (CreateSession uuid (su_id u)) (\<lambda>sess.
                 case sess of
                   Inl _ \<Rightarrow> Ret (error_json 500 ''internal'')
                 | Inr sessID \<Rightarrow>
                     (case GenerateToken A secret (ns2 div 1000000000) (su_id u) (su_role u) tier of
                        None \<Rightarrow> Ret (error_json 500 ''internal'')
                      | Some tok \<Rightarrow> Ret ((writeJSON 200 (JObj [(''token'', JStr tok)]))
                          \<lparr>set_cookies := [(''session_id'', sessID), (''jwt'', tok)]\<rparr>))))))))"

definition Logout :: "http_request \<Rightarrow> http_response handler" where
  "Logout r =
     (let cleared = no_content\<lparr>set_cookies := [(''session_id'', []), (''jwt'', [])]\<rparr> in
      case session_cookie r of
        None \<Rightarrow> Ret cleared
      | Some sid \<Rightarrow> seq (DeleteSession sid) (\<lambda>res. Ret (case res of Inl _ \<Rightarrow> error_json 500 ''internal'' | Inr _ \<Rightarrow> cleared)))"

definition insert_subscriber :: "subscriber_row \<Rightarrow> string sql" where
  "insert_subscriber u s =
     (if su_email u \<in> su_email ` set (subscribers s) \<or> su_id u \<in> su_id ` set (subscribers s) then (Inl UniqueViolation, s)
      else (Inr (su_id u), s\<lparr>subscribers := subscribers s @ [u\<lparr>su_created_at := db_clock s\<rparr>]\<rparr>))"

text \<open>The columns the statements leave out get their defaults: the role operator, the status
  \<^verbatim>\<open>pending_review\<close>, counters at 0 and the time of the statement; a day is 86400 seconds.\<close>

definition Register :: "auth_lib \<Rightarrow> bytes option \<Rightarrow> string \<Rightarrow> http_request \<Rightarrow> http_response handler" where
  "Register A draw uuid r =
     (case json_credentials A (Body r) of
        None \<Rightarrow> Ret (error_json 400 ''invalid_request'')
      | Some (email, password) \<Rightarrow>
          if \<not> mail_ok A email then Ret (error_json 400 ''invalid_email'')
          else if length password < 16 then Ret (error_json 400 ''password_too_short'')
          else case HashPassword A draw password of
            None \<Rightarrow> Ret (error_json 500 ''internal'')
          | Some hash \<Rightarrow>
              seq (sql (insert_subscriber \<lparr>su_id = uuid, su_email = email, su_password = hash, su_role = ''operator'', su_created_at = 0\<rparr>)) (\<lambda>res.
              case res of
                Inl e \<Rightarrow> Ret (if e = UniqueViolation then error_json 409 ''email_exists'' else error_json 500 ''internal'')
              | Inr sid \<Rightarrow>
                  seq (sql (\<lambda>s. (Inr (), s\<lparr>subscriptions := subscriptions s @ [\<lparr>sb_subscriber_id = sid, sb_tier = ''free'',
                        sb_status = ''pending_review'', sb_tokens_issued = 0, sb_created_at = db_clock s,
                        sb_bandwidth_used = 0, sb_period_start = db_clock s, sb_period_end = db_clock s + db_secs (30 * 86400)\<rparr>]\<rparr>))) (\<lambda>res2.
                  Ret (case res2 of Inl _ \<Rightarrow> error_json 500 ''internal'' | Inr _ \<Rightarrow> writeJSON 201 (JObj [(''id'', JStr sid)])))))"

text \<open>
  The guarded handler gets the subscriber and the role; its result \<open>None\<close> is a panic, which the server
  answers by closing the connection. A cookie \<^verbatim>\<open>jwt\<close> that is present but empty does not authenticate.
\<close>

definition Authenticate :: "auth_lib \<Rightarrow> string \<Rightarrow> nat \<Rightarrow> (string \<Rightarrow> string \<Rightarrow> http_response option handler) \<Rightarrow> http_request \<Rightarrow>
    http_response option handler" where
  "Authenticate A secret now serve r =
     (let refuse = Ret (Some (error_json 401 ''unauthorized'')) in
      case (case bearer (Authorization r) of
              Some t \<Rightarrow> Some t
            | None \<Rightarrow> (case jwt_cookie r of None \<Rightarrow> None | Some v \<Rightarrow> if v = [] then None else Some v)) of
        None \<Rightarrow> refuse
      | Some tokenStr \<Rightarrow>
          (case ValidateToken A secret now tokenStr of
             None \<Rightarrow> refuse
           | Some claims \<Rightarrow>
               (case session_cookie r of
                  None \<Rightarrow> refuse
                | Some sid \<Rightarrow>
                    seq (GetSession sid) (\<lambda>res.
                      case res of
                        Inl _ \<Rightarrow> refuse
                      | Inr sess \<Rightarrow>
                          if se_subscriber_id sess \<noteq> cl_sub claims then refuse
                          else serve (se_subscriber_id sess) (cl_role claims)))))"

definition RequireRole :: "string \<Rightarrow> http_response option handler \<Rightarrow> string \<Rightarrow> http_response option handler" where
  "RequireRole required serve role = (if role \<noteq> required then Ret (Some (error_json 403 ''forbidden'')) else serve)"

text \<open>A text that is not a UUID is an error of the statement.\<close>

definition HandleApproveSubscriber :: "(string \<Rightarrow> bool) \<Rightarrow> string \<Rightarrow> http_response handler" where
  "HandleApproveSubscriber is_uuid sid =
     (if sid = [] then Ret (error_json 400 ''missing_id'')
      else
        seq (sql (\<lambda>s.
          (let mine = filter (\<lambda>r. sb_subscriber_id r = sid) (subscriptions s); newest = Max (sb_created_at ` set mine);
               hit = (\<lambda>r. sb_subscriber_id r = sid \<and> sb_created_at r = newest) in
           if \<not> is_uuid sid then (Inl SqlError, s)
           else (if mine = [] then Inl NoRows else Inr sid,
            s\<lparr>subscriptions := map (\<lambda>r. if hit r then r\<lparr>sb_status := ''active''\<rparr> else r) (subscriptions s)\<rparr>)))) (\<lambda>res.
        Ret (case res of
               Inl e \<Rightarrow> if e = NoRows then error_json 404 ''not_found'' else error_json 500 ''internal''
             | Inr x \<Rightarrow> writeJSON 200 (JObj [(''id'', JStr x), (''status'', JStr ''active'')]))))"

text \<open>One turn of \<^verbatim>\<open>runSessionCleanup\<close>.\<close>

definition session_cleanup :: "unit handler" where
  "session_cleanup = seq CleanExpiredSessions (\<lambda>_. Ret ())"


section \<open>A password is verified by its own hash\<close>

lemma show_nat_dec: "list_all (\<lambda>c. dec_digit c \<noteq> None) (show_nat n)"
proof (induction n rule: show_nat.induct)
  case (1 n)
  then show ?case by (cases "n < 10") (simp_all add: show_nat.simps [of n] dec_digit_char)
qed

lemma dec_digit_graphic: "dec_digit c \<noteq> None \<Longrightarrow> graphic c"
  by (auto simp: dec_digit_def graphic_def Let_def split: if_splits)

lemma scan_space_digit:
  assumes "dec_digit (hd s) \<noteq> None" "s \<noteq> []" shows "scan_space s = s"
proof -
  have "leading (filter (\<lambda>w. w \<noteq> [char_of (10 :: nat)]) white_chars) s = None" (is "leading ?ws s = None")
  proof (cases "leading ?ws s")
    case (Some w)
    then have w: "w \<in> set white_chars" "w \<noteq> []" "s = w @ drop (length w) s" using leading_Some by fastforce+
    then have "hd w = hd s" by (metis hd_append2)
    then show ?thesis using w white_chars_not_graphic dec_digit_graphic [OF assms(1)] by (auto simp: list_all_iff)
  qed
  then show ?thesis by (simp add: scan_space_def strip_leading.simps)
qed

definition no_dec :: "string \<Rightarrow> bool" where
  "no_dec s \<longleftrightarrow> (case s of [] \<Rightarrow> True | c # _ \<Rightarrow> dec_digit c = None)"

lemma scan_digits:
  assumes "no_dec rest"
  shows "scan_space (show_nat n @ rest) = show_nat n @ rest"
    "takeWhile (\<lambda>c. dec_digit c \<noteq> None) (show_nat n @ rest) = show_nat n"
    "take 1 (show_nat n @ rest) \<noteq> ''-'' \<and> take 1 (show_nat n @ rest) \<noteq> ''+''"
proof -
  have hd: "dec_digit (hd (show_nat n)) \<noteq> None" "show_nat n \<noteq> []"
    using show_nat_dec [of n] by (auto simp: list_all_iff)
  then show "scan_space (show_nat n @ rest) = show_nat n @ rest" by (intro scan_space_digit) simp_all
  have "takeWhile (\<lambda>c. dec_digit c \<noteq> None) rest = []" using assms by (simp add: no_dec_def split: list.splits)
  then show "takeWhile (\<lambda>c. dec_digit c \<noteq> None) (show_nat n @ rest) = show_nat n"
    using show_nat_dec [of n] by (simp add: takeWhile_append2 list_all_iff)
  show "take 1 (show_nat n @ rest) \<noteq> ''-'' \<and> take 1 (show_nat n @ rest) \<noteq> ''+''"
    using hd by (cases "show_nat n") (auto simp: dec_digit_def of_char_def)
qed

lemma scan_uint_show: "no_dec rest \<Longrightarrow> n < 2 ^ bits \<Longrightarrow> scan_uint bits (show_nat n @ rest) = Some (n, rest)"
  unfolding scan_uint_def Let_def by (simp only: scan_digits) simp

lemma scan_int_show: "no_dec rest \<Longrightarrow> n < 2 ^ 63 \<Longrightarrow> scan_int (show_nat n @ rest) = Some (int n, rest)"
  using scan_digits(3) [of rest n] unfolding scan_int_def Let_def
  by (simp only: scan_digits if_False HOL.simp_thms) simp

text \<open>What the libraries promise: base64 without padding has no dollar sign and decodes to what was encoded.\<close>

definition auth_laws :: "auth_lib \<Rightarrow> bool" where
  "auth_laws A \<longleftrightarrow> (\<forall>b. raw_b64_decode A (raw_b64 A b) = Some b \<and> CHR ''$'' \<notin> set (raw_b64 A b))
     \<and> (\<forall>p salt t m th n. length (IDKey A p salt t m th n) = n)
     \<and> (\<forall>secret c tok. jwt_sign A secret c = Some tok \<longrightarrow> jwt_decode A secret tok = Some (''HS256'', c))"

lemma VerifyPassword_hash:
  assumes "auth_laws A" "HashPassword A (Some salt) p = Some hash"
  shows "VerifyPassword A q hash \<longleftrightarrow> IDKey A (as_bytes q) salt argonTime argonMemory argonThreads argonKeyLen
    = IDKey A (as_bytes p) salt argonTime argonMemory argonThreads argonKeyLen"
proof -
  let ?key = "\<lambda>p. IDKey A (as_bytes p) salt argonTime argonMemory argonThreads argonKeyLen"
  let ?params = "''m='' @ show_nat argonMemory @ '',t='' @ show_nat argonTime @ '',p='' @ show_nat argonThreads"
  have plain: "list_all (\<lambda>c. c \<noteq> CHR ''$'') (show_nat n)" for n
    using show_nat_dec [of n] by (auto simp: list_all_iff dec_digit_def of_char_def)
  have b64: "raw_b64_decode A (raw_b64 A b) = Some b" "list_all (\<lambda>c. c \<noteq> CHR ''$'') (raw_b64 A b)" "length (?key p) = argonKeyLen" for b p
    using assms(1) by (auto simp: auth_laws_def list_all_iff)
  have "hash = [] @ CHR ''$'' # ''argon2id'' @ CHR ''$'' # (''v='' @ show_nat argon2_Version) @ CHR ''$'' # ?params
      @ CHR ''$'' # raw_b64 A salt @ CHR ''$'' # raw_b64 A (?key p)"
    using assms(2) by (simp add: HashPassword_def)
  then have parts: "split_at (\<lambda>c. c = CHR ''$'') hash =
      [[], ''argon2id'', ''v='' @ show_nat argon2_Version, ?params, raw_b64 A salt, raw_b64 A (?key p)]"
    using plain b64(2) by (simp only:) (subst split_at_append | simp add: split_at_none)+
  have "scan_params ?params = Some (argonMemory, argonTime, argonThreads)"
    by (simp add: scan_params_def scan_literal_def scan_uint_show no_dec_def dec_digit_def of_char_def
        scan_uint_show [of "[]", simplified] argonMemory_def argonTime_def argonThreads_def)
  moreover have "Option.bind (scan_literal ''v='' (''v='' @ show_nat argon2_Version)) scan_int = Some (int argon2_Version, [])"
    using scan_int_show [of "[]" argon2_Version] by (simp add: scan_literal_def no_dec_def argon2_Version_def)
  ultimately show ?thesis using b64 by (auto simp: VerifyPassword_def parts Let_def)
qed

section \<open>Registration is not atomic\<close>

text \<open>
  The two inserts of \<^verbatim>\<open>Register\<close> are separate statements. If the second one fails, the address is taken
  and has no subscription: the caller is told 500, and trying again is refused for ever with 409.
\<close>

lemma register_not_atomic:
  assumes "stmt_outcome s = StmtDone" "email \<notin> su_email ` set (subscribers s)" "uuid \<notin> su_id ` set (subscribers s)"
    and "json_credentials A (Body r) = Some (email, password)" "mail_ok A email" "16 \<le> length password"
  shows "\<exists>t. run_in (Register A (Some salt) uuid r) [id, \<lambda>s. s\<lparr>stmt_outcome := StmtFailed\<rparr>] s = (error_json 500 ''internal'', t)
    \<and> subscriptions t = subscriptions s \<and> email \<in> su_email ` set (subscribers t)
    \<and> (\<forall>salt' uuid'. fst (run_in (Register A (Some salt') uuid' r) [] (t\<lparr>stmt_outcome := StmtDone\<rparr>)) = error_json 409 ''email_exists'')"
  using assms
  by (simp add: Register_def HashPassword_def run_in_seq_sql Let_def exec_sql_def insert_subscriber_def)
end
