(* ===== verification/Blind_Signer.thy ===== *)
theory Blind_Signer
  imports Accounts Big_Ints
begin

text \<open>
  Token issuance at the authority (\<^verbatim>\<open>authority/internal/blind/blind.go\<close>, \<^verbatim>\<open>handlers/tokens.go\<close>): the RSA key
  file, the raw signature and the handler that signs for subscribers. PEM and the key encodings are
  arguments; the big integers of Go are natural numbers. The list of issuances for display is not
  modelled.
\<close>

section \<open>The key\<close>

record rsa_private =
  priv_n :: nat
  priv_e :: nat
  priv_d :: nat

record pem_lib =
  pem_decode :: "bytes \<Rightarrow> (string \<times> bytes) option"
  pem_encode :: "string \<Rightarrow> bytes \<Rightarrow> bytes"
  parse_pkcs1 :: "bytes \<Rightarrow> rsa_private option"
  parse_pkcs8 :: "bytes \<Rightarrow> rsa_private option option"
  marshal_pkcs1 :: "rsa_private \<Rightarrow> bytes"
  marshal_pkix :: "rsa_private \<Rightarrow> bytes option"

record BlindSigner =
  bs_key :: rsa_private
  bs_pemPub :: bytes

datatype blind_error =
  ErrInvalidBlindedValue | NoPemBlock | ParsePkcs8 | NotRsa | UnsupportedBlock string | ParseRsa | WrongModulus nat
  | ReadKey | GenerateKey | MakeDir | CreateKey | EncodePem | CloseKey | MarshalPub

definition RSAKeySize :: nat where "RSAKeySize = 2048"

definition newSigner :: "pem_lib \<Rightarrow> rsa_private \<Rightarrow> blind_error + BlindSigner" where
  "newSigner P priv =
     and_then (ok_or MarshalPub (marshal_pkix P priv)) (\<lambda>der. Inr \<lparr>bs_key = priv, bs_pemPub = pem_encode P ''PUBLIC KEY'' der\<rparr>)"

text \<open>\<open>parse_pkcs8\<close> returns \<open>Some None\<close> for a key that is not RSA.\<close>

definition parsePrivateKey :: "pem_lib \<Rightarrow> bytes \<Rightarrow> blind_error + BlindSigner" where
  "parsePrivateKey P data =
     and_then (ok_or NoPemBlock (pem_decode P data)) (\<lambda>(ty, der).
     and_then (if ty = ''RSA PRIVATE KEY'' then ok_or ParseRsa (parse_pkcs1 P der)
               else if ty = ''PRIVATE KEY'' then and_then (ok_or ParsePkcs8 (parse_pkcs8 P der)) (ok_or NotRsa)
               else Inl (UnsupportedBlock ty)) (\<lambda>priv.
       if nat_bits (priv_n priv) \<noteq> RSAKeySize then Inl (WrongModulus (nat_bits (priv_n priv)))
       else newSigner P priv))"

text \<open>
  The file system as far as the key file goes: its content, and the first step that fails, if one
  does. A failed write leaves the first \<open>n\<close> bytes.
\<close>

datatype key_fault = NoKeyFault | ReadFault | MkdirFault | CreateFault | WriteFault nat | CloseFault

definition generateAndPersist :: "pem_lib \<Rightarrow> key_fault \<Rightarrow> rsa_private option \<Rightarrow> bytes option \<Rightarrow>
    (blind_error + BlindSigner) \<times> bytes option" where
  "generateAndPersist P fault draw file =
     (case draw of
        None \<Rightarrow> (Inl GenerateKey, file)
      | Some priv \<Rightarrow>
          (let pem = pem_encode P ''RSA PRIVATE KEY'' (marshal_pkcs1 P priv) in
           if fault = MkdirFault then (Inl MakeDir, file)
           else if fault = CreateFault \<or> file \<noteq> None then (Inl CreateKey, file)
           else case fault of
             WriteFault n \<Rightarrow> (Inl EncodePem, Some (take n pem))
           | CloseFault \<Rightarrow> (Inl CloseKey, Some pem)
           | _ \<Rightarrow> (newSigner P priv, Some pem)))"

definition LoadOrGenerate :: "pem_lib \<Rightarrow> key_fault \<Rightarrow> rsa_private option \<Rightarrow> bytes option \<Rightarrow>
    (blind_error + BlindSigner) \<times> bytes option" where
  "LoadOrGenerate P fault draw file =
     (if fault = ReadFault then (Inl ReadKey, file)
      else case file of
        Some data \<Rightarrow> (parsePrivateKey P data, file)
      | None \<Rightarrow> generateAndPersist P fault draw file)"

section \<open>Signing\<close>

definition ModulusSize :: "BlindSigner \<Rightarrow> nat" where
  "ModulusSize s = (nat_bits (priv_n (bs_key s)) + 7) div 8"

text \<open>\<^verbatim>\<open>FillBytes\<close>: big-endian, padded on the left; it panics where the value does not fit.\<close>

definition fill_bytes :: "nat \<Rightarrow> nat \<Rightarrow> bytes option" where
  "fill_bytes k v = (if 256 ^ k \<le> v then None else Some (map (\<lambda>i. word_of_nat (v div 256 ^ (k - 1 - i) mod 256)) [0..<k]))"

definition blind_sign :: "BlindSigner \<Rightarrow> bytes \<Rightarrow> (blind_error + bytes) option" where
  "blind_sign s bs =
     (if bs = [] then Some (Inl ErrInvalidBlindedValue)
      else (let b = be_value bs; n = priv_n (bs_key s) in
        if b = 0 \<or> b \<ge> n then Some (Inl ErrInvalidBlindedValue)
        else map_option Inr (fill_bytes (ModulusSize s) (b ^ priv_d (bs_key s) mod n))))"

section \<open>Handlers\<close>

definition HandlePubkey :: "BlindSigner \<Rightarrow> nat \<times> bytes" where
  "HandlePubkey s = (200, bs_pemPub s)"

definition count_token :: "string \<Rightarrow> unit sql" where
  "count_token subID s = (Inr (), s\<lparr>subscriptions := map (\<lambda>r. if sb_subscriber_id r = subID
     then r\<lparr>sb_tokens_issued := sb_tokens_issued r + 1\<rparr> else r) (subscriptions s)\<rparr>)"

definition insert_event :: "string \<Rightarrow> string \<Rightarrow> unit sql" where
  "insert_event uuid subID s =
     (if subID \<notin> su_id ` set (subscribers s) then (Inl SqlError, s)
      else (Inr (), s\<lparr>token_issuance_events := token_issuance_events s @ [\<lparr>ev_id = uuid, ev_subscriber_id = subID, ev_issued_at = db_clock s\<rparr>]\<rparr>))"

text \<open>
  \<open>json_issue\<close> decodes the request's \<^verbatim>\<open>blinded\<close> field. The server answers a panic of the handler by closing
  the connection, which is the result \<open>None\<close>.
\<close>

definition HandleIssue :: "(bytes \<Rightarrow> string option) \<Rightarrow> BlindSigner \<Rightarrow> string \<Rightarrow> string \<Rightarrow> http_request \<Rightarrow> http_response option handler" where
  "HandleIssue json_issue signer uuid subID r =
     (if subID = [] then Ret (Some (error_json 401 ''unauthorized''))
      else
      seq (sql (query_row (latest_subscription subID))) (\<lambda>res.
      case res of
        Inl e \<Rightarrow> Ret (Some (if e = NoRows then error_json 403 ''no_active_subscription'' else error_json 500 ''internal''))
      | Inr sub \<Rightarrow>
          if sb_status sub \<noteq> ''active'' then Ret (Some (error_json 403 ''no_active_subscription''))
          else case json_issue (Body r) of
            None \<Rightarrow> Ret (Some (error_json 400 ''invalid_request''))
          | Some h \<Rightarrow>
              (case decode_hex h of
                 None \<Rightarrow> Ret (Some (error_json 400 ''invalid_blinded''))
               | Some blindedBytes \<Rightarrow>
                   if blindedBytes = [] \<or> length blindedBytes > ModulusSize signer
                   then Ret (Some (error_json 400 ''invalid_blinded''))
                   else case blind_sign signer blindedBytes of
                     None \<Rightarrow> Ret None
                   | Some (Inl _) \<Rightarrow> Ret (Some (error_json 400 ''invalid_blinded''))
                   | Some (Inr signedBytes) \<Rightarrow>
                       seq (sql (count_token subID)) (\<lambda>res.
                       case res of
                         Inl _ \<Rightarrow> Ret (Some (error_json 500 ''internal''))
                       | Inr _ \<Rightarrow>
                           seq (sql (insert_event uuid subID)) (\<lambda>res.
                           Ret (Some (case res of
                             Inl _ \<Rightarrow> error_json 500 ''internal''
                           | Inr _ \<Rightarrow> writeJSON 200 (JObj [(''signed'', JStr (hexEncode signedBytes))]))))))))"

section \<open>The signature fits\<close>

lemma nat_bits_bytes: "n < 256 ^ ((nat_bits n + 7) div 8)"
proof -
  have "n < 2 ^ nat_bits n" by (rule nat_bits_upper)
  also have "(2 :: nat) ^ nat_bits n \<le> 2 ^ (8 * ((nat_bits n + 7) div 8))" by (rule power_increasing) simp_all
  finally show ?thesis by (simp add: power_mult)
qed

text \<open>The handler never panics.\<close>

lemma blind_sign_total: "blind_sign signer bs \<noteq> None"
proof -
  have "priv_n (bs_key signer) < 256 ^ ModulusSize signer" unfolding ModulusSize_def by (rule nat_bits_bytes)
  then have "\<not> 256 ^ ModulusSize signer \<le> v mod priv_n (bs_key signer)" if "0 < priv_n (bs_key signer)" for v
    unfolding not_le using that by (meson less_trans mod_less_divisor)
  then show ?thesis by (simp add: blind_sign_def Let_def fill_bytes_def)
qed

lemma be_value_digits: "v < 256 ^ k \<Longrightarrow> be_value (map (\<lambda>i. word_of_nat (v div 256 ^ (k - 1 - i) mod 256)) [0..<k]) = v"
proof (induction k arbitrary: v)
  case (Suc k)
  have "map (\<lambda>i. word_of_nat (v div 256 ^ (Suc k - 1 - i) mod 256)) [0..<k] =
      map (\<lambda>i. word_of_nat (v div 256 div 256 ^ (k - 1 - i) mod 256) :: byte) [0..<k]"
  proof (rule map_cong [OF refl])
    fix i assume "i \<in> set [0..<k]"
    then have "(256 :: nat) ^ (Suc k - 1 - i) = 256 * 256 ^ (k - 1 - i)" by (simp flip: power_Suc add: Suc_diff_Suc)
    then show "word_of_nat (v div 256 ^ (Suc k - 1 - i) mod 256) = (word_of_nat (v div 256 div 256 ^ (k - 1 - i) mod 256) :: byte)"
      by (simp add: div_mult2_eq)
  qed
  moreover have "be_value (map (\<lambda>i. word_of_nat (v div 256 div 256 ^ (k - 1 - i) mod 256)) [0..<k]) = v div 256"
    using Suc.prems by (intro Suc.IH) (simp add: less_mult_imp_div_less mult.commute)
  moreover have "be_value (map f [0..<Suc k]) = 256 * be_value (map f [0..<k]) + unat (f k)" for f :: "nat \<Rightarrow> byte" by simp
  ultimately have "be_value (map (\<lambda>i. word_of_nat (v div 256 ^ (Suc k - 1 - i) mod 256)) [0..<Suc k]) =
      256 * (v div 256) + unat (word_of_nat (v div 256 ^ (Suc k - 1 - k) mod 256) :: byte)"
    by (simp only:)
  then show ?case by (simp add: unat_byte_of_nat)
qed simp

lemma blind_sign_value:
  assumes "blind_sign signer bs = Some (Inr sg)"
  shows "be_value sg = be_value bs ^ priv_d (bs_key signer) mod priv_n (bs_key signer)"
  using assms be_value_digits by (auto simp: blind_sign_def Let_def fill_bytes_def split: if_splits)

lemma blind_sign_Inr:
  assumes "0 < be_value bs" "be_value bs < priv_n (bs_key signer)" shows "\<exists>sg. blind_sign signer bs = Some (Inr sg)"
  using blind_sign_total [of signer bs] assms by (auto simp: blind_sign_def Let_def split: if_splits)

section \<open>Properties\<close>

definition signable :: "(bytes \<Rightarrow> string option) \<Rightarrow> BlindSigner \<Rightarrow> http_request \<Rightarrow> bytes \<Rightarrow> bool" where
  "signable json_issue signer r signedBytes \<longleftrightarrow> (\<exists>h b. json_issue (Body r) = Some h \<and> decode_hex h = Some b
     \<and> b \<noteq> [] \<and> length b \<le> ModulusSize signer \<and> blind_sign signer b = Some (Inr signedBytes))"

definition signed_response :: "bytes \<Rightarrow> http_response" where
  "signed_response signedBytes = writeJSON 200 (JObj [(''signed'', JStr (hexEncode signedBytes))])"

lemma HandleIssue_signable:
  assumes "signable json_issue signer r x" "sub \<noteq> []"
  shows "HandleIssue json_issue signer uuid sub r =
    seq (sql (query_row (latest_subscription sub))) (\<lambda>res.
      case res of
        Inl e \<Rightarrow> Ret (Some (if e = NoRows then error_json 403 ''no_active_subscription'' else error_json 500 ''internal''))
      | Inr row \<Rightarrow>
          if sb_status row \<noteq> ''active'' then Ret (Some (error_json 403 ''no_active_subscription''))
          else seq (sql (count_token sub)) (\<lambda>res.
            case res of Inl _ \<Rightarrow> Ret (Some (error_json 500 ''internal''))
            | Inr _ \<Rightarrow> seq (sql (insert_event uuid sub)) (\<lambda>res.
                Ret (Some (case res of Inl _ \<Rightarrow> error_json 500 ''internal'' | Inr _ \<Rightarrow> signed_response x)))))"
proof -
  obtain h b where "json_issue (Body r) = Some h" "decode_hex h = Some b" "b \<noteq> []" "length b \<le> ModulusSize signer"
    "blind_sign signer b = Some (Inr x)"
    using assms(1) by (auto simp: signable_def)
  then show ?thesis
    unfolding HandleIssue_def if_not_P [OF assms(2)] signed_response_def
    by (intro arg_cong [where f = "seq _"] ext) (simp add: not_less split: sum.split)
qed

definition swap_signature :: "bytes \<Rightarrow> http_response option \<Rightarrow> http_response option" where
  "swap_signature y res = map_option (\<lambda>resp. if status_code resp = 200 then signed_response y else resp) res"

lemma HandleIssue_swap:
  assumes "signable json_issue signer r x" "signable json_issue signer q y"
  shows "HandleIssue json_issue signer uuid sub q = seq (HandleIssue json_issue signer uuid sub r) (\<lambda>res. Ret (swap_signature y res))"
proof (cases "sub = []")
  case True
  then show ?thesis by (simp add: HandleIssue_def swap_signature_def)
next
  case False
  show ?thesis
    unfolding HandleIssue_signable [OF assms(1) False] HandleIssue_signable [OF assms(2) False] seq_assoc
    by (intro arg_cong [where f = "seq _"] ext)
      (auto simp: swap_signature_def signed_response_def seq_assoc split: sum.split intro!: arg_cong [where f = "seq _"] ext)
qed

lemma HandleIssue_200:
  assumes "fst (run_in (HandleIssue json_issue signer uuid sub r) env s) = Some resp" "status_code resp = 200"
  shows "sub \<noteq> [] \<and> (\<exists>row. latest_subscription sub (case env of [] \<Rightarrow> s | g # _ \<Rightarrow> g s) = [row] \<and> sb_status row = ''active'')
    \<and> (\<exists>x. signable json_issue signer r x \<and> resp = signed_response x)"
proof -
  define s0 where "s0 = (case env of [] \<Rightarrow> s | g # _ \<Rightarrow> g s)"
  have sub: "sub \<noteq> []" using assms by (auto simp: HandleIssue_def)
  note run = assms(1) [unfolded HandleIssue_def if_not_P [OF sub] run_in_seq_sql Let_def s0_def [symmetric]]
  obtain row where row: "fst (exec_sql (query_row (latest_subscription sub)) s0) = Inr row" "sb_status row = ''active''"
    using run assms(2) by (auto split: sum.splits if_splits)
  then have "fst (query_row (latest_subscription sub) s0) = Inr row" using exec_sql_Inr by metis
  moreover have "length (latest_subscription sub s0) \<le> 1" by (simp add: latest_subscription_def)
  ultimately have "latest_subscription sub s0 = [row]" by (auto simp: query_row_Inr)
  moreover have "\<exists>x. signable json_issue signer r x \<and> resp = signed_response x"
    using run assms(2) row
    by (auto simp: signable_def signed_response_def run_in_seq_sql Let_def split: option.splits sum.splits if_splits)
  ultimately show ?thesis using sub row by (auto simp: s0_def)
qed
text \<open>
  C19: The authority signs for subscribers only and keeps nothing of what it signs. A handler answers 200
  only if the subscriber's newest subscription is active, and then with the blinded value to the
  private exponent modulo \<open>n\<close>. Whatever happens around the handler's statements, two requests with
  different blinded values leave exactly the same state behind and succeed or fail alike: neither the
  blinded value nor the signature can be recovered from the tables.
\<close>

theorem issuance_forgets_blinded_value:
  assumes "signable json_issue signer r x" "signable json_issue signer q y"
  shows "snd (run_in (HandleIssue json_issue signer uuid sub r) env s) = snd (run_in (HandleIssue json_issue signer uuid sub q) env s)
    \<and> map_option status_code (fst (run_in (HandleIssue json_issue signer uuid sub r) env s)) =
      map_option status_code (fst (run_in (HandleIssue json_issue signer uuid sub q) env s))
    \<and> (\<forall>resp. fst (run_in (HandleIssue json_issue signer uuid sub r) env s) = Some resp \<longrightarrow> status_code resp = 200 \<longrightarrow>
        content resp = Some (JObj [(''signed'', JStr (hexEncode x))])
        \<and> (\<exists>row. latest_subscription sub (case env of [] \<Rightarrow> s | g # _ \<Rightarrow> g s) = [row] \<and> sb_status row = ''active'')
        \<and> (\<exists>h b. json_issue (Body r) = Some h \<and> decode_hex h = Some b
            \<and> be_value x = be_value b ^ priv_d (bs_key signer) mod priv_n (bs_key signer)))"
proof (intro conjI allI impI)
  show "snd (run_in (HandleIssue json_issue signer uuid sub r) env s) = snd (run_in (HandleIssue json_issue signer uuid sub q) env s)"
    unfolding HandleIssue_swap [OF assms] run_in_result by simp
  show "map_option status_code (fst (run_in (HandleIssue json_issue signer uuid sub r) env s)) =
      map_option status_code (fst (run_in (HandleIssue json_issue signer uuid sub q) env s))"
    unfolding HandleIssue_swap [OF assms] run_in_result
    by (cases "fst (run_in (HandleIssue json_issue signer uuid sub r) env s)") (simp_all add: swap_signature_def signed_response_def)
  fix resp assume resp: "fst (run_in (HandleIssue json_issue signer uuid sub r) env s) = Some resp" "status_code resp = 200"
  note ok = HandleIssue_200 [OF resp]
  then obtain z where "signable json_issue signer r z" "resp = signed_response z" by blast
  moreover have "z = x" using assms(1) calculation(1) by (auto simp: signable_def)
  ultimately show "content resp = Some (JObj [(''signed'', JStr (hexEncode x))])" by (simp add: signed_response_def)
  show "\<exists>row. latest_subscription sub (case env of [] \<Rightarrow> s | g # _ \<Rightarrow> g s) = [row] \<and> sb_status row = ''active''" using ok by blast
  show "\<exists>h b. json_issue (Body r) = Some h \<and> decode_hex h = Some b
      \<and> be_value x = be_value b ^ priv_d (bs_key signer) mod priv_n (bs_key signer)"
    using assms(1) blind_sign_value unfolding signable_def by blast
qed

text \<open>An instance: the modulus 257 with both exponents 1, and a subscriber whose subscription is active.\<close>

definition tiny_signer :: BlindSigner where
  "tiny_signer = \<lparr>bs_key = \<lparr>priv_n = 257, priv_e = 1, priv_d = 1\<rparr>, bs_pemPub = []\<rparr>"

definition tiny_request :: "bytes \<Rightarrow> http_request" where
  "tiny_request b = \<lparr>RemoteAddr = [], Authorization = [], CF_Connecting_IP = [], jwt_cookie = None, session_cookie = None, Body = b\<rparr>"

definition tiny_state :: authority where
  "tiny_state = empty_authority\<lparr>subscribers := [\<lparr>su_id = ''u'', su_email = ''m'', su_password = [], su_role = ''operator'', su_created_at = 0\<rparr>],
     subscriptions := [\<lparr>sb_subscriber_id = ''u'', sb_tier = ''free'', sb_status = ''active'', sb_tokens_issued = 3, sb_created_at = 1,
       sb_bandwidth_used = 0, sb_period_start = 1, sb_period_end = 9\<rparr>]\<rparr>"

lemma nat_bits_257: "nat_bits 257 = 9"
  by (simp add: nat_bits.simps)

lemma tiny_signable: "signable (\<lambda>b. Some (hexEncode b)) tiny_signer (tiny_request [5]) [0, 5]"
  "signable (\<lambda>b. Some (hexEncode b)) tiny_signer (tiny_request [9]) [0, 9]"
  by (simp_all add: signable_def tiny_request_def tiny_signer_def ModulusSize_def nat_bits_257 blind_sign_def
      Let_def fill_bytes_def be_value_def upt_rec)

theorem issuance_forgets_blinded_value_witness:
  "fst (run_in (HandleIssue (\<lambda>b. Some (hexEncode b)) tiny_signer ''e'' ''u'' (tiny_request [5])) [] tiny_state) = Some (signed_response [0, 5])
   \<and> snd (run_in (HandleIssue (\<lambda>b. Some (hexEncode b)) tiny_signer ''e'' ''u'' (tiny_request [5])) [] tiny_state)
     = snd (run_in (HandleIssue (\<lambda>b. Some (hexEncode b)) tiny_signer ''e'' ''u'' (tiny_request [9])) [] tiny_state)"
proof
  show "fst (run_in (HandleIssue (\<lambda>b. Some (hexEncode b)) tiny_signer ''e'' ''u'' (tiny_request [5])) [] tiny_state) = Some (signed_response [0, 5])"
    by (simp add: HandleIssue_signable [OF tiny_signable(1)] run_in_seq_sql exec_sql_def query_row_def latest_subscription_def
        tiny_state_def empty_authority_def count_token_def insert_event_def Let_def)
  show "snd (run_in (HandleIssue (\<lambda>b. Some (hexEncode b)) tiny_signer ''e'' ''u'' (tiny_request [5])) [] tiny_state)
     = snd (run_in (HandleIssue (\<lambda>b. Some (hexEncode b)) tiny_signer ''e'' ''u'' (tiny_request [9])) [] tiny_state)"
    using issuance_forgets_blinded_value [OF tiny_signable] by blast
qed
end
