(* ===== verification/Views.thy ===== *)
theory Views
  imports Reg_Publish Blind_Signer
begin

text \<open>
  The handlers of the authority that only read (\<^verbatim>\<open>handlers/account.go\<close>, \<^verbatim>\<open>health.go\<close> and the lists of
  \<^verbatim>\<open>tokens.go\<close>, \<^verbatim>\<open>admin.go\<close> and \<^verbatim>\<open>relay.go\<close>). A \<^verbatim>\<open>time.Time\<close> inside a JSON value is printed by
  \<open>marshal_time\<close>, which depends on the zone of the process.
\<close>

section \<open>Queries and texts\<close>

definition query_rows :: "(authority \<Rightarrow> 'a list) \<Rightarrow> 'a list sql" where
  "query_rows rows s = (Inr (rows s), s)"

text \<open>\<^verbatim>\<open>t.UTC().Format(time.RFC3339)\<close> of a timestamp of the database.\<close>

definition utc_text :: "nat \<Rightarrow> string" where
  "utc_text t = format_rfc3339 (t div 1000000)"

section \<open>A subscriber's own views\<close>

definition subscriptionInfo :: "subscription_row \<Rightarrow> (string \<times> json) list" where
  "subscriptionInfo b = [(''tier'', JStr (sb_tier b)), (''status'', JStr (sb_status b)), (''tokens_issued'', JNum (sb_tokens_issued b)),
     (''bandwidth_used'', JNum (sb_bandwidth_used b)), (''current_period_start'', JStr (utc_text (sb_period_start b))),
     (''current_period_end'', JStr (utc_text (sb_period_end b)))]"

definition HandleGetAccount :: "string \<Rightarrow> http_response handler" where
  "HandleGetAccount subID =
     (if subID = [] then Ret (error_json 401 ''unauthorized'')
      else
      seq (sql (query_row (\<lambda>s. filter (\<lambda>u. su_id u = subID) (subscribers s)))) (\<lambda>found.
      case found of
        Inl _ \<Rightarrow> Ret (error_json 500 ''internal'')
      | Inr u \<Rightarrow>
          seq (sql (query_row (latest_subscription subID))) (\<lambda>sub.
          case sub of
            Inl _ \<Rightarrow> Ret (error_json 500 ''internal'')
          | Inr b \<Rightarrow> Ret (writeJSON 200 (JObj [(''id'', JStr subID), (''email'', JStr (su_email u)), (''role'', JStr (su_role u)),
              (''created_at'', JStr (utc_text (su_created_at u))), (''subscription'', JObj (subscriptionInfo b))])))))"

text \<open>\<^verbatim>\<open>GROUP BY role\<close>: a role without a row is not in the result, and its count stays 0.\<close>

definition role_count :: "string \<Rightarrow> (string \<times> nat) list \<Rightarrow> json" where
  "role_count role rows = JNum (case map_of rows role of None \<Rightarrow> 0 | Some n \<Rightarrow> int n)"

definition active_by_role :: "authority \<Rightarrow> (string \<times> nat) list" where
  "active_by_role s = (let roles = map rn_role (filter (\<lambda>r. rn_status r = ''active'') (relay_nodes s)) in
     map (\<lambda>role. (role, count_list roles role)) (remdups roles))"

definition HandleGetUsage :: "string \<Rightarrow> http_response handler" where
  "HandleGetUsage subID =
     (if subID = [] then Ret (error_json 401 ''unauthorized'')
      else
      seq (sql (query_row (latest_subscription subID))) (\<lambda>sub.
      case sub of
        Inl _ \<Rightarrow> Ret (error_json 500 ''internal'')
      | Inr b \<Rightarrow>
          seq (sql (query_rows active_by_role)) (\<lambda>res.
          case res of
            Inl _ \<Rightarrow> Ret (error_json 500 ''internal'')
          | Inr rows \<Rightarrow> Ret (writeJSON 200 (JObj [(''tokens_issued'', JNum (sb_tokens_issued b)),
              (''bandwidth_used'', JNum (sb_bandwidth_used b)),
              (''active_relays'', JObj (map (\<lambda>role. (role, role_count role rows)) [''guard'', ''middle'', ''exit''])),
              (''current_period_start'', JStr (utc_text (sb_period_start b))),
              (''current_period_end'', JStr (utc_text (sb_period_end b)))])))))"

definition HandleListTokens :: "string \<Rightarrow> http_response handler" where
  "HandleListTokens subID =
     (if subID = [] then Ret (error_json 401 ''unauthorized'')
      else
      seq (sql (\<lambda>s. (Inr (sum_list (map sb_tokens_issued (filter (\<lambda>b. sb_subscriber_id b = subID) (subscriptions s)))), s))) (\<lambda>count.
      case count of
        Inl _ \<Rightarrow> Ret (error_json 500 ''internal'')
      | Inr n \<Rightarrow>
          seq (sql (query_rows (\<lambda>s. take 50 (rev (sort_key ev_issued_at
              (filter (\<lambda>e. ev_subscriber_id e = subID) (token_issuance_events s))))))) (\<lambda>res.
          case res of
            Inl _ \<Rightarrow> Ret (error_json 500 ''internal'')
          | Inr rows \<Rightarrow> Ret (writeJSON 200 (JObj [(''tokens_issued'', JNum n), (''recent'', JArr (map (\<lambda>e.
              JObj [(''id'', JStr (ev_id e)), (''issued_at'', JStr (utc_text (ev_issued_at e)))]) rows))])))))"

section \<open>Views of an administrator\<close>

definition GetActiveRelays :: "(sql_error + relay_row list) handler" where
  "GetActiveRelays = sql (query_rows (\<lambda>s. sort_key rn_created_at (filter (\<lambda>r. rn_status r = ''active'') (relay_nodes s))))"

definition relay_json :: "registry_lib \<Rightarrow> (nat \<Rightarrow> string) \<Rightarrow> relay_row \<Rightarrow> json" where
  "relay_json L marshal_time r = JObj ([(''id'', JStr (rn_id r)), (''tls_name'', JStr (rn_tls_name r)), (''ip'', JStr (host_text L (rn_ip r))),
     (''port'', JNum (rn_port r)), (''region'', JStr (rn_region r)), (''role'', JStr (rn_role r)), (''status'', JStr (rn_status r)),
     (''operator_id'', JStr (rn_operator_id r)), (''host_id'', JStr (rn_host_id r))]
     @ (case rn_last_heartbeat r of None \<Rightarrow> [] | Some t \<Rightarrow> [(''last_heartbeat'', JStr (marshal_time t))]))"

text \<open>A slice that nothing was appended to is the JSON value null.\<close>

definition HandleListRelays :: "registry_lib \<Rightarrow> (nat \<Rightarrow> string) \<Rightarrow> http_response handler" where
  "HandleListRelays L marshal_time =
     seq GetActiveRelays (\<lambda>res. Ret (case res of
       Inl _ \<Rightarrow> error_json 500 ''internal''
     | Inr rs \<Rightarrow> writeJSON 200 (JObj [(''relays'', if rs = [] then JNull else JArr (map (relay_json L marshal_time) rs))])))"

definition adminSubscriberItem :: "subscriber_row \<times> subscription_row list \<Rightarrow> json" where
  "adminSubscriberItem p = (case p of (u, subs) \<Rightarrow>
     JObj ([(''id'', JStr (su_id u)), (''email'', JStr (su_email u)), (''role'', JStr (su_role u)),
       (''subscriber_created_at'', JStr (utc_text (su_created_at u)))]
     @ (case subs of
          b # _ \<Rightarrow> subscriptionInfo b
        | [] \<Rightarrow> [(''tier'', JStr []), (''status'', JStr []), (''tokens_issued'', JNum 0), (''bandwidth_used'', JNum 0),
            (''current_period_start'', JStr []), (''current_period_end'', JStr [])])))"

definition HandleListSubscribers :: "http_response handler" where
  "HandleListSubscribers =
     seq (sql (query_rows (\<lambda>s. map (\<lambda>u. (u, latest_subscription (su_id u) s)) (rev (sort_key su_created_at (subscribers s)))))) (\<lambda>res.
       Ret (case res of
         Inl _ \<Rightarrow> error_json 500 ''internal''
       | Inr rows \<Rightarrow> writeJSON 200 (JObj [(''subscribers'', JArr (map adminSubscriberItem rows))])))"

text \<open>\<^verbatim>\<open>Ping\<close> is a statement without a result.\<close>

definition Health :: "nat \<Rightarrow> http_response handler" where
  "Health now = seq (sql (\<lambda>s. (Inr (), s))) (\<lambda>res.
     Ret (writeJSON 200 (JObj [(''status'', JStr (case res of Inl _ \<Rightarrow> ''degraded'' | Inr _ \<Rightarrow> ''ok'')), (''timestamp'', JStr (format_rfc3339 now))])))"

section \<open>Views are confined\<close>

text \<open>The rows of one subscriber.\<close>

definition own_rows :: "string \<Rightarrow> authority \<Rightarrow> subscriber_row list \<times> subscription_row list \<times> event_row list" where
  "own_rows u s = (filter (\<lambda>x. su_id x = u) (subscribers s), filter (\<lambda>b. sb_subscriber_id b = u) (subscriptions s),
     filter (\<lambda>e. ev_subscriber_id e = u) (token_issuance_events s))"

lemma own_rows_simps:
  assumes "own_rows u s = own_rows u t"
  shows "filter (\<lambda>x. su_id x = u) (subscribers s) = filter (\<lambda>x. su_id x = u) (subscribers t)"
    "filter (\<lambda>b. sb_subscriber_id b = u) (subscriptions s) = filter (\<lambda>b. sb_subscriber_id b = u) (subscriptions t)"
    "filter (\<lambda>e. ev_subscriber_id e = u) (token_issuance_events s) = filter (\<lambda>e. ev_subscriber_id e = u) (token_issuance_events t)"
    "latest_subscription u s = latest_subscription u t"
  using assms by (simp_all add: own_rows_def latest_subscription_def)

text \<open>
  What a subscriber is shown depends on the subscriber's own rows, and for the usage on the number of
  active relays, but on no row of another subscriber; and a view changes nothing.
\<close>

lemma views_confined:
  assumes "own_rows u s = own_rows u t" "stmt_outcome s = stmt_outcome t"
  shows "fst (run_in (HandleGetAccount u) [] s) = fst (run_in (HandleGetAccount u) [] t)"
    "fst (run_in (HandleListTokens u) [] s) = fst (run_in (HandleListTokens u) [] t)"
    "active_by_role s = active_by_role t \<Longrightarrow> fst (run_in (HandleGetUsage u) [] s) = fst (run_in (HandleGetUsage u) [] t)"
proof -
  note own = own_rows_simps [OF assms(1)]
  show "fst (run_in (HandleGetAccount u) [] s) = fst (run_in (HandleGetAccount u) [] t)"
    by (simp add: HandleGetAccount_def run_in_seq_sql Let_def exec_sql_def query_row_def assms(2) own
        split: stmt_outcome.split list.split sum.split)
  show "fst (run_in (HandleListTokens u) [] s) = fst (run_in (HandleListTokens u) [] t)"
    by (simp add: HandleListTokens_def run_in_seq_sql Let_def exec_sql_def query_rows_def assms(2) own
        split: stmt_outcome.split sum.split)
  show "fst (run_in (HandleGetUsage u) [] s) = fst (run_in (HandleGetUsage u) [] t)" if "active_by_role s = active_by_role t"
    using that
    by (simp add: HandleGetUsage_def run_in_seq_sql Let_def exec_sql_def query_row_def query_rows_def assms(2) own
        split: stmt_outcome.split list.split sum.split)
qed

text \<open>The counts of the usage view are the numbers of active relays of each role.\<close>

lemma role_counts:
  "role_count role (active_by_role s) = JNum (int (count_list (map rn_role (filter (\<lambda>r. rn_status r = ''active'') (relay_nodes s))) role))"
  by (simp add: role_count_def active_by_role_def Let_def map_of_map_restrict restrict_map_def count_list_0_iff)

end
