(* ===== verification/Authority.thy ===== *)
theory Authority
  imports Views
begin

text \<open>
  The authority as a whole (\<^verbatim>\<open>authority/internal/config/config.go\<close>, \<^verbatim>\<open>cmd/authority/main.go\<close>): configuration,
  startup, the table of routes with its guards, and what holds of any number of requests to any number
  of instances in every interleaving of their steps.
\<close>

unbundle bit_operations_syntax

section \<open>Configuration\<close>

record auth_config =
  DatabaseURL :: string
  JWTSecret :: string
  RSAKeyPath :: string
  RegistryKeyPath :: string
  RelayAPIKeySalt :: string
  AllowedRelayIPs :: "string list"
  Port :: string
  Environment :: string

text \<open>An unset variable reads as the empty string.\<close>

definition envOr :: "(string \<Rightarrow> string) \<Rightarrow> string \<Rightarrow> string \<Rightarrow> string" where
  "envOr getenv key def = (if getenv key \<noteq> [] then getenv key else def)"

definition parseIPList :: "string \<Rightarrow> string list" where
  "parseIPList raw =
     (if raw = [] then [] else filter (\<lambda>t. t \<noteq> []) (map trim (split_at (\<lambda>c. c = CHR '','') raw)))"

definition config_load :: "(string \<Rightarrow> string) \<Rightarrow> auth_config" where
  "config_load getenv = \<lparr>DatabaseURL = getenv ''DATABASE_URL'', JWTSecret = getenv ''JWT_SECRET'',
     RSAKeyPath = getenv ''RSA_KEY_PATH'',
     RegistryKeyPath = envOr getenv ''REGISTRY_KEY_PATH'' ''/opt/quiethop/secrets/registry_ed25519.key'',
     RelayAPIKeySalt = getenv ''RELAY_API_KEY_SALT'', AllowedRelayIPs = parseIPList (getenv ''ALLOWED_RELAY_IPS''),
     Port = (if getenv ''PORT'' = [] then ''3001'' else getenv ''PORT''), Environment = getenv ''ENVIRONMENT''\<rparr>"

datatype config_error =
  JwtRequired | JwtShort | DbRequired | RsaPathRequired | SaltRequired | SaltShort | EnvRequired | JwtForbidden
  | DbLocalhost | RsaKeyUnreadable | RsaKeyClose

definition forbiddenJWTSecrets :: "string list" where
  "forbiddenJWTSecrets = [''secret'', ''dev'', ''development'', ''change_me'', ''replace_me'', ''password'']"

fun contains :: "string \<Rightarrow> string \<Rightarrow> bool" where
  "contains [] sub \<longleftrightarrow> sub = []"
| "contains (c # s) sub \<longleftrightarrow> take (length sub) (c # s) = sub \<or> contains s sub"

text \<open>\<open>opens\<close> and \<open>closes\<close> say whether the key file can be opened and closed.\<close>

definition Validate :: "auth_config \<Rightarrow> bool \<Rightarrow> bool \<Rightarrow> config_error option" where
  "Validate c opens closes =
     (if JWTSecret c = [] then Some JwtRequired
      else if length (JWTSecret c) < 32 then Some JwtShort
      else if DatabaseURL c = [] then Some DbRequired
      else if RSAKeyPath c = [] then Some RsaPathRequired
      else if RelayAPIKeySalt c = [] then Some SaltRequired
      else if length (RelayAPIKeySalt c) < 16 then Some SaltShort
      else if Environment c = [] then Some EnvRequired
      else if JWTSecret c \<in> set forbiddenJWTSecrets then Some JwtForbidden
      else if Environment c = ''production'' then
        (if contains (DatabaseURL c) ''localhost'' \<or> contains (DatabaseURL c) ''127.0.0.1'' then Some DbLocalhost
         else if \<not> opens then Some RsaKeyUnreadable
         else if \<not> closes then Some RsaKeyClose
         else None)
      else None)"

text \<open>The exact comparison with the forbidden secrets never refuses one: every one of them is too short before.\<close>

lemma forbidden_comparison_is_dead: "Validate c opens closes \<noteq> Some JwtForbidden"
proof -
  have "length w < 32" if "w \<in> set forbiddenJWTSecrets" for w using that by (auto simp: forbiddenJWTSecrets_def)
  then show ?thesis by (auto simp: Validate_def)
qed

section \<open>Startup\<close>

text \<open>\<^verbatim>\<open>authority registry-keygen\<close>: the exit status, what is printed, and the files.\<close>

definition runRegistryKeygen :: "registry_lib \<Rightarrow> keygen_faults \<Rightarrow> file_mode \<Rightarrow> bytes \<Rightarrow> (string \<Rightarrow> string) \<Rightarrow> string list \<Rightarrow> key_files \<Rightarrow>
    nat \<times> string option \<times> key_files" where
  "runRegistryKeygen L fl umask seed getenv args fs =
     (if length args > 1 then (2, None, fs)
      else (let path = (if length args = 1 then args ! 0 else getenv ''REGISTRY_KEY_PATH'') in
        if path = [] then (2, None, fs)
        else case GenerateKeyFile L fl umask seed fs path of
          (Inl _, fs) \<Rightarrow> (1, None, fs)
        | (Inr pubHex, fs) \<Rightarrow> (0, Some pubHex, fs)))"

text \<open>
  The key that the command prints is the one the authority signs with: a key file that was written with
  exit status 0 passes the check of its permissions, whatever the mask, and if it can be read it loads as
  the signer whose public key was printed. An existing file is left alone.
\<close>

lemma mode_masked: "((requiredMode AND NOT umask) AND 0x1FF) AND NOT requiredMode = 0"
  by (rule bit_word_eqI) (auto simp: bit_simps)

lemma keygen_then_load:
  assumes "runRegistryKeygen L fl umask seed getenv [path] fs = (code, out, fs')" "length seed = 32"
  shows "code = 0 \<Longrightarrow> LoadSigner L False False fs' path = Inr (new_signer L seed) \<and> out = Some (hexEncode (sg_pub (new_signer L seed)))"
    and "fs path \<noteq> None \<Longrightarrow> fs' = fs \<and> code \<noteq> 0"
  using assms mode_masked [of umask]
  by (auto simp: runRegistryKeygen_def GenerateKeyFile_def LoadSigner_def new_signer_def Let_def split: if_splits option.splits)

datatype boot_error = BadConfig config_error | MigrationFailed | ConnectFailed | RegistryKey key_error | RsaKey blind_error

text \<open>
  From \<^verbatim>\<open>main\<close> to the point where the server listens: the signers, and the RSA key file afterwards. \<open>rsa_file\<close>
  is the content of that file; it can be opened if it exists and \<open>rsa_opens\<close>.
\<close>

definition authority_boot :: "registry_lib \<Rightarrow> pem_lib \<Rightarrow> (string \<Rightarrow> string) \<Rightarrow> bool \<Rightarrow> bool \<Rightarrow> bool \<Rightarrow> bool \<Rightarrow> bool \<Rightarrow> bool \<Rightarrow>
    key_files \<Rightarrow> key_fault \<Rightarrow> rsa_private option \<Rightarrow> bytes option \<Rightarrow> (boot_error + RegSigner \<times> BlindSigner) \<times> bytes option" where
  "authority_boot L P getenv rsa_opens rsa_closes migrates connects stat_fails read_fails fs fault draw rsa_file =
     (let cfg = config_load getenv in
      case Validate cfg (rsa_file \<noteq> None \<and> rsa_opens) rsa_closes of
        Some e \<Rightarrow> (Inl (BadConfig e), rsa_file)
      | None \<Rightarrow>
          if \<not> migrates then (Inl MigrationFailed, rsa_file)
          else if \<not> connects then (Inl ConnectFailed, rsa_file)
          else case LoadSigner L stat_fails read_fails fs (RegistryKeyPath cfg) of
            Inl e \<Rightarrow> (Inl (RegistryKey e), rsa_file)
          | Inr reg \<Rightarrow>
              (case LoadOrGenerate P fault draw rsa_file of
                 (Inl e, file) \<Rightarrow> (Inl (RsaKey e), file)
               | (Inr signer, file) \<Rightarrow> (Inr (reg, signer), file)))"

text \<open>In production no key is invented at startup: the file that was there is the key, and it stays.\<close>

lemma production_keeps_rsa_key:
  assumes "getenv ''ENVIRONMENT'' = ''production''"
    and "authority_boot L P getenv o1 o2 m c sf rf fs fault draw file = (Inr (reg, signer), file')"
  shows "file' = file \<and> (\<exists>data. file = Some data \<and> parsePrivateKey P data = Inr signer)"
proof -
  have v: "Validate (config_load getenv) (file \<noteq> None \<and> o1) o2 = None"
    using assms(2) by (auto simp: authority_boot_def Let_def split: option.splits)
  then have "file \<noteq> None" using assms(1) by (auto simp: Validate_def config_load_def split: if_splits)
  then show ?thesis
    using assms(2) v by (auto simp: authority_boot_def Let_def LoadOrGenerate_def split: if_splits sum.splits prod.splits)
qed

section \<open>Routes\<close>

record server =
  sv_lib :: registry_lib
  sv_reg :: RegSigner
  sv_blind :: BlindSigner
  sv_auth :: auth_lib
  sv_secret :: string
  sv_salt :: string
  sv_allowed :: "string set"
  sv_heartbeat :: "bytes \<Rightarrow> string option"
  sv_provision :: "bytes \<Rightarrow> provisionRelayRequest option"
  sv_issue :: "bytes \<Rightarrow> string option"
  sv_is_uuid :: "string \<Rightarrow> bool"
  sv_time :: "nat \<Rightarrow> string"

text \<open>
  The routes, and the two background tasks. The public key's route answers with the PEM text of
  \<open>HandlePubkey\<close> and touches no state.
\<close>

datatype route =
  GetRegistry | PostRegister | PostLogin | PostHeartbeat | PostLogout | PostIssue | PostProvision | PostApprove string
  | GetHealth | GetTokens | GetAccount | GetUsage | GetRelays | GetSubscribers | HealthSweep | SessionCleanup

text \<open>
  One request: its instance, the clock when it is read first and again, the random draw and the
  identifier that the database generates for it.
\<close>

record request =
  rq_route :: route
  rq_http :: http_request
  rq_instance :: nat
  rq_ns :: nat
  rq_ns2 :: nat
  rq_draw :: "bytes option"
  rq_uuid :: string

definition rq_now :: "request \<Rightarrow> nat" where
  "rq_now q = rq_ns q div 1000000000"

definition answered :: "http_response handler \<Rightarrow> http_response option handler" where
  "answered h = seq h (\<lambda>x. Ret (Some x))"

definition routes :: "server \<Rightarrow> request \<Rightarrow> http_response option handler" where
  "routes S q =
     (let A = sv_auth S; r = rq_http q; guarded = (\<lambda>serve. Authenticate A (sv_secret S) (rq_now q) serve r) in
      case rq_route q of
        GetRegistry \<Rightarrow> answered (HandleRegistry (sv_lib S) (sv_reg S) (rq_instance q) (rq_now q))
      | PostRegister \<Rightarrow> answered (Register A (rq_draw q) (rq_uuid q) r)
      | PostLogin \<Rightarrow> answered (Login A (sv_secret S) (rq_instance q) (rq_ns q) (rq_ns2 q) (rq_uuid q) r)
      | PostHeartbeat \<Rightarrow> answered (HandleRelayHeartbeat (go_sha256 (sv_lib S)) (sv_heartbeat S) (sv_salt S) (sv_allowed S) r)
      | PostLogout \<Rightarrow> guarded (\<lambda>_ _. answered (Logout r))
      | PostIssue \<Rightarrow> guarded (\<lambda>sub _. HandleIssue (sv_issue S) (sv_blind S) (rq_uuid q) sub r)
      | PostProvision \<Rightarrow> guarded (\<lambda>_ role. RequireRole ''admin''
          (answered (HandleProvisionRelay (go_sha256 (sv_lib S)) (sv_provision S) (sv_salt S) (rq_draw q) (rq_uuid q) r)) role)
      | PostApprove sid \<Rightarrow> guarded (\<lambda>_ role. RequireRole ''admin'' (answered (HandleApproveSubscriber (sv_is_uuid S) sid)) role)
      | GetHealth \<Rightarrow> answered (Health (rq_now q))
      | GetTokens \<Rightarrow> guarded (\<lambda>sub _. answered (HandleListTokens sub))
      | GetAccount \<Rightarrow> guarded (\<lambda>sub _. answered (HandleGetAccount sub))
      | GetUsage \<Rightarrow> guarded (\<lambda>sub _. answered (HandleGetUsage sub))
      | GetRelays \<Rightarrow> guarded (\<lambda>_ role. RequireRole ''admin'' (answered (HandleListRelays (sv_lib S) (sv_time S))) role)
      | GetSubscribers \<Rightarrow> guarded (\<lambda>_ role. RequireRole ''admin'' (answered HandleListSubscribers) role)
      | HealthSweep \<Rightarrow> seq relay_health_sweep (\<lambda>_. Ret None)
      | SessionCleanup \<Rightarrow> seq session_cleanup (\<lambda>_. Ret None))"

section \<open>Handlers that leave relays and documents alone\<close>

definition core :: "authority \<Rightarrow> relay_row list \<times> doc_row list \<times> (nat \<Rightarrow> bytes option \<times> SignatureEntry list \<times> nat)" where
  "core s = (relay_nodes s, registry_documents s, \<lambda>i. (lastDoc (memories s i), lastSigs (memories s i), lastTil (memories s i)))"

primrec frames :: "'a handler \<Rightarrow> bool" where
  "frames (Ret a) \<longleftrightarrow> True"
| "frames (Step f) \<longleftrightarrow> (\<forall>s. case map_prod frames id (f s) of (w, t) \<Rightarrow> w \<and> core t = core s)"

lemma core_inv:
  assumes "core t = core s" "pub_inv L sg s" shows "pub_inv L sg t \<and> pub_below s t"
proof -
  have eq: "relay_nodes t = relay_nodes s" "registry_documents t = registry_documents s"
    "\<And>i. lastDoc (memories t i) = lastDoc (memories s i)" "\<And>i. lastSigs (memories t i) = lastSigs (memories s i)"
    "\<And>i. lastTil (memories t i) = lastTil (memories s i)"
    using assms(1) by (auto simp: core_def fun_eq_iff)
  then have "remembered L sg docs (memories t i) = remembered L sg docs (memories s i)" for docs i
    by (simp add: remembered_def split: option.split)
  then show ?thesis using assms(2) eq by (simp add: pub_inv_def relays_ok_def)
qed

lemma frames_ensures: "frames p \<Longrightarrow> ensures (pub_inv L sg) pub_below (\<lambda>_ _. True) p s"
proof (induction p arbitrary: s rule: prog_induct)
  case (Step f)
  have "pub_inv L sg u \<and> pub_below t u \<and> ensures (pub_inv L sg) pub_below (\<lambda>_ _. True) p u"
    if "pub_inv L sg t" "f t = (p, u)" for t p u
  proof -
    have "frames p" "core u = core t" using Step.prems [unfolded frames.simps, rule_format, of t] that(2) by auto
    then show ?thesis using core_inv that Step.IH [of t u] by auto
  qed
  then show ?case by (auto simp: map_prod_def split: prod.split)
qed simp

lemma frames_seq: "frames p \<Longrightarrow> (\<And>a. frames (k a)) \<Longrightarrow> frames (seq p k)"
proof (induction p rule: prog_induct)
  case (Step f)
  have "frames (seq p k) \<and> core t = core s" if "f s = (p, t)" for s p t
    using Step.prems(1) [unfolded frames.simps, rule_format, of s] Step.IH [of s] Step.prems(2) that by auto
  then show ?case by (auto simp: map_prod_def split: prod.split)
qed simp

lemma frames_sql: "(\<And>s. core (snd (q s)) = core s) \<Longrightarrow> frames (sql q)"
  using exec_sql_state [of q] by (auto simp: sql_def atomically_def map_prod_def split: prod.split) (metis snd_conv)

lemma frames_query: "frames (sql (query_row rows))"
  by (rule frames_sql) simp

lemma frames_locked:
  assumes "\<And>m. (lastDoc (snd (f m)), lastSigs (snd (f m)), lastTil (snd (f m))) = (lastDoc m, lastSigs m, lastTil m)"
  shows "frames (locked i f)"
  using assms by (auto simp: locked_def atomically_def map_prod_def core_def fun_eq_iff split: prod.split) (metis snd_conv)+

lemmas frame_rules = frames_seq frames_query frames_sql frames_locked

lemma frames_accounts:
  "frames (Register A draw uuid r)" "frames (Login A secret i ns ns2 uuid r)" "frames (Logout r)"
  "frames (HandleApproveSubscriber is_uuid sid)" "frames session_cleanup" "frames (GetSession sid)"
proof -
  show "frames (GetSession sid)" unfolding GetSession_def by (rule frames_query)
  show "frames (Register A draw uuid r)"
    by (auto simp: Register_def insert_subscriber_def core_def intro!: frame_rules split: option.split sum.split)
  show "frames (HandleApproveSubscriber is_uuid sid)"
    by (auto simp: HandleApproveSubscriber_def core_def Let_def intro!: frame_rules split: option.split sum.split)
  show "frames session_cleanup"
    by (auto simp: session_cleanup_def CleanExpiredSessions_def core_def intro!: frame_rules)
  show "frames (Logout r)"
    by (auto simp: Logout_def DeleteSession_def core_def Let_def intro!: frame_rules split: option.split)
  have parts: "frames (rl_check i ns ip)" "frames (rl_record i ns2 ip)" "frames (CreateSession uuid sub)" for ip sub
    by (auto simp: rl_check_def rl_record_def CreateSession_def core_def Let_def intro!: frames_locked frames_sql)
  show "frames (Login A secret i ns ns2 uuid r)"
    by (auto simp: Login_def Let_def intro!: frames_seq frames_query parts split: option.split sum.split)
qed

lemma frames_HandleIssue: "frames (HandleIssue json_issue signer uuid sub r)"
proof -
  have "frames (sql (count_token sub))" "frames (sql (insert_event uuid sub))"
    by (auto simp: count_token_def insert_event_def core_def intro!: frames_sql)
  then show ?thesis
    by (auto simp: HandleIssue_def intro!: frames_seq frames_query split: option.split sum.split)
qed

lemma frames_views:
  "frames (Health now)" "frames (HandleListTokens sub)" "frames (HandleGetAccount sub)" "frames (HandleGetUsage sub)"
  "frames (HandleListRelays L mt)" "frames HandleListSubscribers"
  by (auto simp: Health_def HandleListTokens_def HandleGetAccount_def HandleGetUsage_def HandleListRelays_def GetActiveRelays_def
      HandleListSubscribers_def query_rows_def intro!: frame_rules split: sum.split)

section \<open>Every route keeps the registry's invariant\<close>

lemma Authenticate_ensures:
  assumes "\<And>sub role t. ensures (pub_inv L sg) pub_below Q (serve sub role) t" "\<And>t resp. status_code resp \<noteq> 200 \<Longrightarrow> Q t (Some resp)"
  shows "ensures (pub_inv L sg) pub_below Q (Authenticate A secret now serve r) s"
  using assms frames_accounts(6)
  by (auto simp: Authenticate_def Let_def intro!: pub.ensures_seq [OF frames_ensures] split: option.split sum.split)

lemma relay_sql:
  assumes "\<And>t. relays_ok t \<Longrightarrow> relays_ok (snd (q t)) \<and> relays_below t (snd (q t))"
    and "\<And>t. registry_documents (snd (q t)) = registry_documents t \<and> memories (snd (q t)) = memories t"
  shows "ensures (pub_inv L sg) pub_below (\<lambda>_ _. True) (sql q) s"
  using assms by (intro pub_sql) (auto simp: pub_inv_def pub_below_def)

lemma relay_handlers_ensure:
  "ensures (pub_inv L sg) pub_below (\<lambda>_ _. True) (HandleRelayHeartbeat sha jh salt allowed r) s"
  "ensures (pub_inv L sg) pub_below (\<lambda>_ _. True) (HandleProvisionRelay sha jp salt draw uuid r) s"
  "ensures (pub_inv L sg) pub_below (\<lambda>_ _. True) relay_health_sweep s"
proof -
  have beat: "ensures (pub_inv L sg) pub_below (\<lambda>_ _. True) (sql (update_heartbeat hash offered)) t" for hash offered t
    by (rule relay_sql) (simp_all add: update_heartbeat_ok, simp add: update_heartbeat_def Let_def)
  have "ensures (pub_inv L sg) pub_below (\<lambda>_ _. True) (RecordHeartbeat sha salt key offered) t" for key offered t
    unfolding RecordHeartbeat_def Let_def
    by (auto intro!: pub.ensures_seq [OF beat] pub.ensures_seq [OF frames_ensures] frames_query split: sum.split)
  then show "ensures (pub_inv L sg) pub_below (\<lambda>_ _. True) (HandleRelayHeartbeat sha jh salt allowed r) s"
    by (auto simp: HandleRelayHeartbeat_def intro!: pub.ensures_seq split: option.split)
  have sweep: "ensures (pub_inv L sg) pub_below (\<lambda>_ _. True) (sql (update_inactive n)) t" for n t
    by (rule relay_sql) (simp_all add: update_inactive_ok, simp add: update_inactive_def Let_def)
  then show "ensures (pub_inv L sg) pub_below (\<lambda>_ _. True) relay_health_sweep s"
    by (auto simp: relay_health_sweep_def SweepInactiveRelays_def intro!: pub.ensures_seq)
  have ins: "ensures (pub_inv L sg) pub_below (\<lambda>_ _. True) (sql (insert_relay row)) t"
    if "validRole (rn_role row)" "wf_ip (rn_ip row)" "rn_tls_name row \<noteq> []" "rn_status row = ''inactive''" for row t
    using that by (intro relay_sql) (simp_all add: insert_relay_ok, simp add: insert_relay_def)
  have "ensures (pub_inv L sg) pub_below (\<lambda>_ _. True)
      (ProvisionRelay sha salt tls region role ip port key oper host draw uuid) t" if "tls \<noteq> []" for tls region role ip port key oper host t
    using parse_ip_wf that
    by (auto simp: ProvisionRelay_def intro!: pub.ensures_seq [OF ins] split: option.split sum.split)
  then show "ensures (pub_inv L sg) pub_below (\<lambda>_ _. True) (HandleProvisionRelay sha jp salt draw uuid r) s"
    by (auto simp: HandleProvisionRelay_def intro!: pub.ensures_seq split: option.split)
qed

text \<open>What a route returns: for the registry a stored document that is still valid, for the others anything.\<close>

definition registry_json :: "registry_lib \<Rightarrow> bytes \<Rightarrow> SignatureEntry list \<Rightarrow> json" where
  "registry_json L doc sigs = JObj [(''document'', JStr (go_b64 L doc)), (''signatures'', JArr (map signature_json sigs))]"

definition registry_answer :: "server \<Rightarrow> request \<Rightarrow> authority \<Rightarrow> http_response option \<Rightarrow> bool" where
  "registry_answer S q s res \<longleftrightarrow> (rq_route q = GetRegistry \<longrightarrow> (\<forall>resp. res = Some resp \<longrightarrow> status_code resp = 200 \<longrightarrow>
     (\<exists>row \<in> set (registry_documents s). rq_now q < rd_valid_after row + ValidWindow
        \<and> content resp = Some (registry_json (sv_lib S) (rd_document row) [Sign (sv_lib S) (sv_reg S) (rd_document row)]))))"

lemma registry_answer_stable: "registry_answer S q s res \<Longrightarrow> pub_below s t \<Longrightarrow> registry_answer S q t res"
  unfolding registry_answer_def using pub_below_docs [of s t] by blast

lemma HandleRegistry_ensures:
  assumes "sigs_law L"
  shows "ensures (pub_inv L sg) pub_below (\<lambda>s resp. status_code resp = 200 \<longrightarrow> (\<exists>row \<in> set (registry_documents s).
      now < rd_valid_after row + ValidWindow \<and> content resp = Some (registry_json L (rd_document row) [Sign L sg (rd_document row)])))
    (HandleRegistry L sg i now) s"
  unfolding HandleRegistry_def
  by (rule pub.ensures_seq [OF Current_ensures [OF assms]]) (auto simp: served_def registry_json_def split: sum.splits)

lemma routes_ensure:
  assumes "sigs_law (sv_lib S)"
  shows "ensures (pub_inv (sv_lib S) (sv_reg S)) pub_below (registry_answer S q) (routes S q) s"
proof (cases "rq_route q = GetRegistry")
  case True
  then show ?thesis
    by (auto simp: routes_def answered_def registry_answer_def intro!: pub.ensures_seq [OF HandleRegistry_ensures [OF assms]])
next
  case False
  let ?T = "\<lambda>_ _. True"
  have answered: "ensures (pub_inv (sv_lib S) (sv_reg S)) pub_below ?T (answered h) t"
    if "ensures (pub_inv (sv_lib S) (sv_reg S)) pub_below ?T h t" for h t
    unfolding answered_def by (rule pub.ensures_seq [OF that]) simp
  have "ensures (pub_inv (sv_lib S) (sv_reg S)) pub_below ?T (routes S q) s"
    using False
    by (auto simp: routes_def RequireRole_def Let_def
        intro!: answered Authenticate_ensures relay_handlers_ensure frames_accounts [THEN frames_ensures]
          frames_views [THEN frames_ensures]
          frames_HandleIssue [THEN frames_ensures] pub.ensures_seq [OF relay_handlers_ensure(3)]
          pub.ensures_seq [OF frames_ensures [OF frames_accounts(5)]] split: route.split)
  then show ?thesis by (rule pub.ensures_mono) (use False in \<open>simp add: registry_answer_def\<close>)
qed

lemma pool_routes:
  assumes "sigs_law (sv_lib S)" "pub_inv (sv_lib S) (sv_reg S) s"
    and "foldl (pool_step db_env) (map (routes S) reqs, s) es = (qs, t)"
  shows "pub_inv (sv_lib S) (sv_reg S) t \<and> pub_below s t"
    and "i < length reqs \<Longrightarrow> qs ! i = Ret res \<Longrightarrow> registry_answer S (reqs ! i) t res"
proof -
  have run: "pub_inv (sv_lib S) (sv_reg S) t \<and> pub_below s t \<and> length qs = length (map (routes S) reqs)
      \<and> (\<forall>i < length (map (routes S) reqs).
           ensures (pub_inv (sv_lib S) (sv_reg S)) pub_below (registry_answer S (reqs ! i)) (qs ! i) t)"
  proof (rule pub.pool_ensures [OF assms(2) _ _ assms(3)])
    show "ensures (pub_inv (sv_lib S) (sv_reg S)) pub_below (registry_answer S (reqs ! i)) (map (routes S) reqs ! i) s"
      if "i < length (map (routes S) reqs)" for i
      using that routes_ensure [OF assms(1)] by simp
  qed (rule registry_answer_stable)
  then show "pub_inv (sv_lib S) (sv_reg S) t \<and> pub_below s t" by blast
  show "registry_answer S (reqs ! i) t res" if "i < length reqs" "qs ! i = Ret res"
    using run [THEN conjunct2, THEN conjunct2, THEN conjunct2, rule_format, of i] that by simp
qed

end
