(* ===== verification/Authority_Runs.thy ===== *)
theory Authority_Runs
  imports Authority
begin

text \<open>
  What the authority guarantees over its runs, with a concrete server on which the hypotheses hold.
\<close>

section \<open>An instance of the libraries\<close>

text \<open>
  A small concrete server, on which the hypotheses of the properties hold: it can encode two documents
  of one hour, each as one byte, base64 is the identity on characters and the one signature is 64 zero
  bytes.
\<close>

definition sample_entry :: GoRelayEntry where
  "sample_entry = \<lparr>ge_id = ''r'', ge_operator_id = ''o'', ge_host_id = ''h'', ge_role = ''guard'', ge_ip = ''203.0.113.7'',
     ge_port = 443, ge_tls_name = ''r.example'', ge_static_pubkey = hexEncode (replicate 32 9)\<rparr>"

definition sample_signature :: SignatureEntry where
  "sample_signature = \<lparr>sig_key_id = hexEncode (replicate 8 0), sig = of_bytes (replicate 64 0)\<rparr>"

definition sample_lib :: registry_lib where
  "sample_lib = \<lparr>json_marshal = \<lambda>d. if d = document_for 1791381600 [] then Some [7]
       else if d = document_for 1791381600 [sample_entry] then Some [8] else None,
     marshal_sigs = \<lambda>sigs. if sigs = [sample_signature] then Some [1] else None,
     unmarshal_sigs = \<lambda>raw. if raw = [1] then Some [sample_signature] else None, jsonb = id,
     host_text = \<lambda>a. addr_text (a, []), ed_public = id, ed_sign = \<lambda>seed m. replicate 64 0,
     go_sha256 = \<lambda>b. replicate 32 0, go_b64 = of_bytes\<rparr>"

definition sample_auth :: auth_lib where
  "sample_auth = \<lparr>IDKey = \<lambda>p salt t m th n. take n (p @ replicate n 0), raw_b64 = hexEncode, raw_b64_decode = decode_hex,
     jwt_sign = \<lambda>secret c. Some (secret @ ''.'' @ cl_sub c),
     jwt_decode = \<lambda>secret tok. if tok = secret @ ''.u'' then
       Some (''HS256'', \<lparr>cl_sub = ''u'', cl_role = ''operator'', cl_tier = ''free'', cl_exp = Some 1800000000\<rparr>) else None,
     mail_ok = \<lambda>_. True, json_credentials = \<lambda>_. Some (''mail'', ''password'')\<rparr>"

definition authority_blind :: BlindSigner where
  "authority_blind = \<lparr>bs_key = \<lparr>priv_n = 2 ^ 256 + 1, priv_e = 1, priv_d = 1\<rparr>, bs_pemPub = []\<rparr>"

definition sample_server :: server where
  "sample_server = \<lparr>sv_lib = sample_lib, sv_reg = new_signer sample_lib (replicate 32 5), sv_blind = authority_blind,
     sv_auth = sample_auth, sv_secret = ''s'', sv_salt = ''salt'', sv_allowed = NewRelayHandler [''203.0.113.7''],
     sv_heartbeat = \<lambda>_. None, sv_provision = \<lambda>_. None, sv_issue = from_utf8, sv_is_uuid = \<lambda>_. True,
     sv_time = show_nat\<rparr>"

definition sample_http :: http_request where
  "sample_http = \<lparr>RemoteAddr = ''203.0.113.7:9'', Authorization = [], CF_Connecting_IP = [], jwt_cookie = None,
     session_cookie = None, Body = []\<rparr>"

definition authority_request :: "route \<Rightarrow> nat \<Rightarrow> request" where
  "authority_request rt i = \<lparr>rq_route = rt, rq_http = sample_http, rq_instance = i, rq_ns = 1791383400000000000,
     rq_ns2 = 1791383400000000000, rq_draw = None, rq_uuid = ''id''\<rparr>"

definition sample_row :: doc_row where
  "sample_row = \<lparr>rd_version = 497606, rd_valid_after = 1791381600, rd_document = [7], rd_signatures = [1]\<rparr>"

lemma sample_sign: "Sign sample_lib (sv_reg sample_server) d = sample_signature"
  by (simp add: Sign_def sample_server_def new_signer_def KeyIDFor_def sample_lib_def sample_signature_def)

lemma sample_laws: "sigs_law sample_lib" "pub_inv sample_lib sg empty_authority"
  by (simp_all add: sigs_law_def sample_lib_def pub_inv_def relays_ok_def empty_authority_def remembered_def fresh_memory_def)

lemma sample_lib_simps:
  "sv_lib sample_server = sample_lib" "json_marshal sample_lib (document_for 1791381600 []) = Some [7]"
  "marshal_sigs sample_lib [sample_signature] = Some [1]" "unmarshal_sigs sample_lib [1] = Some [sample_signature]"
  "jsonb sample_lib raw = raw" "HourOf 1791383400 = 1791381600"
  by (simp_all add: sample_server_def sample_lib_def HourOf_def)

text \<open>
  Two instances answer at the same moment: both find no document, both build one and both insert it.
  The second insert finds the first one's row, and the second instance loads and serves that row.
\<close>

definition race :: "db_event sched list" where
  "race = [Run 0, Run 1, Run 0, Run 1, Run 0, Run 1, Run 0, Run 1, Run 1]"

lemmas race_steps = routes_def Let_def answered_def HandleRegistry_def Current_def load_def publish_doc_def activeRelays_def
  cached_def remember_doc_def locked_def sql_def atomically_def exec_sql_def query_row_def insert_document_def

lemma sample_race:
  "\<exists>t. foldl (pool_step db_env) (map (routes sample_server) [authority_request GetRegistry 0, authority_request GetRegistry 1], empty_authority) race
     = ([Ret (Some (writeJSON 200 (registry_json sample_lib [7] [sample_signature]))),
         Ret (Some (writeJSON 200 (registry_json sample_lib [7] [sample_signature])))], t)
     \<and> registry_documents t = [sample_row]"
  by (simp add: race_def authority_request_def race_steps empty_authority_def sample_sign rq_now_def sample_lib_simps
      registry_json_def sample_row_def VersionFor_def doc_constraints_def)

section \<open>Properties\<close>



end
