(* ===== verification/Registry_Service.thy ===== *)
theory Registry_Service
  imports Authority_Runs Path_Select
begin

text \<open>
  The registry from the authority's tables to the client's candidates: what \<^verbatim>\<open>HandleRegistry\<close> serves is
  what \<^verbatim>\<open>verify\<close> of the Rust crate accepts and what path selection can use.
\<close>

section \<open>The two sides of the wire\<close>

text \<open>A document of the authority as the Rust crate decodes it.\<close>

definition rust_entry :: "GoRelayEntry \<Rightarrow> RelayEntry" where
  "rust_entry e = \<lparr>relay_id = ge_id e, operator_id = ge_operator_id e, host_id = ge_host_id e, relay_role = ge_role e,
     relay_ip = ge_ip e, relay_port = word_of_int (ge_port e), tls_name = ge_tls_name e, static_pubkey = ge_static_pubkey e\<rparr>"

definition rust_document :: "GoDocument \<Rightarrow> Document" where
  "rust_document d = \<lparr>version = gd_version d, valid_after = gd_valid_after d, fresh_until = gd_fresh_until d,
     valid_until = gd_valid_until d, relays = map rust_entry (gd_relays d)\<rparr>"

text \<open>
  The last instant whose time stamp has a four-digit year, and the laws that relate the two sides'
  libraries: base64 and SHA-256 are the same functions, an honest Ed25519 signature verifies, the
  database prints an address as Rust reads it, and the two JSON libraries agree on the documents and
  on the envelopes that the authority builds. \<open>render\<close> is the body of a JSON response.
\<close>

definition last_stamp :: nat where
  "last_stamp = 253402300799"

definition wire_laws :: "registry_lib \<Rightarrow> reg_env \<Rightarrow> (json \<Rightarrow> bytes) \<Rightarrow> bool" where
  "wire_laws L E render \<longleftrightarrow> (\<forall>b. b64_decode E (go_b64 L b) = Some b) \<and> sha256 E = go_sha256 L
     \<and> (\<forall>seed m. length seed = 32 \<longrightarrow> ed_key_ok E (ed_public L seed) \<and> length (ed_public L seed) = 32
          \<and> length (ed_sign L seed m) = 64 \<and> verify_strict E (ed_public L seed) m (ed_sign L seed m))
     \<and> (\<forall>a. wf_ip a \<longrightarrow> to_canonical a = a \<longrightarrow> parse_ip (host_text L a) = Some a)
     \<and> (\<forall>hour rows b. hour + ValidWindow \<le> last_stamp \<longrightarrow> list_all relay_ok rows \<longrightarrow>
          json_marshal L (document_for hour (map (entry_of L) rows)) = Some b \<longrightarrow>
          json_document E b = Some (rust_document (document_for hour (map (entry_of L) rows))))
     \<and> (\<forall>seed doc. length seed = 32 \<longrightarrow>
          json_envelope E (render (registry_json L doc [Sign L (new_signer L seed) doc])) =
            Some \<lparr>env_document = go_b64 L doc, signatures = [Sign L (new_signer L seed) doc]\<rparr>)"

lemma signedMessage_eq: "signedMessage = signed_message"
  by (simp add: fun_eq_iff signedMessage_def signed_message_def Domain_def DOMAIN_def)

lemma hex_table:
  assumes "v < 16" shows "''0123456789abcdef'' ! v = hex_char v"
proof -
  have "list_all (\<lambda>v. ''0123456789abcdef'' ! v = hex_char v) [0..<16]" by code_simp
  then show ?thesis using assms by (simp add: list_all_iff)
qed

lemma hexOf_eq: "hexOf bs = hexEncode bs"
proof -
  have "unat (drop_bit 4 c) = unat c div 16 \<and> unat (c AND 0x0F) = unat c mod 16" for c :: byte
  proof
    have "c AND 0x0F = take_bit 4 c" by (simp add: take_bit_eq_mask mask_numeral)
    then show "unat (c AND 0x0F) = unat c mod 16" by (simp add: unsigned_take_bit_eq) (simp add: take_bit_eq_mod)
    show "unat (drop_bit 4 c) = unat c div 16" by (simp add: drop_bit_eq_div unat_div)
  qed
  moreover have "unat c div 16 < 16" for c :: byte using unat_byte_lt [of c] by (simp add: div_less_iff_less_mult)
  ultimately show ?thesis by (simp add: hexOf_def hexEncode_def hex_byte_def [abs_def] nibble_def hex_table)
qed

lemma entry_usable:
  assumes "wire_laws L E render" "relay_ok r"
  shows "well_formed_entry (rust_entry (entry_of L r)) \<and> ip_addr (rust_entry (entry_of L r)) = Inr (rn_ip r)
    \<and> entry_addr (rust_entry (entry_of L r)) = Inr (sock_new (rn_ip r) (word_of_int (rn_port r)))
    \<and> static_key (rust_entry (entry_of L r)) = Inr (rn_static_pubkey r)"
proof -
  have r: "parse_ip (host_text L (rn_ip r)) = Some (rn_ip r)" "to_canonical (rn_ip r) = rn_ip r"
    "length (rn_static_pubkey r) = 32" "1 \<le> rn_port r" "rn_port r < 65536"
    using assms by (auto simp: wire_laws_def relay_ok_def relay_constraints_def)
  have "uint (word_of_int (rn_port r) :: u16) = rn_port r" using r(4,5) by (simp add: uint_word_of_int)
  then have "(word_of_int (rn_port r) :: u16) \<noteq> 0" using r(4) by (metis uint_0_eq not_one_le_zero)
  then show ?thesis
    using assms(2) r
    by (auto simp: well_formed_entry_def rust_entry_def entry_of_def ip_addr_def entry_addr_def static_key_def hexOf_eq
        hexEncode_digits(1) hexEncode_digits(2) [simplified] STATIC_KEY_LEN_def canonical_ip_def relay_ok_def relay_constraints_def validRole_def)
qed

lemma entries_usable:
  assumes "wire_laws L E render" "list_all relay_ok rows"
  shows "candidates_of (map (rust_entry \<circ> entry_of L) rows) =
    Inr (map (\<lambda>r. \<lparr>entry = rust_entry (entry_of L r), cand_ip = rn_ip r\<rparr>) rows)"
  using assms(2) entry_usable [OF assms(1)] by (induction rows) simp_all

lemma rows_of_entries:
  "\<forall>e \<in> set rs. \<exists>r. P r \<and> e = f r \<Longrightarrow> \<exists>rows. rs = map f rows \<and> list_all P rows"
proof (induction rs)
  case (Cons e rs)
  then obtain r rows where "P r" "e = f r" "rs = map f rows" "list_all P rows" by auto
  then show ?case by (intro exI [of _ "r # rows"]) simp
qed simp

section \<open>Acceptance\<close>

lemma document_dated:
  assumes "hour + ValidWindow \<le> last_stamp" "int hour = 3600 * v" "int hour \<le> now + 60" "now < int hour + int ValidWindow"
    "gd_version d = v" "gd_valid_after d = stamp hour" "gd_valid_until d = stamp (hour + ValidWindow)"
  shows "well_dated (rust_document d) \<and> in_window (rust_document d) now"
proof -
  have "parse_rfc3339 (stamp hour) = Inr (int hour)" "parse_rfc3339 (stamp (hour + ValidWindow)) = Inr (int hour + int ValidWindow)"
    using assms(1) by (simp_all add: stamp_def parse_format_rfc3339 last_stamp_def)
  moreover have "0 < int ValidWindow" by (simp add: ValidWindow_def)
  ultimately show ?thesis
    using assms(2-) by (simp add: well_dated_def in_window_def rust_document_def)
qed

lemma pinned_signer:
  assumes "wire_laws L E render" "length seed = 32" "pinned_from_hex E (hexEncode (ed_public L seed)) = Inr pin"
  shows "pin = \<lparr>key_id = sg_key_id (new_signer L seed), pk_key = ed_public L seed\<rparr>"
proof -
  have "length (ed_public L seed) = 32" "sha256 E = go_sha256 L" using assms(1,2) by (auto simp: wire_laws_def)
  then have "decode_hex32 (hexEncode (ed_public L seed)) = Some (ed_public L seed)"
    using decode_hex_hexEncode [of "ed_public L seed"] hexEncode_digits(1) [of "ed_public L seed"]
    by (simp add: decode_hex_def decode_hex32_def)
  then show ?thesis
    using assms(3) \<open>sha256 E = go_sha256 L\<close>
    by (auto simp: pinned_from_hex_def pinned_from_bytes_def result_simps new_signer_def KeyIDFor_def key_id_for_def
        hexEncode_def split: if_splits)
qed

lemma signature_accepted:
  assumes "wire_laws L E render" "length seed = 32" "pinned_from_hex E (hexEncode (ed_public L seed)) = Inr pin"
    and "pin \<in> set pinned" "distinct (map key_id pinned)"
  shows "accepted_keys E pinned (signed_message doc) [Sign L (new_signer L seed) doc] = {key_id pin}"
proof -
  note pin = pinned_signer [OF assms(1-3)]
  have "find (\<lambda>p. key_id p = key_id pin) pinned = Some pin"
    using assms(4,5) by (induction pinned) (auto simp: image_iff)
  then have "signs E pinned (signed_message doc) (Sign L (new_signer L seed) doc) p \<longleftrightarrow> p = pin" for p
    using assms(1,2) by (auto simp: signs_def Sign_def pin wire_laws_def SIGNATURE_LENGTH_def signedMessage_eq new_signer_def)
  then show ?thesis by (simp add: accepted_keys_signs)
qed

definition recorded_from :: "reg_env \<Rightarrow> doc_row list \<Rightarrow> doc_row \<Rightarrow> RegistryState option \<Rightarrow> bool" where
  "recorded_from E docs row previous \<longleftrightarrow> (case previous of None \<Rightarrow> True | Some p \<Rightarrow>
     \<exists>old \<in> set docs. highest_version p = rd_version old \<and> b64_decode E (document_b64 p) = Some (rd_document old)
       \<and> rd_valid_after old \<le> rd_valid_after row)"

lemma stored_document_accepted:
  assumes "wire_laws L E render" "length seed = 32" "pinned_from_hex E (hexEncode (ed_public L seed)) = Inr pin"
    and "pin \<in> set pinned" "distinct (map key_id pinned)"
    and "pub_inv L (new_signer L seed) t" "row \<in> set (registry_documents t)"
    and "int (rd_valid_after row) \<le> now + 60" "now < int (rd_valid_after row) + 21600" "now + 21660 \<le> int last_stamp"
    and "recorded_from E (registry_documents t) row previous"
  shows "\<exists>v rows. verify E (render (registry_json L (rd_document row) [Sign L (new_signer L seed) (rd_document row)]))
        pinned 1 now previous = Inr v \<and> ver_bytes v = rd_document row
      \<and> version (ver_document v) = int (rd_valid_after row) div 3600
      \<and> list_all (\<lambda>r. relay_ok r \<and> rn_status r = ''active'') rows
      \<and> candidates (ver_document v) = Inr (map (\<lambda>r. \<lparr>entry = rust_entry (entry_of L r), cand_ip = rn_ip r\<rparr>) rows)
      \<and> map entry_addr (relays (ver_document v)) = map (\<lambda>r. Inr (sock_new (rn_ip r) (word_of_int (rn_port r)))) rows
      \<and> map static_key (relays (ver_document v)) = map (\<lambda>r. Inr (rn_static_pubkey r)) rows
      \<and> map relay_role (relays (ver_document v)) = map rn_role rows"
proof -
  have row: "published L (new_signer L seed) row" "distinct (map rd_valid_after (registry_documents t))"
    using assms(6,7) by (auto simp: pub_inv_def list_all_iff)
  have dates: "rd_version old = int (rd_valid_after old) div 3600 \<and> rd_valid_after old mod 3600 = 0"
    if "old \<in> set (registry_documents t)" for old
    using assms(6) that by (auto simp: pub_inv_def published_def doc_constraints_def list_all_iff)
  from row(1) obtain rows where rows: "list_all (\<lambda>r. relay_ok r \<and> rn_status r = ''active'') rows"
    "json_marshal L (document_for (rd_valid_after row) (map (entry_of L) rows)) = Some (rd_document row)"
    using rows_of_entries [of _ "\<lambda>r. relay_ok r \<and> rn_status r = ''active''" "entry_of L"] by (auto simp: published_def)
  let ?d = "document_for (rd_valid_after row) (map (entry_of L) rows)"
  let ?v = "\<lparr>ver_document = rust_document ?d, ver_bytes = rd_document row, ver_key_ids = [key_id pin]\<rparr>"
  have window: "rd_valid_after row + ValidWindow \<le> last_stamp" using assms(8,10) by (simp add: ValidWindow_def)
  have hour: "int (rd_valid_after old) = 3600 * rd_version old" if "old \<in> set (registry_documents t)" for old
    using dates [OF that] by (auto simp: zdiv_int [symmetric])
  have "json_document E (rd_document row) = Some (rust_document ?d)"
    using assms(1) window rows by (auto simp: wire_laws_def list_all_iff)
  then have "endorsed E (render (registry_json L (rd_document row) [Sign L (new_signer L seed) (rd_document row)])) pinned 1 ?v"
    using assms(1,2) signature_accepted [OF assms(1-5), of "rd_document row"] by (simp add: endorsed_def wire_laws_def)
  moreover have "well_dated (rust_document ?d) \<and> in_window (rust_document ?d) now"
    by (rule document_dated [OF window hour [OF assms(7)] assms(8)])
      (use assms(9) hour [OF assms(7)] in \<open>simp_all add: document_for_def ValidWindow_def VersionFor_def\<close>)
  moreover have "not_rolled_back E previous ?v"
  proof (cases previous)
    case (Some p)
    then obtain old where old: "old \<in> set (registry_documents t)" "highest_version p = rd_version old"
      "b64_decode E (document_b64 p) = Some (rd_document old)" "rd_valid_after old \<le> rd_valid_after row"
      using assms(11) by (auto simp: recorded_from_def)
    have "old = row" if "rd_valid_after old = rd_valid_after row"
      using that row(2) old(1) assms(7) by (auto simp: distinct_map dest: inj_onD)
    moreover have "rd_version old < rd_version row" if "rd_valid_after old \<noteq> rd_valid_after row"
      using that old(4) hour [OF old(1)] hour [OF assms(7)] by linarith
    ultimately show ?thesis
      using old dates [OF assms(7)] Some
      by (cases "rd_valid_after old = rd_valid_after row")
        (simp_all add: not_rolled_back_def rust_document_def document_for_def VersionFor_def)
  qed (simp add: not_rolled_back_def)
  moreover have "clock_ok now" using assms(8,10) by (simp add: clock_ok_def last_stamp_def)
  ultimately have "verify E (render (registry_json L (rd_document row) [Sign L (new_signer L seed) (rd_document row)]))
      pinned 1 now previous = Inr ?v" by (simp add: verify_Inr)
  moreover have usable: "list_all relay_ok rows" using rows(1) by (simp add: list_all_iff)
  moreover have "candidates (rust_document ?d) = Inr (map (\<lambda>r. \<lparr>entry = rust_entry (entry_of L r), cand_ip = rn_ip r\<rparr>) rows)"
    using entries_usable [OF assms(1) usable] by (simp add: candidates_def rust_document_def document_for_def)
  ultimately show ?thesis
    using rows(1) entry_usable [OF assms(1)]
    by (intro exI [of _ ?v] exI [of _ rows])
      (auto simp: rust_document_def document_for_def VersionFor_def list_all_iff, simp add: rust_entry_def entry_of_def)
qed

section \<open>Property\<close>

text \<open>
  C4: The client accepts what the authority serves. Whatever requests the instances handle, in whatever
  interleaving and with whatever failures, a registry that is answered with 200 is accepted by \<^verbatim>\<open>verify\<close>
  of the Rust crate under the key that \<^verbatim>\<open>registry-keygen\<close> printed for the authority's seed, at every client
  clock from a minute before the document's hour to six hours after it, and with every recorded state
  that comes from a document of this authority for that hour or an earlier one: such a client sees no
  rollback and no equivocation. Every entry of the document then passes the checks of path selection,
  so no entry makes it reject the document, and carries the address, the key and the role of an active
  relay of the authority.
\<close>

theorem published_registry_accepted:
  assumes "wire_laws (sv_lib S) E render" "sigs_law (sv_lib S)" "sv_reg S = new_signer (sv_lib S) seed" "length seed = 32"
    and "pinned_from_hex E (hexEncode (ed_public (sv_lib S) seed)) = Inr pin" "pin \<in> set pinned" "distinct (map key_id pinned)"
    and "pub_inv (sv_lib S) (sv_reg S) s"
    and "foldl (pool_step db_env) (map (routes S) reqs, s) es = (qs, t)"
    and "i < length reqs" "rq_route (reqs ! i) = GetRegistry" "qs ! i = Ret (Some resp)" "status_code resp = 200"
  shows "\<exists>c row. content resp = Some c \<and> row \<in> set (registry_documents t)
    \<and> (\<forall>now previous. int (rd_valid_after row) \<le> now + 60 \<longrightarrow> now < int (rd_valid_after row) + 21600 \<longrightarrow>
        now + 21660 \<le> int last_stamp \<longrightarrow> recorded_from E (registry_documents t) row previous \<longrightarrow>
        (\<exists>v rows. verify E (render c) pinned 1 now previous = Inr v \<and> ver_bytes v = rd_document row
          \<and> version (ver_document v) = int (rd_valid_after row) div 3600
          \<and> list_all (\<lambda>r. relay_ok r \<and> rn_status r = ''active'') rows
          \<and> candidates (ver_document v) = Inr (map (\<lambda>r. \<lparr>entry = rust_entry (entry_of (sv_lib S) r), cand_ip = rn_ip r\<rparr>) rows)
          \<and> map entry_addr (relays (ver_document v)) = map (\<lambda>r. Inr (sock_new (rn_ip r) (word_of_int (rn_port r)))) rows
          \<and> map static_key (relays (ver_document v)) = map (\<lambda>r. Inr (rn_static_pubkey r)) rows
          \<and> map relay_role (relays (ver_document v)) = map rn_role rows))"
proof -
  note run = pool_routes(1) [OF assms(2,8,9)]
  have "registry_answer S (reqs ! i) t (Some resp)" using pool_routes(2) [OF assms(2,8-10,12)] .
  then obtain row where row: "row \<in> set (registry_documents t)"
    "content resp = Some (registry_json (sv_lib S) (rd_document row) [Sign (sv_lib S) (new_signer (sv_lib S) seed) (rd_document row)])"
    using assms(3,11,13) by (auto simp: registry_answer_def)
  then show ?thesis
    using stored_document_accepted [OF assms(1,4-7) run [THEN conjunct1, unfolded assms(3)] row(1)] by blast
qed

text \<open>
  An instance: one active relay, one request, the sample server's libraries and a client whose
  libraries are their inverses.
\<close>

definition sample_client :: reg_env where
  "sample_client = \<lparr>b64_decode = \<lambda>t. Some (as_bytes t), b64_encode = of_bytes,
     json_envelope = \<lambda>b. Some \<lparr>env_document = of_bytes b, signatures = [sample_signature]\<rparr>,
     json_document = \<lambda>b. if b = [7] then Some (rust_document (document_for 1791381600 []))
       else if b = [8] then Some (rust_document (document_for 1791381600 [sample_entry])) else None,
     json_state = \<lambda>_. None, json_of_state = \<lambda>_. None, sha256 = \<lambda>_. replicate 32 0,
     ed_key_ok = \<lambda>_. True, verify_strict = \<lambda>_ _ _. True\<rparr>"

fun sample_render :: "json \<Rightarrow> bytes" where
  "sample_render (JObj ((_, JStr t) # _)) = as_bytes t"
| "sample_render _ = []"

definition sample_active :: authority where
  "sample_active = empty_authority\<lparr>relay_nodes := [sample_node\<lparr>rn_status := ''active'', rn_last_heartbeat := Some 5\<rparr>]\<rparr>"

lemma sample_wire_laws: "wire_laws sample_lib sample_client sample_render"
proof -
  have "parse_ip (host_text sample_lib a) = Some a" if "wf_ip a" "to_canonical a = a" for a
    using parse_ip_text [OF that] by (simp add: sample_lib_def)
  moreover have "json_document sample_client b = Some (rust_document (document_for hour rs))"
    if "json_marshal sample_lib (document_for hour rs) = Some b" for hour rs b
    using that by (auto simp: sample_lib_def sample_client_def split: if_splits)
  moreover have "Sign sample_lib (new_signer sample_lib seed) doc = sample_signature" for seed doc
    by (simp add: Sign_def new_signer_def KeyIDFor_def sample_lib_def sample_signature_def)
  ultimately show ?thesis
    by (simp add: wire_laws_def registry_json_def) (simp add: sample_lib_def sample_client_def)
qed

lemma sample_active_inv: "pub_inv sample_lib sg sample_active"
  by (simp add: pub_inv_def sample_laws relays_ok_def sample_active_def empty_authority_def remembered_def fresh_memory_def
      relay_ok_def relay_constraints_def sample_node_def validRole_def is_str_def of_char_def)

lemma sample_active_run:
  "\<exists>t. foldl (pool_step db_env) (map (routes sample_server) [authority_request GetRegistry 0], sample_active) [Run 0, Run 0, Run 0, Run 0]
     = ([Ret (Some (writeJSON 200 (registry_json sample_lib [8] [sample_signature])))], t)
     \<and> registry_documents t = [sample_row\<lparr>rd_document := [8]\<rparr>]"
proof -
  have "entry_of sample_lib (sample_node\<lparr>rn_status := ''active'', rn_last_heartbeat := Some 5\<rparr>) = sample_entry"
    by (simp add: entry_of_def sample_node_def sample_entry_def hexOf_eq) (simp add: sample_lib_def v4_text_def upt_rec show_nat.simps char_of_def bit_0)
  moreover have "json_marshal sample_lib (document_for 1791381600 [sample_entry]) = Some [8]"
    by (simp add: sample_lib_def document_for_def)
  ultimately show ?thesis
    by (simp add: authority_request_def race_steps sample_active_def empty_authority_def sample_sign rq_now_def
        sample_lib_simps registry_json_def sample_row_def VersionFor_def doc_constraints_def)
qed

theorem published_registry_accepted_witness:
  "\<exists>c t. foldl (pool_step db_env) (map (routes sample_server) [authority_request GetRegistry 0], sample_active) [Run 0, Run 0, Run 0, Run 0]
       = ([Ret (Some (writeJSON 200 c))], t)
    \<and> (\<exists>v cs. verify sample_client (sample_render c) [\<lparr>key_id = hexEncode (replicate 8 0), pk_key = replicate 32 5\<rparr>] 1 1791385000
          (Some \<lparr>highest_version = 497606, document_b64 = of_bytes [8], state_key_ids = [], envelope_b64 = None\<rparr>) = Inr v
        \<and> version (ver_document v) = 497606 \<and> candidates (ver_document v) = Inr cs)"
proof -
  let ?c = "registry_json sample_lib [8] [sample_signature]"
  let ?pin = "\<lparr>key_id = hexEncode (replicate 8 0), pk_key = replicate 32 5\<rparr>"
  let ?p = "\<lparr>highest_version = 497606, document_b64 = of_bytes [8], state_key_ids = [], envelope_b64 = None\<rparr>"
  obtain t where t: "foldl (pool_step db_env) (map (routes sample_server) [authority_request GetRegistry 0], sample_active) [Run 0, Run 0, Run 0, Run 0]
      = ([Ret (Some (writeJSON 200 ?c))], t)" "registry_documents t = [sample_row\<lparr>rd_document := [8]\<rparr>]"
    using sample_active_run by blast
  have "decode_hex32 (hexEncode (replicate 32 5)) = Some (replicate 32 5)"
    using decode_hex_hexEncode [of "replicate 32 5"] hexEncode_digits(1) [of "replicate 32 5"] by (simp add: decode_hex_def decode_hex32_def)
  then have pin: "pinned_from_hex sample_client (hexEncode (ed_public (sv_lib sample_server) (replicate 32 5))) = Inr ?pin"
    by (simp add: pinned_from_hex_def pinned_from_bytes_def sample_lib_simps sample_client_def key_id_for_def hexEncode_def sample_lib_def)
  have "\<exists>c row. content (writeJSON 200 ?c) = Some c \<and> row \<in> set (registry_documents t)
    \<and> (\<forall>now previous. int (rd_valid_after row) \<le> now + 60 \<longrightarrow> now < int (rd_valid_after row) + 21600 \<longrightarrow>
        now + 21660 \<le> int last_stamp \<longrightarrow> recorded_from sample_client (registry_documents t) row previous \<longrightarrow>
        (\<exists>v cs. verify sample_client (sample_render c) [?pin] 1 now previous = Inr v
          \<and> version (ver_document v) = int (rd_valid_after row) div 3600 \<and> candidates (ver_document v) = Inr cs))"
    using published_registry_accepted [of sample_server sample_client sample_render "replicate 32 5" ?pin "[?pin]" sample_active
        "[authority_request GetRegistry 0]" "[Run 0, Run 0, Run 0, Run 0]" _ t 0 "writeJSON 200 ?c", OF _ _ _ _ pin _ _ _ t(1)]
      sample_wire_laws sample_laws(1) sample_active_inv
    by (simp add: sample_lib_simps authority_request_def) (simp add: sample_server_def, blast)
  moreover have "recorded_from sample_client (registry_documents t) (sample_row\<lparr>rd_document := [8]\<rparr>) (Some ?p)"
    using t(2) by (simp add: recorded_from_def sample_client_def sample_row_def)
  ultimately show ?thesis
    using t by (auto simp: last_stamp_def sample_row_def)
qed

end
