(* ===== verification/Token_Service.thy ===== *)
theory Token_Service
  imports Authority_Runs Client_Tokens
begin

text \<open>
  A token from the client's preimage to the guard: \<^verbatim>\<open>issue\<close> of the client against the authority's own
  route, and the guard's \<^verbatim>\<open>verify\<close> on what the client keeps.
\<close>

section \<open>The two sides of the wire\<close>

text \<open>
  The client's POST is a run of the authority's route: the session token is the bearer token, the
  session's cookie comes from the client's cookie store, \<open>enc\<close> is the JSON body of the blinded value
  and \<open>render\<close> the text of a JSON response.
\<close>

definition issue_request :: "request \<Rightarrow> (string \<Rightarrow> bytes) \<Rightarrow> string \<Rightarrow> string \<Rightarrow> string \<Rightarrow> request" where
  "issue_request q enc sid token h = q\<lparr>rq_route := PostIssue,
     rq_http := (rq_http q)\<lparr>Authorization := ''Bearer '' @ token, session_cookie := Some sid, Body := enc h\<rparr>\<rparr>"

definition authority_post :: "server \<Rightarrow> request \<Rightarrow> (string \<Rightarrow> bytes) \<Rightarrow> (json \<Rightarrow> string) \<Rightarrow> string \<Rightarrow> authority \<Rightarrow>
    string \<Rightarrow> string \<Rightarrow> api_reply" where
  "authority_post S q enc render sid s token h =
     (case fst (run_in (routes S (issue_request q enc sid token h)) [] s) of
        None \<Rightarrow> NoConnection
      | Some resp \<Rightarrow> Reply (status_code resp) (map_option render (content resp)))"

text \<open>
  A caller who may have a token: the database answers, the bearer token is valid, the session is live
  and the subscriber's, and the subscriber's newest subscription is active.
\<close>

definition entitled :: "server \<Rightarrow> request \<Rightarrow> string \<Rightarrow> string \<Rightarrow> string \<Rightarrow> authority \<Rightarrow> bool" where
  "entitled S q sid token u s \<longleftrightarrow> stmt_outcome s = StmtDone \<and> u \<noteq> [] \<and> u \<in> su_id ` set (subscribers s)
     \<and> map_option cl_sub (ValidateToken (sv_auth S) (sv_secret S) (rq_now q) token) = Some u
     \<and> (case filter (\<lambda>r. se_id r = sid \<and> se_expires_at r > db_clock s) (sessions s) of [] \<Rightarrow> False | r # _ \<Rightarrow> se_subscriber_id r = u)
     \<and> map sb_status (latest_subscription u s) = [''active'']"

text \<open>What one issued token leaves behind.\<close>

definition charge :: "string \<Rightarrow> string \<Rightarrow> authority \<Rightarrow> authority" where
  "charge uuid u s = s\<lparr>subscriptions := map (\<lambda>r. if sb_subscriber_id r = u then r\<lparr>sb_tokens_issued := sb_tokens_issued r + 1\<rparr> else r)
       (subscriptions s), token_issuance_events := token_issuance_events s @ [\<lparr>ev_id = uuid, ev_subscriber_id = u, ev_issued_at = db_clock s\<rparr>]\<rparr>"

lemma hexEncode_lower: "hexEncode bs = hex_lower bs"
proof -
  have "nibble v = token_nibble v" if "v < 16" for v using that by (auto simp: nibble_def hex_char_def token_nibble_def)
  moreover have "unat b div 16 < 16" for b :: byte using unat_byte_lt [of b] by (simp add: less_mult_imp_div_less)
  ultimately show ?thesis by (simp add: hexEncode_def hex_lower_def hex_byte_def [abs_def])
qed

lemma entitled_run:
  assumes "entitled S q sid token u s" "sv_issue S (enc h) = Some h" "decode_hex h = Some b" "b \<noteq> []"
    and "length b \<le> ModulusSize (sv_blind S)" "blind_sign (sv_blind S) b = Some (Inr x)"
  shows "run_in (routes S (issue_request q enc sid token h)) [] s = (Some (signed_response x), charge (rq_uuid q) u s)"
proof -
  let ?r = "(rq_http q)\<lparr>Authorization := ''Bearer '' @ token, session_cookie := Some sid, Body := enc h\<rparr>"
  have sign: "signable (sv_issue S) (sv_blind S) ?r x" using assms(2-6) by (simp add: signable_def)
  obtain c where c: "ValidateToken (sv_auth S) (sv_secret S) (rq_now q) token = Some c" "cl_sub c = u"
    using assms(1) by (auto simp: entitled_def)
  obtain sess rest where sess: "filter (\<lambda>r. se_id r = sid \<and> db_clock s < se_expires_at r) (sessions s) = sess # rest"
    "se_subscriber_id sess = u"
    using assms(1) by (auto simp: entitled_def split: list.splits)
  obtain sub where sub: "latest_subscription u s = [sub]" "sb_status sub = ''active''"
    using assms(1) by (auto simp: entitled_def)
  have up: "stmt_outcome s = StmtDone" "u \<noteq> []" "u \<in> su_id ` set (subscribers s)" using assms(1) by (simp_all add: entitled_def)
  have "run_in (HandleIssue (sv_issue S) (sv_blind S) (rq_uuid q) u ?r) [] s = (Some (signed_response x), charge (rq_uuid q) u s)"
    unfolding HandleIssue_signable [OF sign up(2)]
    by (simp add: run_in_seq_sql Let_def exec_sql_def up(1) query_row_def sub count_token_def insert_event_def up(3) charge_def)
  then show ?thesis
    using c sess
    by (simp add: routes_def issue_request_def Let_def Authenticate_def bearer_def GetSession_def rq_now_def run_in_seq_sql
        exec_sql_def up(1) query_row_def)
qed


section \<open>The chain\<close>

definition public_key :: "BlindSigner \<Rightarrow> RsaPublicKey" where
  "public_key sg = \<lparr>rsa_n = priv_n (bs_key sg), rsa_e = priv_e (bs_key sg)\<rparr>"

lemma to_bytes_be_fits:
  assumes "big_laws B" "0 < x" "x < priv_n (bs_key sg)"
  shows "to_bytes_be B x \<noteq> [] \<and> length (to_bytes_be B x) \<le> ModulusSize sg"
proof -
  have laws: "be_value (to_bytes_be B x) = x" "8 * length (to_bytes_be B x) < big_bits B x + 8"
    using assms(1,2) by (auto simp: big_laws_def)
  have "x < 2 ^ nat_bits (priv_n (bs_key sg))" using assms(3) nat_bits_upper by (rule less_trans)
  then have "big_bits B x \<le> nat_bits (priv_n (bs_key sg))" using assms(1) by (simp add: big_laws_def)
  then have "length (to_bytes_be B x) \<le> ModulusSize sg" using laws(2) unfolding ModulusSize_def by linarith
  then show ?thesis using laws(1) assms(2) by auto
qed

lemma entitled_post:
  assumes "entitled S q sid token u s" "\<And>h. sv_issue S (enc h) = Some h" "big_laws B" "0 < x" "x < priv_n (bs_key (sv_blind S))"
  obtains sg where "be_value sg = x ^ priv_d (bs_key (sv_blind S)) mod priv_n (bs_key (sv_blind S))"
    "run_in (routes S (issue_request q enc sid token (hex_lower (to_bytes_be B x)))) [] s = (Some (signed_response sg), charge (rq_uuid q) u s)"
proof -
  let ?b = "to_bytes_be B x"
  have val: "be_value ?b = x" using assms(3) by (simp add: big_laws_def)
  then obtain sg where sg: "blind_sign (sv_blind S) ?b = Some (Inr sg)" using blind_sign_Inr assms(4,5) by metis
  have "decode_hex (hex_lower ?b) = Some ?b" by (simp flip: hexEncode_lower)
  then show thesis
    using that [of sg] blind_sign_value [OF sg] val sg to_bytes_be_fits [OF assms(3-5)] entitled_run [where enc = enc, OF assms(1,2)] by simp
qed

text \<open>
  C5: A subscriber gets a token and a guard takes it. For a caller whom the authority knows, with a live
  session and an active subscription, and a digest that is not 0, the client's \<^verbatim>\<open>issue\<close> run against the
  authority's own route returns a token as soon as one draw can blind. The authority's state then has
  one more event and one more token counted for that subscriber, and nothing else. The token has the
  length of the modulus, and every guard with the authority's public key accepts it unless its
  replay window already has it.
\<close>

theorem token_from_subscriber_to_guard:
  assumes "big_laws B" "big_laws R" "rsa_pair (public_key (sv_blind S)) (priv_d (bs_key (sv_blind S)))"
    and "2 ^ 256 \<le> priv_n (bs_key (sv_blind S))" "length (sha m_raw) = 32" "be_value (sha m_raw) \<noteq> 0"
    and "joins ''/api/v1/tokens/issue''" "\<And>h. sv_issue S (enc h) = Some h"
    and "\<And>x. json_signed (render (JObj [(''signed'', JStr (hexEncode x))])) = Some (hexEncode x)"
    and "entitled S q sid (jwt session) u s" "blind B sha (public_key (sv_blind S)) m_raw draws = Some req"
  shows "snd (run_in (routes S (issue_request q enc sid (jwt session) (hex_lower (to_bytes_be B (blinded req))))) [] s) = charge (rq_uuid q) u s
    \<and> (\<exists>wire. issue B sha joins json_signed (authority_post S q enc render sid s) session (public_key (sv_blind S)) m_raw draws
          = Some (Inr (m_raw, wire))
        \<and> length wire = ModulusSize (sv_blind S)
        \<and> (\<forall>now w. fresh_token sha now wire w \<longrightarrow> fst (token_verify R sha now m_raw wire (public_key (sv_blind S)) w) = Inr ()))"
proof -
  let ?pk = "public_key (sv_blind S)" and ?d = "priv_d (bs_key (sv_blind S))"
  have n: "rsa_n ?pk = priv_n (bs_key (sv_blind S))" by (simp add: public_key_def)
  have "be_value (sha m_raw) < 256 ^ 32" using be_value_lt [of "sha m_raw"] assms(5) by simp
  also have "(256 :: nat) ^ 32 = 2 ^ 256" by simp
  finally have "be_value (sha m_raw) < rsa_n ?pk" using assms(4) n by linarith
  then have digest: "be_value (sha m_raw) mod rsa_n ?pk \<noteq> 0" using assms(6) by simp
  note post = entitled_post [where enc = enc and B = B, OF assms(10,8,1), unfolded n [symmetric]]
  have answer: "\<exists>body sg. authority_post S q enc render sid s (jwt session) (hex_lower (to_bytes_be B x)) = Reply 200 (Some body)
      \<and> json_signed body = Some (hex_lower sg) \<and> be_value sg = x ^ ?d mod rsa_n ?pk" if "0 < x" "x < rsa_n ?pk" for x
    using that
    by (rule post) (use assms(9) in \<open>auto simp: authority_post_def signed_response_def simp flip: hexEncode_lower\<close>)
  obtain wire where wire: "issue B sha joins json_signed (authority_post S q enc render sid s) session ?pk m_raw draws = Some (Inr (m_raw, wire))"
    using honest_issue [where joins = joins and post = "authority_post S q enc render sid s" and session = session
        and json_signed = json_signed, OF assms(1,3,7,11) digest answer] by blast
  have "1 < rsa_n ?pk" "blind_loop B ?pk (be_value (sha m_raw) mod rsa_n ?pk) draws = Some req"
    using assms(1,3,11) by (simp_all add: rsa_pair_def blind_def big_laws_def)
  then have "0 < blinded req" "blinded req < rsa_n ?pk"
    using blinded_value [OF assms(1)] digest by (metis mod_mod_trivial)+
  then have "snd (run_in (routes S (issue_request q enc sid (jwt session) (hex_lower (to_bytes_be B (blinded req))))) [] s) = charge (rq_uuid q) u s"
    by (rule post) simp
  moreover have accepted: "length wire = div_ceil (big_bits R (rsa_n ?pk)) 8
      \<and> fst (token_verify R sha now m_raw wire ?pk w) = Inr ()" if "fresh_token sha now wire w" for now w
    using kept_token_accepted [OF assms(1,2) _ assms(5) wire that] assms(4) n by simp
  moreover have "length wire = ModulusSize (sv_blind S)"
    using accepted [of 0 "window_new 60"] big_bits_unique [OF assms(2) big_model_laws]
    by (simp add: fresh_token_def window_new_def div_ceil_def ModulusSize_def n big_model_def)
  ultimately show ?thesis using wire by blast
qed
text \<open>An instance: the sample server, a subscriber with a live session, and JSON that is the text itself.\<close>

definition sample_subscribed :: authority where
  "sample_subscribed = empty_authority\<lparr>
     subscribers := [\<lparr>su_id = ''u'', su_email = ''m'', su_password = [], su_role = ''operator'', su_created_at = 0\<rparr>],
     sessions := [\<lparr>se_id = ''c'', se_subscriber_id = ''u'', se_expires_at = 9\<rparr>],
     subscriptions := [\<lparr>sb_subscriber_id = ''u'', sb_tier = ''free'', sb_status = ''active'', sb_tokens_issued = 3, sb_created_at = 1,
       sb_bandwidth_used = 0, sb_period_start = 1, sb_period_end = 9\<rparr>]\<rparr>"

definition text_server :: server where
  "text_server = sample_server\<lparr>sv_issue := \<lambda>b. Some (of_bytes b)\<rparr>"

fun text_render :: "json \<Rightarrow> string" where
  "text_render (JObj ((_, JStr t) # _)) = t"
| "text_render _ = []"

lemma sample_entitled: "entitled text_server (authority_request PostIssue 0) ''c'' ''s.u'' ''u'' sample_subscribed"
  by (simp add: entitled_def sample_subscribed_def empty_authority_def text_server_def sample_server_def sample_auth_def
      ValidateToken_def authority_request_def rq_now_def latest_subscription_def)

theorem token_from_subscriber_to_guard_witness:
  "\<exists>wire. issue sample_big sample_sha (\<lambda>_. True) Some
      (authority_post text_server (authority_request PostIssue 0) as_bytes text_render ''c'' sample_subscribed)
      \<lparr>jwt = ''s.u''\<rparr> sample_key [7] [0, 2 ^ 255 + 1] = Some (Inr ([7], wire))
    \<and> fst (token_verify big_model sample_sha 9 [7] wire sample_key (window_new 60)) = Inr ()"
proof -
  have key: "public_key (sv_blind text_server) = sample_key" "priv_d (bs_key (sv_blind text_server)) = 1"
    by (simp_all add: public_key_def text_server_def sample_server_def authority_blind_def sample_key_def)
  then have n: "2 ^ 256 \<le> priv_n (bs_key (sv_blind text_server))" by (simp add: text_server_def sample_server_def authority_blind_def)
  obtain req where req: "blind sample_big sample_sha sample_key [7] [0, 2 ^ 255 + 1] = Some req"
    by (simp add: blind_def blind_with_def sample_big_def sample_key_def)
  have laws: "sv_issue text_server (as_bytes h) = Some h" "length (sample_sha [7]) = 32" "be_value (sample_sha [7]) \<noteq> 0" for h
    by (simp_all add: text_server_def sample_digest) (simp add: sample_sha_def)
  have fresh: "fresh_token sample_sha 9 wire (window_new 60)" for wire by (simp add: fresh_token_def window_new_def)
  show ?thesis
    using token_from_subscriber_to_guard [where enc = as_bytes and render = text_render and json_signed = Some and joins = "\<lambda>_. True"
        and S = text_server and q = "authority_request PostIssue 0" and sid = "''c''" and session = "\<lparr>jwt = ''s.u''\<rparr>" and u = "''u''"
        and s = sample_subscribed, OF sample_big_laws big_model_laws _ n laws(2,3) _ laws(1) _ _ req [folded key(1)]]
      sample_rsa_pair sample_entitled fresh
    unfolding key by auto
qed


section \<open>From registration to the route\<close>

lemma latest_of_one: "filter (\<lambda>r. sb_subscriber_id r = u) (subscriptions s) = [row] \<Longrightarrow> latest_subscription u s = [row]"
  by (simp add: latest_subscription_def)

definition unknown_subscriber :: "string \<Rightarrow> string \<Rightarrow> authority \<Rightarrow> bool" where
  "unknown_subscriber u email s \<longleftrightarrow> u \<notin> su_id ` set (subscribers s) \<and> email \<notin> su_email ` set (subscribers s)
     \<and> u \<notin> sb_subscriber_id ` set (subscriptions s)"

definition registered :: "subscriber_row \<Rightarrow> string \<Rightarrow> authority \<Rightarrow> authority" where
  "registered u status s = s\<lparr>subscribers := subscribers s @ [u], subscriptions := subscriptions s @ [\<lparr>sb_subscriber_id = su_id u,
     sb_tier = ''free'', sb_status = status, sb_tokens_issued = 0, sb_created_at = db_clock s, sb_bandwidth_used = 0,
     sb_period_start = db_clock s, sb_period_end = db_clock s + db_secs (30 * 86400)\<rparr>]\<rparr>"

lemma run_Register:
  assumes "stmt_outcome s = StmtDone" "unknown_subscriber u email s" "json_credentials A (Body r) = Some (email, pw)"
    "mail_ok A email" "16 \<le> length pw" "HashPassword A (Some salt) pw = Some hash"
  shows "run_in (Register A (Some salt) u r) [] s = (writeJSON 201 (JObj [(''id'', JStr u)]),
    registered \<lparr>su_id = u, su_email = email, su_password = hash, su_role = ''operator'', su_created_at = db_clock s\<rparr> ''pending_review'' s)"
  using assms by (simp add: Register_def run_in_seq_sql Let_def exec_sql_def insert_subscriber_def unknown_subscriber_def registered_def)

lemma run_Approve:
  assumes "stmt_outcome s = StmtDone" "unknown_subscriber (su_id u) email s" "su_id u \<noteq> []" "is_uuid (su_id u)"
  shows "run_in (HandleApproveSubscriber is_uuid (su_id u)) [] (registered u ''pending_review'' s) =
    (writeJSON 200 (JObj [(''id'', JStr (su_id u)), (''status'', JStr ''active'')]), registered u ''active'' s)"
proof -
  have none: "filter (\<lambda>r. sb_subscriber_id r = su_id u) (subscriptions s) = []"
    "map (\<lambda>r. if sb_subscriber_id r = su_id u \<and> P r then f r else r) (subscriptions s) = subscriptions s" for P f
    using assms(2) by (auto simp: unknown_subscriber_def filter_empty_conv image_iff intro!: map_idI)
  show ?thesis
    using assms by (simp add: HandleApproveSubscriber_def run_in_seq_sql Let_def exec_sql_def registered_def none del: set_filter)
qed

lemma run_in_seq_locked:
  "run_in (seq (locked i f) k) [] s = (case f (memories s i) of (a, m) \<Rightarrow> run_in (k a) [] (s\<lparr>memories := (memories s)(i := m)\<rparr>))"
  by (simp add: locked_def atomically_def split_beta)

definition within_limit :: "nat \<Rightarrow> nat \<Rightarrow> string \<Rightarrow> authority \<Rightarrow> bool" where
  "within_limit i ns ip s \<longleftrightarrow> length (filter (\<lambda>t. ns < t + rl_window) (attempts (memories s i) ip)) < rl_limit"

lemma run_Login:
  assumes "stmt_outcome s = StmtDone" "within_limit i ns (peerIP r) s" "json_credentials A (Body r) = Some (email, pw)"
    and "filter (\<lambda>u. su_email u = email) (subscribers s) = [u]" "VerifyPassword A pw (su_password u)" "sid \<notin> se_id ` set (sessions s)"
    and "\<And>c. jwt_sign A secret c \<noteq> None"
  shows "\<exists>tok tier M. GenerateToken A secret (ns2 div 1000000000) (su_id u) (su_role u) tier = Some tok
    \<and> run_in (Login A secret i ns ns2 sid r) [] s =
       ((writeJSON 200 (JObj [(''token'', JStr tok)]))\<lparr>set_cookies := [(''session_id'', sid), (''jwt'', tok)]\<rparr>,
        s\<lparr>memories := M, sessions := sessions s @ [\<lparr>se_id = sid, se_subscriber_id = su_id u, se_expires_at = db_clock s + db_secs (8 * 3600)\<rparr>]\<rparr>)"
proof -
  have "u \<in> set (filter (\<lambda>u. su_email u = email) (subscribers s))" using assms(4) by simp
  then have u: "su_id u \<in> su_id ` set (subscribers s)" by simp
  let ?sub = "fst (query_row (latest_subscription (su_id u)) s)"
  define tier where "tier = (case ?sub of Inl _ \<Rightarrow> ''free'' | Inr b \<Rightarrow> sb_tier b)"
  obtain tok where tok: "GenerateToken A secret (ns2 div 1000000000) (su_id u) (su_role u) tier = Some tok"
    using assms(7) by (auto simp: GenerateToken_def)
  let ?M = "(memories s)(i := (memories s i)\<lparr>attempts := (attempts (memories s i))(peerIP r :=
    filter (\<lambda>t. ns < t + rl_window) (attempts (memories s i) (peerIP r)))\<rparr>)"
  have latest: "latest_subscription v (s\<lparr>memories := M\<rparr>) = latest_subscription v s" for v M by (simp add: latest_subscription_def)
  show ?thesis
    using assms tok u
    by (intro exI [of "\<lambda>tok. \<exists>tier M. _ tok tier M" tok] exI [of "\<lambda>tier. \<exists>M. _ tier M" tier] exI [of _ ?M])
      (simp add: Login_def Let_def rl_check_def run_in_seq_locked within_limit_def run_in_seq_sql exec_sql_def query_row_def
        CreateSession_def latest tier_def)
qed

lemma login_refused:
  assumes "filter (\<lambda>u. su_email u = email) (subscribers s) = [u]" "json_credentials A (Body r) = Some (email, pw)"
    and "\<not> VerifyPassword A pw (su_password u)"
  shows "sessions (snd (run_in (Login A secret i ns ns2 sid r) [] s)) = sessions s \<and>
    status_code (fst (run_in (Login A secret i ns ns2 sid r) [] s)) \<in> {401, 429}"
  using assms
  by (auto simp: Login_def Let_def rl_check_def rl_record_def run_in_seq_locked run_in_seq_sql exec_sql_def query_row_def
      split: stmt_outcome.split)


text \<open>An instance: the sample server with tokens that spell out their claims.\<close>

definition plain_jwt :: "Claims \<Rightarrow> string" where
  "plain_jwt c = hexEncode (as_bytes (cl_sub c)) @ ''.'' @ hexEncode (as_bytes (cl_role c)) @ ''.'' @ hexEncode (as_bytes (cl_tier c))
     @ ''.'' @ (case cl_exp c of None \<Rightarrow> [] | Some e \<Rightarrow> show_nat e)"

definition read_plain_jwt :: "string \<Rightarrow> Claims option" where
  "read_plain_jwt t = (case split_at (\<lambda>c. c = CHR ''.'') t of
     [a, b, c, d] \<Rightarrow>
       (case (decode_hex a, decode_hex b, decode_hex c) of
          (Some a, Some b, Some c) \<Rightarrow> Some \<lparr>cl_sub = of_bytes a, cl_role = of_bytes b, cl_tier = of_bytes c, cl_exp = parse_nat d\<rparr>
        | _ \<Rightarrow> None)
   | _ \<Rightarrow> None)"

lemma read_plain_jwt: "read_plain_jwt (plain_jwt c) = Some c"
proof -
  have hex: "list_all (\<lambda>c. c \<noteq> CHR ''.'') (hexEncode b)" for b
    using hexEncode_digits(2) [of b] by (auto simp: list_all_iff as_bytes_def hex_digit_def of_char_def)
  have dec: "list_all (\<lambda>c. c \<noteq> CHR ''.'') (show_nat n)" for n
    using show_nat_dec [of n] by (auto simp: list_all_iff dec_digit_def of_char_def)
  have "split_at (\<lambda>c. c = CHR ''.'') (plain_jwt c) = [hexEncode (as_bytes (cl_sub c)), hexEncode (as_bytes (cl_role c)),
      hexEncode (as_bytes (cl_tier c)), case cl_exp c of None \<Rightarrow> [] | Some e \<Rightarrow> show_nat e]"
    using hex dec by (simp add: plain_jwt_def split_at_append split_at_none split: option.split)
  then show ?thesis by (cases c) (simp add: read_plain_jwt_def parse_nat_def parse_digits_show_nat split: option.split)
qed

definition plain_server :: server where
  "plain_server = sample_server\<lparr>sv_auth := sample_auth\<lparr>jwt_sign := \<lambda>_ c. Some (plain_jwt c),
     jwt_decode := \<lambda>_ t. map_option (Pair ''HS256'') (read_plain_jwt t),
     json_credentials := \<lambda>_. Some (''mail'', ''a long password.'')\<rparr>\<rparr>"

lemma plain_laws: "auth_laws (sv_auth plain_server)"
proof -
  have "CHR ''$'' \<notin> set (hexEncode b)" for b
    using hexEncode_digits(2) [of b] by (auto simp: list_all_iff as_bytes_def hex_digit_def of_char_def)
  then show ?thesis by (auto simp: auth_laws_def plain_server_def sample_auth_def read_plain_jwt)
qed

end
