(* ===== verification/Spec2Isabelle.thy ===== *)
theory Spec2Isabelle
  imports Prelude Cells Noise Layers Frames Reg_Cache Client_Tokens Tunnel Relay_Boot Relay_Http Socks_Daemon
    Registry_Service Token_Service
begin

text \<open>
  QuietHop: a three-hop anonymity network, as a model of its Rust programs and its Go
  authority, and the theorems about them.

  \<^bold>\<open>The program.\<close> A client holds a registry of relays that the authority signs. It picks a path of
  guard, middle and exit, buys one blind-signed token, and dials the guard over TLS. It sends the
  token, runs one Noise handshake with each hop (the later two through EXTEND cells), names the
  destination in a CONNECT cell and then carries bytes in fixed-length DATA cells, one layer of
  encryption per hop. Each relay checks who may open a circuit with it (the guard by token, the
  others by the peer's address in the registry), removes or adds its own layer and passes the frame
  on. The exit dials the destination through a SOCKS5 proxy. Both programs keep their copy of the
  registry in a cache that refuses rollback across restarts. The authority is a Go service over a
  database, in one or more instances. It provisions relays and takes their heartbeats, publishes one
  signed document of the active relays per hour, keeps subscribers and their sessions, and signs
  blinded tokens for those whose subscription was approved.

  \<^bold>\<open>Theories and the code they model\<close> (paths under \<^verbatim>\<open>src/\<close>).

  \<^item> \<^verbatim>\<open>Prelude\<close>: bytes and words, Rust's \<^verbatim>\<open>Result\<close> as a sum with \<^verbatim>\<open>?\<close> as \<^verbatim>\<open>and_then\<close>, slices, association
    lists, the collections of simplification rules, and the locale of event systems (a state, a step
    per event, an invariant and an order that steps only climb).
  \<^item> \<^verbatim>\<open>Cells\<close>: \<^verbatim>\<open>quiethop-crypto/src/wire.rs\<close>, \<^verbatim>\<open>cell.rs\<close>; cells and the EXTEND and CONNECT payloads, both
    directions, every error.
  \<^item> \<^verbatim>\<open>Noise\<close>: \<^verbatim>\<open>noise.rs\<close>; the initiator, the responder and the transport over the \<^verbatim>\<open>snow\<close> crate.
  \<^item> \<^verbatim>\<open>Layers\<close>, \<^verbatim>\<open>Frames\<close>: \<^verbatim>\<open>layer.rs\<close>; the onion layers, and the frame accumulator and cancel-safe reader.
  \<^item> \<^verbatim>\<open>Calendar\<close>, \<^verbatim>\<open>Registry\<close>: \<^verbatim>\<open>registry.rs\<close>; timestamps, pinned keys, envelope verification and the checks
    on the document.
  \<^item> \<^verbatim>\<open>Reg_State\<close>, \<^verbatim>\<open>Reg_Cache\<close>: \<^verbatim>\<open>state.rs\<close>, \<^verbatim>\<open>registry_cache.rs\<close>; the state file with a fault at every step,
    and the fetch, cache and refresh policy.
  \<^item> \<^verbatim>\<open>Net_Addr\<close>, \<^verbatim>\<open>Rust_Text\<close>: the parsers and printers of \<^verbatim>\<open>core::net\<close> and the operations of \<^verbatim>\<open>str\<close> that the
    programs call.
  \<^item> \<^verbatim>\<open>Path_Select\<close>: \<^verbatim>\<open>client/src/error.rs\<close>, \<^verbatim>\<open>path.rs\<close>; candidates, rules, and the uniform draw.
  \<^item> \<^verbatim>\<open>Big_Ints\<close>, \<^verbatim>\<open>Token\<close>, \<^verbatim>\<open>Client_Tokens\<close>: the big integers of the two crates, \<^verbatim>\<open>relay/src/token.rs\<close>, and
    \<^verbatim>\<open>client/src/auth.rs\<close>, \<^verbatim>\<open>blind.rs\<close>, \<^verbatim>\<open>tokens.rs\<close>.
  \<^item> \<^verbatim>\<open>Effects\<close>: reads, writes and flushes of a connection handler, as a procedure over an I/O state with
    a trace.
  \<^item> \<^verbatim>\<open>Dialer\<close>, \<^verbatim>\<open>Client_Sdk\<close>: \<^verbatim>\<open>client/src/dial.rs\<close>, \<^verbatim>\<open>tls.rs\<close>, \<^verbatim>\<open>lib.rs\<close>.
  \<^item> \<^verbatim>\<open>Socks_Daemon\<close>: \<^verbatim>\<open>quiethop-client/src/socks5.rs\<close>, \<^verbatim>\<open>main.rs\<close>.
  \<^item> \<^verbatim>\<open>Relay_Config\<close>, \<^verbatim>\<open>Relay_Keys\<close>: \<^verbatim>\<open>relay/src/config.rs\<close>; \<^verbatim>\<open>static_key.rs\<close>, \<^verbatim>\<open>authority.rs\<close>, \<^verbatim>\<open>heartbeat.rs\<close>.
  \<^item> \<^verbatim>\<open>Relay_Parts\<close>: \<^verbatim>\<open>relay/src/circuit.rs\<close>, \<^verbatim>\<open>registry.rs\<close>, \<^verbatim>\<open>exit.rs\<close>, and the TLS dial of \<^verbatim>\<open>tls.rs\<close>.
  \<^item> \<^verbatim>\<open>Relay_Loop\<close>, \<^verbatim>\<open>Relay_Conn\<close>, \<^verbatim>\<open>Relay_Boot\<close>: \<^verbatim>\<open>relay/src/main.rs\<close>; the cell loop and its cell handlers,
    the way from an accepted stream to a circuit, and startup, key generation and registry refresh.
  \<^item> \<^verbatim>\<open>Relay_Http\<close>: \<^verbatim>\<open>relay/src/port80.rs\<close>, \<^verbatim>\<open>metrics.rs\<close>.
  \<^item> \<^verbatim>\<open>Go_Text\<close>: the parts of Go's standard library that the authority calls: RFC 3339 times, \<^verbatim>\<open>net/netip\<close> addresses
    and \<^verbatim>\<open>SplitHostPort\<close>, with the lemmas that the Rust parsers read what they print.
  \<^item> \<^verbatim>\<open>Authority_Db\<close>: handlers as programs whose steps are single statements or critical sections, their
    interleavings, the tables, HTTP requests and responses.
  \<^item> \<^verbatim>\<open>Relay_Admin\<close>: \<^verbatim>\<open>authority/internal/relay/relay.go\<close>, \<^verbatim>\<open>handlers/relay.go\<close>; provisioning, heartbeats and the sweep.
  \<^item> \<^verbatim>\<open>Reg_Publish\<close>: \<^verbatim>\<open>authority/internal/registry\<close>, \<^verbatim>\<open>handlers/registry.go\<close>; the signing key, the document of an hour,
    the publisher, and the invariant of what is stored and remembered.
  \<^item> \<^verbatim>\<open>Accounts\<close>: \<^verbatim>\<open>authority/internal/auth\<close>, \<^verbatim>\<open>handlers/auth.go\<close>, \<^verbatim>\<open>middleware.go\<close>, the approval of \<^verbatim>\<open>admin.go\<close>.
  \<^item> \<^verbatim>\<open>Blind_Signer\<close>: \<^verbatim>\<open>authority/internal/blind/blind.go\<close>, \<^verbatim>\<open>handlers/tokens.go\<close>.
  \<^item> \<^verbatim>\<open>Views\<close>: \<^verbatim>\<open>handlers/account.go\<close>, \<^verbatim>\<open>health.go\<close> and the lists of \<^verbatim>\<open>admin.go\<close>, \<^verbatim>\<open>tokens.go\<close> and \<^verbatim>\<open>relay.go\<close>.
  \<^item> \<^verbatim>\<open>Authority\<close>, \<^verbatim>\<open>Authority_Runs\<close>: \<^verbatim>\<open>authority/internal/config/config.go\<close>, \<^verbatim>\<open>cmd/authority/main.go\<close>; configuration,
    startup, routes, and what holds over all runs, with a concrete server as instance.
  \<^item> \<^verbatim>\<open>Registry_Service\<close>, \<^verbatim>\<open>Token_Service\<close>: the authority's registry against the Rust verifier and path selection;
    the client's login and issuance against the authority's routes and the guard.
  \<^item> \<^verbatim>\<open>Tunnel\<close> and this theory: the client task and the three relay loops composed through what each
    writes for the next; the properties that span the programs.

  \<^bold>\<open>How the code is represented.\<close> A struct is a record and an enum a datatype with the source's names;
  a \<^verbatim>\<open>Result\<close> is a sum whose left side is the error; \<^verbatim>\<open>u8\<close> and \<^verbatim>\<open>u16\<close> are words, \<^verbatim>\<open>i64\<close> is an integer with its
  range written out where it is parsed, and a \<^verbatim>\<open>String\<close> is a string with one character per byte. An
  asynchronous handler is a procedure of \<^verbatim>\<open>Effects\<close>. A loop over a \<^verbatim>\<open>select!\<close> is a step function folded over
  the list of arrivals it is given, so the theorems hold for every interleaving of arrivals. A long
  running component (the cache, the relay's registry) is a fold over a list of events: a refresh
  under any clock and response, a fault, a restart. A handler of the authority is a program of single
  steps (\<open>prog\<close>): each SQL statement and each section under a mutex is one step on the shared state. A run
  is any schedule of the steps of any number of requests, mixed with environment events: a statement
  that fails, a reply that is lost after the statement took effect, time that passes, an instance that
  restarts with an empty memory. \<open>ensures\<close> states what a program guarantees while others take steps. The
  database's clock counts microseconds and the clock of the rate limiter nanoseconds.

  \<^bold>\<open>What is outside the sources\<close> is a parameter: the \<^verbatim>\<open>snow\<close> sessions (with the laws \<^verbatim>\<open>transport_laws\<close>,
  \<^verbatim>\<open>handshake_laws\<close>, \<^verbatim>\<open>keygen_laws\<close>), SHA-256, Ed25519, base64 and JSON (\<^verbatim>\<open>reg_env\<close>), the big-integer crates
  (\<^verbatim>\<open>big_ops\<close>), sockets, TLS and the SOCKS5 crate (\<^verbatim>\<open>net_env\<close>, \<^verbatim>\<open>client_net\<close>), the authority's HTTP answers
  (\<^verbatim>\<open>authority_api\<close>), files, clock and process environment (\<^verbatim>\<open>boot_env\<close>, \<^verbatim>\<open>session_env\<close>, \<^verbatim>\<open>daemon_env\<close>). A
  property that relies on documented behaviour of one of these has it as a named hypothesis, and its
  witness gives a concrete function for which the hypothesis holds.

  On the authority's side the parameters are \<^verbatim>\<open>registry_lib\<close> (Ed25519, SHA-256, base64, JSON and the database's
  text of an address), \<^verbatim>\<open>auth_lib\<close> (Argon2, JWT, the mail parser), \<^verbatim>\<open>pem_lib\<close> and the JSON decoders; the laws are
  \<^verbatim>\<open>sigs_law\<close>, \<^verbatim>\<open>auth_laws\<close> and, between the two sides of the wire, \<^verbatim>\<open>wire_laws\<close>.

  \<^bold>\<open>What the theorems show.\<close>

  \<^item> End to end: with relays that hold the keys of the route, \<^verbatim>\<open>dial\<close> leaves a circuit at rest, and in a
    circuit at rest the user's bytes reach the destination, and the destination's the user, unchanged
    and in order.
  \<^item> Across the wire: whatever the authority's instances do, a registry they serve is accepted by the
    Rust verifier for its whole window, without rollback or equivocation, and every entry passes path
    selection; a subscriber with an approved subscription gets a token from the authority's route, and
    every guard takes it.
  \<^item> Authority: one document per hour over every interleaving, fault and restart, served only when stored;
    issuance for active subscriptions only, which leaves nothing of the blinded value behind; admission
    by registration, approval and login and by nothing less; heartbeats mark exactly the relay they
    authenticate. As lemmas: a key file that was generated loads as the key that was printed, production
    never invents an RSA key, the views of a subscriber depend on no other subscriber's rows.
  \<^item> Registry: what \<^verbatim>\<open>verify\<close> accepts and that nothing is parsed before the signatures are counted; no
    rollback over any run; \<^verbatim>\<open>usable\<close> fails closed; the state file is replaced atomically; the relay serves
    nothing before it holds an endorsed document.
  \<^item> Access: a guard serves token holders only, the other roles registered peers only; onward links
    go to registered relays only, and the exit dials allowed ports only; tokens are accepted exactly
    once; a token the client obtains is one the guard accepts; blinding hides the message perfectly.
  \<^item> Paths: every selected path obeys the rules and the draw is uniform over the valid triples.
  \<^item> Codecs and parsers: cells, key files, timestamps and addresses, with the round trips and the exact
    set of accepted inputs; framing is independent of chunking and of cancelled reads.
  \<^item> Behaviour that differs from the comments beside the code: malformed \<^verbatim>\<open>fresh_until\<close>, versions below
    one, signed timestamp fields, poisoned locks, half-closed destinations, the redirect target; at the
    authority the two statements of a registration and the comparison with forbidden secrets.

  \<^bold>\<open>Bounds and fuel.\<close> No definition takes fuel: loops recurse over the list of arrivals or over the
  data. A pair of linked transports carries how many more messages it can pass each way; a completed
  handshake gives \<open>2 ^ 63\<close> of them (\<^verbatim>\<open>snow\<close> counts nonces in 64 bits), \<^verbatim>\<open>dial\<close> leaves at least \<open>2 ^ 62\<close>, and the
  end-to-end theorems ask for as many as the run has frames. Clocks are below \<open>2 ^ 62\<close> seconds in magnitude
  (\<^verbatim>\<open>clock_ok\<close>), so that the clock skew is added without wrap-around. A document's times are before the year
  10000 (\<^verbatim>\<open>last_stamp\<close>), the last one that a time stamp of four digits can name.

  \<^bold>\<open>Not modelled.\<close> Logging and metric registration; the accept loops and the 30 second timers, which
  only spawn the modelled handlers; the shutdown on Ctrl-C; \<^verbatim>\<open>acme_setup\<close>, which assembles the
  \<^verbatim>\<open>rustls_acme\<close> library; the poll methods of \<^verbatim>\<open>CircuitStream\<close> and the SOCKS5 copy loops, which forward to
  tokio; zeroing of key buffers, which has no observable result; \<^verbatim>\<open>Display\<close> texts. At the authority: the HTTP
  listener, the tickers of the two background tasks, request ids and log lines, the connection pool and
  the runner of the migrations, whose success is an argument of the startup, and the dummy password
  check that only equalises timing. The dashboard, the
  developer scripts and the test programs are not part of the network.
\<close>

section \<open>The circuit as a byte pipe\<close>

text \<open>
  C1: Bytes that the user writes reach the destination unchanged and in order. In a circuit at
  rest, one read of the client's task is cut into cells and sealed three times; the guard and the
  middle each strip one layer and pass on what they cannot read; and the exit writes to the
  destination exactly the pieces of what the user wrote, whose concatenation is the user's bytes.
  No relay stops, and no write depends on anything but the frames.
\<close>

theorem user_bytes_reach_destination:
  assumes "transport_laws S link" "idle_circuit link (length (chunks CELL_PAYLOAD_LEN bs)) j c G M X"
    and "ct_user c = [Chunk bs]" "bs \<noteq> []" "length bs \<le> USER_READ_BUF"
  shows "\<exists>c' ws vs us. circuit_task S [UserTurn] c (quiet []) = (Some c', quiet (map ToGuard ws))
    \<and> run_loop S ctxg Guard (feed FromPeer Wg ws) G (quiet []) = (None, quiet (map ToNext vs))
    \<and> run_loop S ctxm Middle (feed FromPeer Wm vs) M (quiet []) = (None, quiet (map ToNext us))
    \<and> run_loop S ctxx Exit (feed FromPeer Wx us) X (quiet []) = (None, quiet (map ToDest (chunks CELL_PAYLOAD_LEN bs)))
    \<and> concat (chunks CELL_PAYLOAD_LEN bs) = bs"
proof -
  let ?cs = "chunks CELL_PAYLOAD_LEN bs"
  have "onion_linked link (0 + length ?cs) j (ct_layers c) (ls_transport G) (ls_transport M) (ls_transport X)"
    using assms(2) by (simp add: idle_circuit_def)
  from send_user_chunks_hops [OF assms(1) this chunks_payloads(1), of "[]"]
  obtain ws vs us L' g' m' x' where hops:
    "send_user_chunks S (ct_layers c) ?cs (quiet []) = (Inr L', quiet (map ToGuard ws))"
    "peel_all S 3 (ls_transport G) ws = Some (map Forward vs, g')"
    "peel_all S 2 (ls_transport M) vs = Some (map Forward us, m')"
    "peel_all S 1 (ls_transport X) us = Some (map (\<lambda>c. ToMe (data_cell c)) ?cs, x')" by auto
  have "run_loop S ctxg Guard (feed FromPeer Wg ws) G (quiet []) = (None, quiet (map ToNext vs))"
    using relay_forwards [of G Guard S ws vs g' ctxg Wg "[]"] assms(2) hops(2) by (auto simp: idle_circuit_def inbound_len_sizes)
  moreover have "run_loop S ctxm Middle (feed FromPeer Wm vs) M (quiet []) = (None, quiet (map ToNext us))"
    using relay_forwards [of M Middle S vs us m' ctxm Wm "[]"] assms(2) hops(3) by (auto simp: idle_circuit_def inbound_len_sizes)
  moreover have "run_loop S ctxx Exit (feed FromPeer Wx us) X (quiet []) = (None, quiet (map ToDest ?cs))"
    using exit_delivers [of X ?cs S us x' ctxx Wx "[]"] assms(2) hops(4) chunks_payloads(2) [of bs]
    by (auto simp: idle_circuit_def inbound_len_sizes)
  moreover have "circuit_task S [UserTurn] c (quiet []) = (Some (c\<lparr>ct_layers := L', ct_user := []\<rparr>), quiet (map ToGuard ws))"
    using user_turn_quiet [OF assms(3-5) hops(1)] by simp
  moreover have "concat ?cs = bs" by (simp add: CELL_PAYLOAD_LEN_def)
  ultimately show ?thesis by blast
qed

text \<open>A circuit over the plain sessions, with three bytes to carry in either direction.\<close>

definition rest_relay :: "Role \<Rightarrow> NextLinkState option \<Rightarrow> arrival list option \<Rightarrow> (nat \<times> nat) loop_state" where
  "rest_relay rl nl dest = \<lparr>ls_transport = (0, 0), ls_inbound = reader_new [] (inbound_len rl), ls_next = nl, ls_dest = dest\<rparr>"

definition rest_link :: "nat \<Rightarrow> NextLinkState option" where
  "rest_link n = Some \<lparr>nl_read = reader_new [] n, nl_msg2 = replicate 48 0\<rparr>"

definition rest_client :: "arrival list \<Rightarrow> (nat \<times> nat) circuit_task_state" where
  "rest_client user = \<lparr>ct_layers = \<lparr>ly_guard = (0, 0), ly_middle = (0, 0), ly_exit = (0, 0)\<rparr>,
     ct_inbound = reader_new [] 564, ct_user = user\<rparr>"

lemma rest_idle:
  "idle_circuit plain_link i j (rest_client user) (rest_relay Guard (rest_link 547) None)
     (rest_relay Middle (rest_link 530) None) (rest_relay Exit None (Some dest))"
  by (simp add: idle_circuit_def rest_client_def rest_relay_def rest_link_def inbound_len_sizes onion_linked_def plain_link_def)

lemma small_chunks: "chunks CELL_PAYLOAD_LEN [1, 2, 3 :: byte] = [[1, 2, 3]]"
  by (simp add: chunks.simps CELL_PAYLOAD_LEN_def)

theorem user_bytes_reach_destination_witness:
  "\<exists>c' ws vs us. circuit_task plain_snow [UserTurn] (rest_client [Chunk [1, 2, 3]]) (quiet []) = (Some c', quiet (map ToGuard ws))
    \<and> run_loop plain_snow (sample_ctx Guard) Guard (feed FromPeer sample_turn ws) (rest_relay Guard (rest_link 547) None) (quiet [])
        = (None, quiet (map ToNext vs))
    \<and> run_loop plain_snow (sample_ctx Middle) Middle (feed FromPeer sample_turn vs) (rest_relay Middle (rest_link 530) None) (quiet [])
        = (None, quiet (map ToNext us))
    \<and> run_loop plain_snow (sample_ctx Exit) Exit (feed FromPeer sample_turn us) (rest_relay Exit None (Some [])) (quiet [])
        = (None, quiet [ToDest [1, 2, 3]])"
  using user_bytes_reach_destination [OF plain_transport_laws rest_idle [of "length (chunks CELL_PAYLOAD_LEN [1, 2, 3])" 0 "[Chunk [1, 2, 3]]" "[]"],
      of "sample_ctx Guard" sample_turn "sample_ctx Middle" sample_turn "sample_ctx Exit" sample_turn]
  by (simp add: small_chunks small_chunks [unfolded CELL_PAYLOAD_LEN_def] rest_client_def USER_READ_BUF_def CELL_PAYLOAD_LEN_def)

text \<open>
  C2: Bytes that the destination sends reach the user unchanged and in order. One read of the exit
  is cut into cells sealed for the client, the middle and the guard add a layer to each frame, and
  the client peels three layers and writes exactly the pieces of what the destination sent.
\<close>

theorem destination_bytes_reach_user:
  assumes "transport_laws S link" "idle_circuit link i (length (chunks CELL_PAYLOAD_LEN bs)) c G M X"
    and "ls_dest X = Some [Chunk bs]" "bs \<noteq> []" "length bs \<le> DEST_READ_BUF" "\<not> te_elapsed W"
  shows "\<exists>c' us vs ws. run_loop S ctxx Exit [Turn W] X (quiet []) = (None, quiet (map ToPeer us))
    \<and> run_loop S ctxm Middle (feed FromNext W us) M (quiet []) = (None, quiet (map ToPeer vs))
    \<and> run_loop S ctxg Guard (feed FromNext W vs) G (quiet []) = (None, quiet (map ToPeer ws))
    \<and> circuit_task S (guard_feed ws) c (quiet []) = (Some c', quiet (map ToUser (chunks CELL_PAYLOAD_LEN bs)))
    \<and> concat (chunks CELL_PAYLOAD_LEN bs) = bs"
proof -
  let ?cs = "chunks CELL_PAYLOAD_LEN bs"
  have "onion_linked link i (0 + length ?cs) (ct_layers c) (ls_transport G) (ls_transport M) (ls_transport X)"
    using assms(2) by (simp add: idle_circuit_def)
  from send_chunks_hops [OF assms(1) this chunks_payloads(1), of "[]"]
  obtain us vs ws L' g' m' x' where hops:
    "send_chunks S (ls_transport X) 1 ?cs (quiet []) = (Inr x', quiet (map ToPeer us))"
    "seal_forward_all S 2 (ls_transport M) us = Some (vs, m')" "seal_forward_all S 3 (ls_transport G) vs = Some (ws, g')"
    "peel_inbound_all S (ct_layers c) ws = Some (map data_cell ?cs, L')"
    "list_all (\<lambda>f. length f = 530) us" "list_all (\<lambda>f. length f = 547) vs" "list_all (\<lambda>f. length f = 564) ws" by auto
  obtain m2 m3 where idle: "ls_inbound G = reader_new [] 564" "ls_next G = Some \<lparr>nl_read = reader_new [] 547, nl_msg2 = m2\<rparr>"
    "ls_inbound M = reader_new [] 547" "ls_next M = Some \<lparr>nl_read = reader_new [] 530, nl_msg2 = m3\<rparr>"
    "ls_inbound X = reader_new [] 530" "ls_next X = None" "ct_inbound c = reader_new [] 564"
    using assms(2) by (auto simp: idle_circuit_def)
  have "run_loop S ctxx Exit [Turn W] X (quiet []) = (None, quiet (map ToPeer us))"
    using dest_turn_quiet [OF idle(5,6) assms(3-6) hops(1), of ctxx] by auto
  moreover have "run_loop S ctxm Middle (feed FromNext W us) M (quiet []) = (None, quiet (map ToPeer vs))"
    using relay_wraps [of M Middle 530 m3 us W S vs m' ctxm "[]"] idle hops assms(6) by (simp add: inbound_len_sizes)
  moreover have "run_loop S ctxg Guard (feed FromNext W vs) G (quiet []) = (None, quiet (map ToPeer ws))"
    using relay_wraps [of G Guard 547 m2 vs W S ws g' ctxg "[]"] idle hops assms(6) by (simp add: inbound_len_sizes)
  moreover obtain c' where "circuit_task S (guard_feed ws) c (quiet []) = (Some c', quiet (map ToUser ?cs))"
    using client_receives [OF idle(7) hops(7) chunks_payloads(2) hops(4), of "[]"] by auto
  moreover have "concat ?cs = bs" by (simp add: CELL_PAYLOAD_LEN_def)
  ultimately show ?thesis by blast
qed

theorem destination_bytes_reach_user_witness:
  "\<exists>c' us vs ws. run_loop plain_snow (sample_ctx Exit) Exit [Turn sample_turn] (rest_relay Exit None (Some [Chunk [1, 2, 3]])) (quiet [])
        = (None, quiet (map ToPeer us))
    \<and> run_loop plain_snow (sample_ctx Middle) Middle (feed FromNext sample_turn us) (rest_relay Middle (rest_link 530) None) (quiet [])
        = (None, quiet (map ToPeer vs))
    \<and> run_loop plain_snow (sample_ctx Guard) Guard (feed FromNext sample_turn vs) (rest_relay Guard (rest_link 547) None) (quiet [])
        = (None, quiet (map ToPeer ws))
    \<and> circuit_task plain_snow (guard_feed ws) (rest_client []) (quiet []) = (Some c', quiet [ToUser [1, 2, 3]])"
  using destination_bytes_reach_user [OF plain_transport_laws rest_idle [of 0 "length (chunks CELL_PAYLOAD_LEN [1, 2, 3])" "[]" "[Chunk [1, 2, 3]]"],
      of sample_turn "sample_ctx Exit" "sample_ctx Middle" "sample_ctx Guard"]
  by (simp add: small_chunks small_chunks [unfolded CELL_PAYLOAD_LEN_def] rest_relay_def sample_turn_def DEST_READ_BUF_def CELL_PAYLOAD_LEN_def)

section \<open>Building a circuit\<close>

text \<open>
  C3: Dialing builds a circuit. Take a route whose three entries have parsable addresses and public
  keys of relays that hold the matching private keys. Then the client's handshake with the guard,
  its two EXTENDs and its CONNECT complete: there are frames and replies such that, over any
  network that connects the client to the guard and carries these replies, \<^verbatim>\<open>dial\<close> returns a
  circuit after writing exactly the protocol byte, the token and these frames; every relay that can
  reach its next hop answers each frame with the next one of the sequence; and at the end the
  circuit is at rest, with the client's three sessions linked to those of the three relays.
\<close>

theorem dial_builds_circuit:
  assumes laws: "transport_laws S link" and hs: "handshake_laws S matches link" and ij: "i \<le> 2 ^ 62" "j \<le> 2 ^ 62"
    and g: "entry_addr (guard route) = Inr ga" "static_key (guard route) = Inr gk" "matches gp gk"
    and m: "entry_addr (middle route) = Inr ma" "static_key (middle route) = Inr mk" "matches mp mk"
    and x: "entry_addr (exit route) = Inr xa" "static_key (exit route) = Inr xk" "matches xp xk"
    and dest: "wf_connect \<lparr>connect_host = host, connect_port = port\<rparr>"
  shows "\<exists>msg1 msg2 tg mm1 mm2 tm mx1 mx2 tx w1 r1 w2 v2 b2 r2 w3 v3 u3 c G1 G2 G3 G4 M1 M2 X1.
    respond S sg gp msg1 = Inr (tg, msg2) \<and> respond S sm mp mm1 = Inr (tm, mm2) \<and> respond S sx xp mx1 = Inr (tx, mx2)
    \<and> (\<forall>N. guard_reachable N ga (tls_name (guard route)) [Chunk msg2, Chunk r1, Chunk r2] \<longrightarrow>
        dial S (s1, s2, s3) N route m_raw token host port (quiet []) =
          (Inr c, quiet [GuardTcp ga, GuardHello ga (tls_name (guard route)), ToGuard [PROTO_CLIENT], ToGuard m_raw,
             ToGuard token, ToGuard msg1, ToGuard w1, ToGuard w2, ToGuard w3]))
    \<and> (\<forall>W ctx e. hop_reachable W (cc_cfg ctx) ma e mm2 \<longrightarrow>
        turns_to S ctx Guard W (loop_init Guard tg []) FromPeer w1 (opening_actions ma e mm1 @ [ToPeer r1]) G1)
    \<and> (\<forall>W ctx. turns_to S ctx Guard W G1 FromPeer w2 [ToNext v2] G2)
    \<and> (\<forall>W ctx e. hop_reachable W (cc_cfg ctx) xa e mx2 \<longrightarrow>
        turns_to S ctx Middle W (loop_init Middle tm []) FromPeer v2 (opening_actions xa e mx1 @ [ToPeer b2]) M1)
    \<and> (\<forall>W ctx. \<not> te_elapsed W \<longrightarrow> turns_to S ctx Guard W G2 FromNext b2 [ToPeer r2] G3)
    \<and> (\<forall>W ctx. turns_to S ctx Guard W G3 FromPeer w3 [ToNext v3] G4)
    \<and> (\<forall>W ctx. turns_to S ctx Middle W M1 FromPeer v3 [ToNext u3] M2)
    \<and> (\<forall>W ctx. proxy_reachable W (cc_cfg ctx) host port \<longrightarrow>
        (\<exists>addr creds. turns_to S ctx Exit W (loop_init Exit tx []) FromPeer u3 [DialProxy addr creds host port] X1))
    \<and> idle_circuit link i j c G4 M2 X1"
proof -
  obtain h msg1 tg msg2 g0 where hand: "initiator_start S s1 gk = Inr (h, msg1)" "respond S sg gp msg1 = Inr (tg, msg2)"
    "initiator_finish S h msg2 = Inr g0" "\<And>a b. a \<le> 2 ^ 63 \<Longrightarrow> b \<le> 2 ^ 63 \<Longrightarrow> link a b g0 tg"
    using handshake_completes [OF hs g(3), of s1 sg] by blast
  have len: "length msg2 = NOISE_MSG_LEN" using respond_length [OF hand(2)] .
  let ?G0 = "loop_init Guard tg []"
  have lg: "link (Suc (Suc (Suc i))) (Suc (Suc j)) g0 (ls_transport ?G0)"
    using ij by (simp add: loop_init_def hand(4))
  have idle0: "ls_inbound ?G0 = reader_new [] 564" "ls_next ?G0 = None"
    by (simp_all add: loop_init_def inbound_len_sizes)
  obtain h2 w1 g1 mm1 tm mm2 r1 m0 g2 tg2 where e1:
    "extend_request S s2 g0 None (middle route) = Inr (h2, w1, g1, None)" "respond S sm mp mm1 = Inr (tm, mm2)"
    "\<And>W ctx e tr. hop_reachable W (cc_cfg ctx) ma e mm2 \<Longrightarrow>
       relay_turn S ctx Guard W (deliver ?G0 FromPeer (Chunk w1)) (quiet tr) =
         (Inr (Again (?G0\<lparr>ls_transport := tg2, ls_next := Some \<lparr>nl_read = reader_new [] 547, nl_msg2 = mm2\<rparr>\<rparr>)),
          quiet (tr @ opening_actions ma e mm1 @ [ToPeer r1]))"
    "extend_reply S h2 g1 None r1 = Inr (m0, g2, None)"
    "\<forall>a b. a \<le> 2 ^ 63 \<longrightarrow> b \<le> 2 ^ 63 \<longrightarrow> link a b m0 tm" "link (Suc (Suc i)) (Suc j) g2 tg2" "length r1 = 564"
    by (rule extend_via_guard [OF laws hs lg m(2,3,1) idle0, where seed = s2 and seed' = sm]) blast
  let ?G1 = "?G0\<lparr>ls_transport := tg2, ls_next := Some \<lparr>nl_read = reader_new [] 547, nl_msg2 = mm2\<rparr>\<rparr>"
  let ?M0 = "loop_init Middle tm []"
  have idle1: "ls_inbound ?G1 = reader_new [] 564" "ls_next ?G1 = Some \<lparr>nl_read = reader_new [] 547, nl_msg2 = mm2\<rparr>"
    "ls_inbound ?M0 = reader_new [] 547" "ls_next ?M0 = None"
    by (simp_all add: loop_init_def inbound_len_sizes)
  have lg1: "link (Suc (Suc i)) (Suc j) g2 (ls_transport ?G1)" using e1(6) by simp
  have lm: "link (Suc (Suc i)) (Suc j) m0 (ls_transport ?M0)" using ij e1(5) by (simp add: loop_init_def)
  obtain h3 w2 g3 m1 v2 tg3 mx1 tx mx2 b2 r2 x0 g4 m2 tg4 tm2 where e2:
    "extend_request S s3 g2 (Some m0) (exit route) = Inr (h3, w2, g3, Some m1)" "respond S sx xp mx1 = Inr (tx, mx2)"
    "\<And>W ctx tr. relay_turn S ctx Guard W (deliver ?G1 FromPeer (Chunk w2)) (quiet tr) =
       (Inr (Again (?G1\<lparr>ls_transport := tg3\<rparr>)), quiet (tr @ [ToNext v2]))"
    "\<And>W ctx e tr. hop_reachable W (cc_cfg ctx) xa e mx2 \<Longrightarrow>
       relay_turn S ctx Middle W (deliver ?M0 FromPeer (Chunk v2)) (quiet tr) =
         (Inr (Again (?M0\<lparr>ls_transport := tm2, ls_next := Some \<lparr>nl_read = reader_new [] 530, nl_msg2 = mx2\<rparr>\<rparr>)),
          quiet (tr @ opening_actions xa e mx1 @ [ToPeer b2]))"
    "\<And>W ctx tr. \<not> te_elapsed W \<Longrightarrow> relay_turn S ctx Guard W (deliver (?G1\<lparr>ls_transport := tg3\<rparr>) FromNext (Chunk b2)) (quiet tr) =
       (Inr (Again (?G1\<lparr>ls_transport := tg4\<rparr>)), quiet (tr @ [ToPeer r2]))"
    "extend_reply S h3 g3 (Some m1) r2 = Inr (x0, g4, Some m2)"
    "\<forall>a b. a \<le> 2 ^ 63 \<longrightarrow> b \<le> 2 ^ 63 \<longrightarrow> link a b x0 tx" "link (Suc i) j g4 tg4" "link (Suc i) j m2 tm2" "length r2 = 564"
    by (rule extend_via_middle [OF laws hs lg1 lm x(2,3,1) idle1, where seed = s3 and seed' = sx]) blast
  let ?G3 = "?G1\<lparr>ls_transport := tg4\<rparr>"
  let ?M1 = "?M0\<lparr>ls_transport := tm2, ls_next := Some \<lparr>nl_read = reader_new [] 530, nl_msg2 = mx2\<rparr>\<rparr>"
  let ?X0 = "loop_init Exit tx []"
  let ?L = "\<lparr>ly_guard = g4, ly_middle = m2, ly_exit = x0\<rparr>"
  have "onion_linked link (Suc i) j ?L (ls_transport ?G3) (ls_transport ?M1) (ls_transport ?X0)"
    using e2(7-9) ij by (simp add: onion_linked_def loop_init_def)
  with laws dest obtain body cell w3 v3 u3 L' g' m' x' where con:
    "connect_encode \<lparr>connect_host = host, connect_port = port\<rparr> = Inr body" "cell_new Connect body = Inr cell"
    "seal_for_exit S ?L cell = (Inr w3, L')" "onion_linked link i j L' g' m' x'"
    "\<forall>W ctx. turns_to S ctx Guard W ?G3 FromPeer w3 [ToNext v3] (?G3\<lparr>ls_transport := g'\<rparr>)"
    "\<forall>W ctx. turns_to S ctx Middle W ?M1 FromPeer v3 [ToNext u3] (?M1\<lparr>ls_transport := m'\<rparr>)"
    "\<forall>W ctx. proxy_reachable W (cc_cfg ctx) host port \<longrightarrow>
      (\<exists>addr creds. turns_to S ctx Exit W ?X0 FromPeer u3 [DialProxy addr creds host port] (?X0\<lparr>ls_transport := x', ls_dest := Some []\<rparr>))"
    by (rule connect_hops) (simp_all add: loop_init_def inbound_len_sizes)
  let ?c = "\<lparr>ct_layers = L', ct_inbound = reader_new [] 564, ct_user = []\<rparr>"
  let ?X1 = "?X0\<lparr>ls_transport := x', ls_dest := Some []\<rparr>"
  have "\<forall>N. guard_reachable N ga (tls_name (guard route)) [Chunk msg2, Chunk r1, Chunk r2] \<longrightarrow>
      dial S (s1, s2, s3) N route m_raw token host port (quiet []) =
        (Inr ?c, quiet [GuardTcp ga, GuardHello ga (tls_name (guard route)), ToGuard [PROTO_CLIENT], ToGuard m_raw,
           ToGuard token, ToGuard msg1, ToGuard w1, ToGuard w2, ToGuard w3])"
    using dial_quiet [OF g(1,2) _ hand(1) len hand(3) e1(1,4) e2(1,6) e1(7) e2(10) con(1-3)] by blast
  moreover have "\<forall>W ctx e. hop_reachable W (cc_cfg ctx) ma e mm2 \<longrightarrow>
      turns_to S ctx Guard W ?G0 FromPeer w1 (opening_actions ma e mm1 @ [ToPeer r1]) ?G1"
    using e1(3) [where tr = "[]"] unfolding turns_to_def append_Nil by blast
  moreover have "\<forall>W ctx. turns_to S ctx Guard W ?G1 FromPeer w2 [ToNext v2] (?G1\<lparr>ls_transport := tg3\<rparr>)"
    using e2(3) [where tr = "[]"] unfolding turns_to_def append_Nil by blast
  moreover have "\<forall>W ctx e. hop_reachable W (cc_cfg ctx) xa e mx2 \<longrightarrow>
      turns_to S ctx Middle W ?M0 FromPeer v2 (opening_actions xa e mx1 @ [ToPeer b2]) ?M1"
    using e2(4) [where tr = "[]"] unfolding turns_to_def append_Nil by blast
  moreover have "\<forall>W ctx. \<not> te_elapsed W \<longrightarrow> turns_to S ctx Guard W (?G1\<lparr>ls_transport := tg3\<rparr>) FromNext b2 [ToPeer r2] ?G3"
    using e2(5) [where tr = "[]"] unfolding turns_to_def append_Nil by blast
  moreover have "idle_circuit link i j ?c (?G3\<lparr>ls_transport := g'\<rparr>) (?M1\<lparr>ls_transport := m'\<rparr>) ?X1"
    using con(4) by (simp add: idle_circuit_def loop_init_def inbound_len_sizes)
  ultimately show ?thesis using hand(2) e1(2) e2(2) con(5-7) by (intro exI conjI) assumption+
qed

text \<open>Three relays with the all-zero public key, and a network that brings the given replies from the guard.\<close>

definition route_entry :: "string \<Rightarrow> string \<Rightarrow> RelayEntry" where
  "route_entry rl ip = (hop_entry rl ip)\<lparr>static_pubkey := replicate 64 CHR ''0''\<rparr>"

definition sample_route :: SelectedPath where
  "sample_route = \<lparr>guard = route_entry ''guard'' ''10.0.0.1'', middle = route_entry ''middle'' ''10.0.0.2'',
     exit = route_entry ''exit'' ''10.0.0.3'', span = 2\<rparr>"

definition guard_net :: "arrival list \<Rightarrow> client_net" where
  "guard_net inn = \<lparr>cn_tcp_connect = \<lambda>_. None, cn_nodelay = \<lambda>_. None, cn_server_name = \<lambda>_. True, cn_tls = \<lambda>_ _. Inr inn\<rparr>"

lemma route_entry_key: "static_key (route_entry rl ip) = Inr (replicate 32 0)"
  using chunks_zeros [of 32] by (simp add: static_key_def route_entry_def decode_hex_def wire_defs)

lemma sample_route_keys:
  "static_key (guard sample_route) = Inr (replicate 32 0)" "static_key (middle sample_route) = Inr (replicate 32 0)"
  "static_key (exit sample_route) = Inr (replicate 32 0)"
  by (simp_all add: sample_route_def route_entry_key)

lemma sample_route_addrs:
  "entry_addr (guard sample_route) = Inr (SockV4 [10, 0, 0, 1] 9001)"
  "entry_addr (middle sample_route) = Inr (SockV4 [10, 0, 0, 2] 9001)"
  "entry_addr (exit sample_route) = Inr (SockV4 [10, 0, 0, 3] 9001)"
  by (simp_all add: sample_route_def route_entry_def entry_addr_def ip_addr_def hop_entry_def canonical_ip_def parse_eval)

theorem dial_builds_circuit_witness:
  "\<exists>msg2 r1 r2 c acts G M X. dial plain_snow (0, 0, 0) (guard_net [Chunk msg2, Chunk r1, Chunk r2]) sample_route
       (replicate 32 0) (replicate 256 0) ''d'' 443 (quiet []) = (Inr c, quiet acts)
     \<and> idle_circuit plain_link 5 5 c G M X"
proof -
  have "wf_connect \<lparr>connect_host = ''d'', connect_port = 443\<rparr>"
    by (simp add: wf_connect_def is_str_def wire_defs MAX_CONNECT_HOST_LEN_def)
  note built = dial_builds_circuit [OF plain_transport_laws plain_handshake_laws _ _ sample_route_addrs(1) sample_route_keys(1) TrueI
      sample_route_addrs(2) sample_route_keys(2) TrueI sample_route_addrs(3) sample_route_keys(3) TrueI this,
      of 5 5 0 "[]" 0 "[]" 0 "[]" 0 0 0 "replicate 32 0" "replicate 256 0"]
  have reach: "guard_reachable (guard_net inn) ga sni inn" for inn ga sni by (simp add: guard_reachable_def guard_net_def)
  have "(5 :: nat) \<le> 2 ^ 62" by simp
  from built [OF this this] show ?thesis
  proof (elim exE conjE, goal_cases)
    case 1
    from 1(4) [THEN spec, THEN mp, OF reach] 1(12) show ?case by blast
  qed
qed

end
